(* ===== verification/Prelude.thy ===== *)
theory Prelude
  imports Complex_Main "HOL-Library.List_Lexorder" "HOL-Library.Char_ord"
begin

text \<open>
  Shared vocabulary of the development: the error values of the server, results of fallible
  Go functions, Go maps with string keys as sorted association lists, tables of rows with a
  primary key, 64-bit wrap-around and the string functions of the Go standard library that
  the server calls.  A Go string is a list of bytes, so \<open>length\<close> is Go's \<open>len\<close> and \<open><\<close> is
  Go's byte-wise comparison.
\<close>

named_theorems res_simps \<open>case analysis of sequenced fallible computations\<close>
named_theorems row_simps \<open>lookups in tables after insertion and deletion\<close>

section \<open>Errors\<close>

text \<open>
  The sentinel errors of all packages.  Wrapping with \<open>%w\<close> keeps \<open>errors.Is\<close>, so a wrapped
  error is the sentinel it wraps.  \<open>ErrDriver\<close> is any error the database driver reports for
  an operation, \<open>ErrDecode\<close> an error of \<open>json.Unmarshal\<close>.
\<close>

datatype go_error =
    ErrNotFound | ErrAlreadyExists | ErrReadOnly | ErrInvalidPath
  | ErrUnknownLevel | ErrUnknownRole | ErrForbidden | ErrDecode
  | ErrInvalidCredentials | ErrRateLimited | ErrSessionExpired | ErrWeakPassword
  | ErrUsernameTaken | ErrRandom
  | ErrEmptyExpression | ErrTooManyDice | ErrUnsupportedDie | ErrMalformed
  | ErrOutboxClosed | ErrSlowConsumer | ErrTicketInvalid | ErrNotAMember | ErrHandshake
  | ErrNoCombat | ErrNoCombatants | ErrNotADoor | ErrInviteSpent
  | ErrQuotaExceeded | ErrUnsupportedFormat | ErrTooLarge | ErrBroken
  | ErrBlobNotFound | ErrInvalidKey
  | IntentError string string
  | ErrDriver string

type_synonym 'a res = "go_error + 'a"

section \<open>Sequencing fallible computations\<close>

text \<open>\<open>if err != nil { return err }\<close> after a call.\<close>

definition bind_res :: "'e + 'a \<Rightarrow> ('a \<Rightarrow> 'e + 'b) \<Rightarrow> 'e + 'b" where
  "bind_res m f = (case m of Inl e \<Rightarrow> Inl e | Inr x \<Rightarrow> f x)"

lemma bind_res_simps [simp]:
  "bind_res (Inl e) f = Inl e"
  "bind_res (Inr x) f = f x"
  by (simp_all add: bind_res_def)

lemma bind_res_Inr_iff [res_simps]:
  "bind_res m f = Inr y \<longleftrightarrow> (\<exists>x. m = Inr x \<and> f x = Inr y)"
  by (cases m) auto

lemma bind_res_Inl_iff [res_simps]:
  "bind_res m f = Inl e \<longleftrightarrow> m = Inl e \<or> (\<exists>x. m = Inr x \<and> f x = Inl e)"
  by (cases m) auto

lemma bind_res_cong [fundef_cong]:
  "m = m' \<Longrightarrow> (\<And>x. m' = Inr x \<Longrightarrow> f x = g x) \<Longrightarrow> bind_res m f = bind_res m' g"
  by (cases m') auto

text \<open>A loop that appends one optional result per element and stops at the first error.\<close>

fun collect_res :: "('a \<Rightarrow> 'e + 'b option) \<Rightarrow> 'a list \<Rightarrow> 'e + 'b list" where
  "collect_res f [] = Inr []"
| "collect_res f (x # xs) =
     bind_res (f x) (\<lambda>y. bind_res (collect_res f xs) (\<lambda>ys.
       Inr (case y of None \<Rightarrow> ys | Some z \<Rightarrow> z # ys)))"

lemma collect_res_cong [fundef_cong]:
  "xs = ys \<Longrightarrow> (\<And>x. x \<in> set ys \<Longrightarrow> f x = g x) \<Longrightarrow> collect_res f xs = collect_res g ys"
proof (induction ys arbitrary: xs)
  case (Cons y ys)
  then have "collect_res f ys = collect_res g ys" by simp
  with Cons.prems show ?case by simp
qed simp

lemma collect_res_set:
  "collect_res f xs = Inr ys \<Longrightarrow>
     set ys = {y. \<exists>x \<in> set xs. f x = Inr (Some y)} \<and> (\<forall>x \<in> set xs. \<exists>r. f x = Inr r)"
proof (induction xs arbitrary: ys)
  case (Cons x xs)
  then obtain r zs where r: "f x = Inr r" and zs: "collect_res f xs = Inr zs"
    and ys: "ys = (case r of None \<Rightarrow> zs | Some z \<Rightarrow> z # zs)"
    by (auto simp: res_simps)
  from Cons.IH [OF zs] r ys show ?case by (auto split: option.splits)
qed simp

lemma collect_res_total:
  "(\<And>x. x \<in> set xs \<Longrightarrow> f x = Inr (g x)) \<Longrightarrow>
     collect_res f xs = Inr (List.map_filter g xs)"
  by (induction xs) (auto simp: List.map_filter_simps split: option.splits)

lemma map_option_agree:
  "map_option f x = map_option f y \<Longrightarrow>
     (\<And>v w. x = Some v \<Longrightarrow> y = Some w \<Longrightarrow> g v = g w) \<Longrightarrow>
     map_option g x = map_option g y"
  by (cases x; cases y) simp_all

section \<open>Go maps with string keys\<close>

text \<open>
  A Go \<open>map[string]T\<close> is a list of entries sorted by key.  Sorting makes the representation
  canonical (two equal maps are equal lists); it is also the order in which
  \<open>json.Marshal\<close> writes a map.  \<open>map_of\<close> is the lookup.
\<close>

type_synonym 'v gomap = "(string \<times> 'v) list"

fun map_put :: "'k::linorder \<Rightarrow> 'v \<Rightarrow> ('k \<times> 'v) list \<Rightarrow> ('k \<times> 'v) list" where
  "map_put k v [] = [(k, v)]"
| "map_put k v (e # m) =
     (if fst e < k then e # map_put k v m
      else if fst e = k then (k, v) # m
      else (k, v) # e # m)"

definition map_del :: "'k \<Rightarrow> ('k \<times> 'v) list \<Rightarrow> ('k \<times> 'v) list" where
  "map_del k m = filter (\<lambda>e. fst e \<noteq> k) m"

definition map_keep :: "('k \<Rightarrow> 'v \<Rightarrow> bool) \<Rightarrow> ('k \<times> 'v) list \<Rightarrow> ('k \<times> 'v) list" where
  "map_keep P m = filter (\<lambda>(k, v). P k v) m"

definition is_gomap :: "('k::linorder \<times> 'v) list \<Rightarrow> bool" where
  "is_gomap m \<longleftrightarrow> sorted_wrt (<) (map fst m)"

lemma map_of_put [simp]: "map_of (map_put k v m) = (map_of m)(k \<mapsto> v)"
  by (induction m) (auto simp: fun_eq_iff)

lemma map_of_del [simp]: "map_of (map_del k m) = (map_of m)(k := None)"
  unfolding map_del_def by (induction m) (auto simp: fun_eq_iff)

lemma set_map_put: "set (map fst (map_put k v m)) = insert k (set (map fst m))"
  by (induction m) auto

lemma is_gomap_Nil [simp]: "is_gomap []"
  by (simp add: is_gomap_def)

lemma is_gomap_Cons: "is_gomap (e # m) \<longleftrightarrow> (\<forall>k \<in> fst ` set m. fst e < k) \<and> is_gomap m"
  by (simp add: is_gomap_def)

lemma is_gomap_put [simp, intro]: "is_gomap m \<Longrightarrow> is_gomap (map_put k v m)"
proof (induction m)
  case (Cons e m)
  have "fst ` set (map_put k v m) = insert k (fst ` set m)"
    using set_map_put [of k v m] by simp
  with Cons show ?case by (auto simp: is_gomap_Cons)
qed (simp add: is_gomap_def)

lemma is_gomap_filter: "is_gomap m \<Longrightarrow> is_gomap (filter P m)"
  by (induction m) (auto simp: is_gomap_Cons)

lemma is_gomap_del [simp, intro]: "is_gomap m \<Longrightarrow> is_gomap (map_del k m)"
  unfolding map_del_def by (rule is_gomap_filter)

lemma is_gomap_keep [simp, intro]: "is_gomap m \<Longrightarrow> is_gomap (map_keep P m)"
  unfolding map_keep_def by (rule is_gomap_filter)

lemma is_gomap_distinct: "is_gomap m \<Longrightarrow> distinct (map fst m)"
  unfolding is_gomap_def by (simp add: strict_sorted_iff)

lemma map_of_keep: "is_gomap m \<Longrightarrow>
  map_of (map_keep P m) k = (case map_of m k of None \<Rightarrow> None | Some v \<Rightarrow> if P k v then Some v else None)"
proof (induction m)
  case (Cons e m)
  show ?case
  proof (cases "fst e = k")
    case True
    with Cons.prems have "map_of m k = None"
      by (auto simp: is_gomap_Cons map_of_eq_None_iff)
    with Cons True show ?thesis by (cases e) (auto simp: is_gomap_Cons map_keep_def)
  next
    case False
    with Cons show ?thesis by (cases e) (auto simp: is_gomap_Cons map_keep_def)
  qed
qed (simp add: map_keep_def)

text \<open>Building a map by assigning entries one after the other: the last one wins.\<close>

definition map_from :: "('k::linorder \<times> 'v) list \<Rightarrow> ('k \<times> 'v) list" where
  "map_from kvs = fold (\<lambda>(k, v). map_put k v) kvs []"

lemma is_gomap_fold_put: "is_gomap m \<Longrightarrow> is_gomap (fold (\<lambda>(k, v). map_put k v) kvs m)"
  by (induction kvs arbitrary: m) auto

lemma is_gomap_from [simp, intro]: "is_gomap (map_from kvs)"
  unfolding map_from_def by (rule is_gomap_fold_put) simp

lemma map_of_fold_put:
  "map_of (fold (\<lambda>(k, v). map_put k v) kvs m) = map_of m ++ map_of (rev kvs)"
proof (induction kvs arbitrary: m)
  case (Cons e kvs)
  then show ?case by (cases e) (simp add: map_add_def fun_eq_iff split: option.splits)
qed simp

lemma map_of_from: "map_of (map_from kvs) = map_of (rev kvs)"
  unfolding map_from_def by (simp add: map_of_fold_put)

lemma map_of_from_distinct: "distinct (map fst kvs) \<Longrightarrow> map_of (map_from kvs) = map_of kvs"
  by (simp add: map_of_from map_of_inject_set rev_map [symmetric])

section \<open>Tables\<close>

text \<open>
  A database table is a list of rows.  \<open>row_upsert\<close> is
  \<open>INSERT ... ON CONFLICT (key) DO UPDATE\<close>: \<open>merge old new\<close> is the row the update leaves.
\<close>

definition row_get :: "('r \<Rightarrow> 'k) \<Rightarrow> 'k \<Rightarrow> 'r list \<Rightarrow> 'r option" where
  "row_get key k rows = find (\<lambda>r. key r = k) rows"

definition row_upsert :: "('r \<Rightarrow> 'k) \<Rightarrow> ('r \<Rightarrow> 'r \<Rightarrow> 'r) \<Rightarrow> 'r \<Rightarrow> 'r list \<Rightarrow> 'r list" where
  "row_upsert key merge row rows =
     (if list_ex (\<lambda>r. key r = key row) rows
      then map (\<lambda>r. if key r = key row then merge r row else r) rows
      else rows @ [row])"

definition row_update :: "('r \<Rightarrow> bool) \<Rightarrow> ('r \<Rightarrow> 'r) \<Rightarrow> 'r list \<Rightarrow> 'r list" where
  "row_update P f rows = map (\<lambda>r. if P r then f r else r) rows"

definition row_delete :: "('r \<Rightarrow> bool) \<Rightarrow> 'r list \<Rightarrow> 'r list" where
  "row_delete P rows = filter (\<lambda>r. \<not> P r) rows"

definition keys_unique :: "('r \<Rightarrow> 'k) \<Rightarrow> 'r list \<Rightarrow> bool" where
  "keys_unique key rows \<longleftrightarrow> distinct (map key rows)"

lemma row_get_SomeD: "row_get key k rows = Some r \<Longrightarrow> r \<in> set rows \<and> key r = k"
  by (auto simp: row_get_def find_Some_iff)

lemma row_get_None_iff: "row_get key k rows = None \<longleftrightarrow> k \<notin> key ` set rows"
  by (auto simp: row_get_def find_None_iff)

lemma row_get_Cons: "row_get key k (r # rows) = (if key r = k then Some r else row_get key k rows)"
  by (simp add: row_get_def)

lemma row_get_Nil [simp]: "row_get key k [] = None"
  by (simp add: row_get_def)

lemma row_get_append:
  "row_get key k (rows @ rows') =
     (case row_get key k rows of None \<Rightarrow> row_get key k rows' | Some r \<Rightarrow> Some r)"
  by (induction rows) (auto simp: row_get_Cons)

lemma row_get_unique:
  "keys_unique key rows \<Longrightarrow> r \<in> set rows \<Longrightarrow> row_get key (key r) rows = Some r"
  by (induction rows) (force simp: keys_unique_def row_get_Cons)+

lemma row_get_map:
  assumes "\<And>r. r \<in> set rows \<Longrightarrow> key (f r) = key r"
  shows "row_get key k (map f rows) = map_option f (row_get key k rows)"
  using assms by (induction rows) (auto simp: row_get_Cons)

lemma row_get_update [row_simps]:
  assumes "\<And>r. key (f r) = key r"
  shows "row_get key k (row_update P f rows) =
    map_option (\<lambda>r. if P r then f r else r) (row_get key k rows)"
  unfolding row_update_def by (rule row_get_map) (simp add: assms)

lemma row_get_delete [row_simps]:
  assumes "keys_unique key rows"
  shows "row_get key k (row_delete P rows) =
    (case row_get key k rows of None \<Rightarrow> None | Some r \<Rightarrow> if P r then None else Some r)"
  using assms
proof (induction rows)
  case (Cons r rows)
  show ?case
  proof (cases "key r = k")
    case True
    with Cons.prems have "row_get key k rows = None"
      by (auto simp: keys_unique_def row_get_None_iff)
    with Cons True show ?thesis
      by (auto simp: row_delete_def keys_unique_def row_get_Cons)
  next
    case False
    with Cons show ?thesis by (auto simp: row_delete_def keys_unique_def row_get_Cons)
  qed
qed (simp add: row_delete_def)

lemma keys_unique_update [simp, intro]:
  assumes "\<And>r. key (f r) = key r" and "keys_unique key rows"
  shows "keys_unique key (row_update P f rows)"
proof -
  have "map key (row_update P f rows) = map key rows"
    using assms(1) by (auto simp: row_update_def)
  with assms(2) show ?thesis by (simp add: keys_unique_def)
qed

lemma keys_unique_delete [simp, intro]:
  "keys_unique key rows \<Longrightarrow> keys_unique key (row_delete P rows)"
  by (induction rows) (auto simp: keys_unique_def row_delete_def)

lemma has_key_iff: "list_ex (\<lambda>r. key r = k) rows \<longleftrightarrow> k \<in> key ` set rows"
  by (induction rows) auto

lemma row_get_has_key: "list_ex (\<lambda>r. key r = k) rows \<longleftrightarrow> (\<exists>r. row_get key k rows = Some r)"
  using row_get_None_iff [of key k rows] by (auto simp: has_key_iff)

text \<open>
  The contract of a table with a primary key and an upsert whose \<open>DO UPDATE\<close> part does not
  touch the key.
\<close>

locale keyed_table =
  fixes key :: "'r \<Rightarrow> 'k" and merge :: "'r \<Rightarrow> 'r \<Rightarrow> 'r"
  assumes merge_key: "key old = key new \<Longrightarrow> key (merge old new) = key new"
begin

lemma merged_keys:
  "map key (map (\<lambda>r. if key r = key row then merge r row else r) rows) = map key rows"
  by (simp add: merge_key)

lemma upsert_keys:
  "key ` set (row_upsert key merge row rows) = insert (key row) (key ` set rows)"
proof (cases "list_ex (\<lambda>r. key r = key row) rows")
  case True
  then have "key row \<in> key ` set rows" by (simp add: has_key_iff)
  moreover have "set (map key (row_upsert key merge row rows)) = set (map key rows)"
    using True by (simp only: row_upsert_def merged_keys if_True)
  ultimately show ?thesis by auto
qed (auto simp: row_upsert_def)

lemma get_upsert_same:
  "row_get key (key row) (row_upsert key merge row rows) =
     Some (case row_get key (key row) rows of None \<Rightarrow> row | Some old \<Rightarrow> merge old row)"
proof (cases "list_ex (\<lambda>r. key r = key row) rows")
  case True
  have "row_get key (key row) (map (\<lambda>r. if key r = key row then merge r row else r) rows) =
    map_option (\<lambda>r. if key r = key row then merge r row else r) (row_get key (key row) rows)"
    by (rule row_get_map) (simp add: merge_key)
  moreover from True obtain old where "row_get key (key row) rows = Some old"
    by (auto simp: row_get_has_key)
  ultimately show ?thesis
    using True by (auto simp: row_upsert_def dest: row_get_SomeD)
next
  case False
  then have "row_get key (key row) rows = None"
    by (auto simp: row_get_None_iff list_ex_iff)
  with False show ?thesis by (simp add: row_upsert_def row_get_append row_get_Cons)
qed

lemma get_upsert_other:
  assumes "k \<noteq> key row"
  shows "row_get key k (row_upsert key merge row rows) = row_get key k rows"
proof (cases "list_ex (\<lambda>r. key r = key row) rows")
  case True
  have "row_get key k (map (\<lambda>r. if key r = key row then merge r row else r) rows) =
    map_option (\<lambda>r. if key r = key row then merge r row else r) (row_get key k rows)"
    by (rule row_get_map) (simp add: merge_key)
  also have "\<dots> = row_get key k rows"
    using assms by (cases "row_get key k rows") (auto dest: row_get_SomeD)
  finally show ?thesis using True by (simp add: row_upsert_def)
next
  case False
  with assms show ?thesis
    by (simp add: row_upsert_def row_get_append row_get_Cons split: option.split)
qed

lemma upsert_unique:
  assumes "keys_unique key rows"
  shows "keys_unique key (row_upsert key merge row rows)"
proof (cases "list_ex (\<lambda>r. key r = key row) rows")
  case True
  with assms show ?thesis
    by (simp only: row_upsert_def keys_unique_def merged_keys if_True)
next
  case False
  with assms show ?thesis
    by (auto simp: row_upsert_def keys_unique_def list_ex_iff)
qed

lemma upsert_elem:
  "r \<in> set (row_upsert key merge row rows) \<Longrightarrow>
     key r \<noteq> key row \<Longrightarrow> r \<in> set rows"
  by (auto simp: row_upsert_def merge_key split: if_splits)

end

section \<open>Machine integers and time\<close>

text \<open>Go's \<open>int\<close> and \<open>int64\<close> wrap around at 64 bits, two's complement.\<close>

definition wrap64 :: "int \<Rightarrow> int" where
  "wrap64 x = signed_take_bit 63 x"

definition max_int64 :: int where "max_int64 = 9223372036854775807"
definition min_int64 :: int where "min_int64 = - 9223372036854775808"

lemma wrap64_id: "min_int64 \<le> x \<Longrightarrow> x \<le> max_int64 \<Longrightarrow> wrap64 x = x"
  by (simp add: wrap64_def min_int64_def max_int64_def signed_take_bit_int_eq_self)

lemma wrap64_code [code]:
  "wrap64 x = (if min_int64 \<le> x \<and> x \<le> max_int64 then x else signed_take_bit 63 x)"
  using wrap64_id [of x] by (auto simp: wrap64_def)

lemma wrap64_range: "min_int64 \<le> wrap64 x \<and> wrap64 x \<le> max_int64"
  using signed_take_bit_int_greater_eq_minus_exp [of 63 x] signed_take_bit_int_less_exp [of 63 x]
  by (simp add: wrap64_def min_int64_def max_int64_def)

text \<open>
  A \<open>time.Time\<close> is the number of nanoseconds since the zero time, so \<open>IsZero\<close> is \<open>= 0\<close>;
  a \<open>time.Duration\<close> is a number of nanoseconds.  \<open>Time.Sub\<close> saturates at the bounds of a
  duration.
\<close>

type_synonym time = int
type_synonym duration = int

definition time_sub :: "time \<Rightarrow> time \<Rightarrow> duration" where
  "time_sub t u = max min_int64 (min max_int64 (t - u))"

definition second :: duration where "second = 1000000000"
definition minute :: duration where "minute = 60 * second"
definition hour :: duration where "hour = 60 * minute"

section \<open>Strings\<close>

definition is_prefix :: "'a list \<Rightarrow> 'a list \<Rightarrow> bool" where
  "is_prefix p s \<longleftrightarrow> take (length p) s = p"

text \<open>
  \<open>strings.TrimSpace\<close> removes the code points of \<open>unicode.IsSpace\<close> at both ends.  Their
  UTF-8 encodings are the byte strings below; none of them is a proper suffix of another
  encoded code point, so removing encodings at the ends removes exactly those code points.
\<close>

definition space_codes :: "string list" where
  "space_codes =
     map (\<lambda>c. [c]) (map char_of [9, 10, 11, 12, 13, 32 :: nat])
     @ map (map char_of)
       [[194, 133], [194, 160], [225, 154, 128 :: nat],
        [226, 128, 128], [226, 128, 129], [226, 128, 130], [226, 128, 131], [226, 128, 132],
        [226, 128, 133], [226, 128, 134], [226, 128, 135], [226, 128, 136], [226, 128, 137],
        [226, 128, 138], [226, 128, 168], [226, 128, 169], [226, 128, 175], [226, 129, 159],
        [227, 128, 128]]"

lemma space_codes_code [code]:
  "space_codes =
    [[CHR 0x09], [CHR 0x0A], [CHR 0x0B], [CHR 0x0C], [CHR 0x0D], [CHR 0x20], [CHR 0xC2, CHR 0x85], [CHR
     0xC2, CHR 0xA0], [CHR 0xE1, CHR 0x9A, CHR 0x80], [CHR 0xE2, CHR 0x80, CHR 0x80], [CHR 0xE2, CHR
     0x80, CHR 0x81], [CHR 0xE2, CHR 0x80, CHR 0x82], [CHR 0xE2, CHR 0x80, CHR 0x83], [CHR 0xE2, CHR
     0x80, CHR 0x84], [CHR 0xE2, CHR 0x80, CHR 0x85], [CHR 0xE2, CHR 0x80, CHR 0x86], [CHR 0xE2, CHR
     0x80, CHR 0x87], [CHR 0xE2, CHR 0x80, CHR 0x88], [CHR 0xE2, CHR 0x80, CHR 0x89], [CHR 0xE2, CHR
     0x80, CHR 0x8A], [CHR 0xE2, CHR 0x80, CHR 0xA8], [CHR 0xE2, CHR 0x80, CHR 0xA9], [CHR 0xE2, CHR
     0x80, CHR 0xAF], [CHR 0xE2, CHR 0x81, CHR 0x9F], [CHR 0xE3, CHR 0x80, CHR 0x80]]"
  by (simp add: space_codes_def char_of_def bit_iff_odd)

definition strip_one :: "string list \<Rightarrow> string \<Rightarrow> string option" where
  "strip_one codes s =
     (case find (\<lambda>c. is_prefix c s) codes of
        None \<Rightarrow> None
      | Some c \<Rightarrow> (case c of [] \<Rightarrow> None | _ \<Rightarrow> Some (drop (length c) s)))"

lemma strip_one_shorter: "strip_one codes s = Some t \<Longrightarrow> length t < length s"
  by (auto simp: strip_one_def is_prefix_def find_Some_iff split: option.splits list.splits)
     (metis One_nat_def diff_less length_0_conv length_Cons length_drop length_greater_0_conv
        list.distinct(1) take_Nil zero_less_Suc)

function strip_front :: "string list \<Rightarrow> string \<Rightarrow> string" where
  "strip_front codes s =
     (case strip_one codes s of None \<Rightarrow> s | Some t \<Rightarrow> strip_front codes t)"
  by pat_completeness auto
termination
  by (relation "measure (\<lambda>(codes, s). length s)") (auto dest: strip_one_shorter)

declare strip_front.simps [simp del]

definition trim_space :: "string \<Rightarrow> string" where
  "trim_space s = rev (strip_front (map rev space_codes) (rev (strip_front space_codes s)))"

text \<open>
  \<open>strings.ToLower\<close> maps ASCII strings byte by byte; for other strings it consults the
  Unicode case table, which is the parameter \<open>ulower\<close>.
\<close>

definition is_ascii :: "string \<Rightarrow> bool" where
  "is_ascii s \<longleftrightarrow> list_all (\<lambda>c. (of_char c :: nat) < 128) s"

lemma is_ascii_code [code]:
  "is_ascii s \<longleftrightarrow> list_all (\<lambda>c. case c of Char b0 b1 b2 b3 b4 b5 b6 b7 \<Rightarrow> \<not> b7) s"
proof -
  have "(of_char (Char b0 b1 b2 b3 b4 b5 b6 b7) < (128::nat)) = (\<not> b7)" for b0 b1 b2 b3 b4 b5 b6 b7
    by (cases b0; cases b1; cases b2; cases b3; cases b4; cases b5; cases b6; cases b7) simp_all
  then have "(\<lambda>c. of_char c < (128::nat)) = (\<lambda>c. case c of Char b0 b1 b2 b3 b4 b5 b6 b7 \<Rightarrow> \<not> b7)"
    by (auto simp: fun_eq_iff split: char.splits)
  then show ?thesis unfolding is_ascii_def by simp
qed

definition lower_byte :: "char \<Rightarrow> char" where
  "lower_byte c = (if CHR ''A'' \<le> c \<and> c \<le> CHR ''Z'' then char_of (of_char c + 32 :: nat) else c)"

definition to_lower :: "(string \<Rightarrow> string) \<Rightarrow> string \<Rightarrow> string" where
  "to_lower ulower s = (if is_ascii s then map lower_byte s else ulower s)"

definition is_digit :: "char \<Rightarrow> bool" where
  "is_digit c \<longleftrightarrow> CHR ''0'' \<le> c \<and> c \<le> CHR ''9''"

lemma is_digit_code [code]:
  "is_digit (Char b0 b1 b2 b3 b4 b5 b6 b7) \<longleftrightarrow> \<not> b7 \<and> \<not> b6 \<and> b5 \<and> b4 \<and> \<not> (b3 \<and> (b2 \<or> b1))"
  by (cases b0; cases b1; cases b2; cases b3; cases b4; cases b5; cases b6; cases b7)
    (simp_all add: is_digit_def less_eq_char_def)

definition digit_val :: "char \<Rightarrow> int" where
  "digit_val c = of_char c - 48"

definition parse_digits :: "string \<Rightarrow> int" where
  "parse_digits s = fold (\<lambda>c acc. 10 * acc + digit_val c) s 0"

text \<open>\<open>strconv.Atoi\<close>: an optional sign and decimal digits, in the range of a 64-bit integer.\<close>

definition atoi :: "string \<Rightarrow> int option" where
  "atoi s =
     (let (neg, ds) = (case s of
         [] \<Rightarrow> (False, [])
       | c # cs \<Rightarrow> if c = CHR ''-'' then (True, cs) else if c = CHR ''+'' then (False, cs) else (False, s));
        v = (if neg then - parse_digits ds else parse_digits ds)
      in if ds \<noteq> [] \<and> list_all is_digit ds \<and> min_int64 \<le> v \<and> v \<le> max_int64 then Some v else None)"

text \<open>\<open>strings.Split(s, sep)\<close> for a separator of one byte.\<close>

fun split_on :: "char \<Rightarrow> string \<Rightarrow> string list" where
  "split_on d [] = [[]]"
| "split_on d (c # cs) =
     (if c = d then [] # split_on d cs
      else (case split_on d cs of [] \<Rightarrow> [[c]] | w # ws \<Rightarrow> (c # w) # ws))"

fun join_with :: "string \<Rightarrow> string list \<Rightarrow> string" where
  "join_with sep [] = []"
| "join_with sep [w] = w"
| "join_with sep (w # ws) = w @ sep @ join_with sep ws"

lemma split_on_nonempty: "split_on d s \<noteq> []"
  by (induction s) (auto split: list.splits)

lemma join_split: "join_with [d] (split_on d s) = s"
proof (induction s)
  case (Cons c cs)
  obtain w ws where "split_on d cs = w # ws" by (metis split_on_nonempty neq_Nil_conv)
  with Cons show ?case by (cases ws) auto
qed simp

lemma split_on_no_sep: "w \<in> set (split_on d s) \<Longrightarrow> d \<notin> set w"
  by (induction s arbitrary: w) (auto split: if_splits list.splits)

lemma split_on_sep_free: "d \<notin> set w \<Longrightarrow> split_on d w = [w]"
  by (induction w) auto

lemma split_on_append: "d \<notin> set w \<Longrightarrow> split_on d (w @ d # s) = w # split_on d s"
  by (induction w) auto

lemma split_join:
  "ws \<noteq> [] \<Longrightarrow> (\<And>w. w \<in> set ws \<Longrightarrow> d \<notin> set w) \<Longrightarrow> split_on d (join_with [d] ws) = ws"
  by (induction "[d]" ws rule: join_with.induct) (auto simp: split_on_sep_free split_on_append)

end
