(* ===== verification/Float64.thy ===== *)
theory Float64
  imports Prelude "HOL-Library.Log_Nat"
begin

text \<open>
  Go's \<open>float64\<close>: IEEE 754 binary64 with round to nearest, ties to even.  A finite value is
  the rational number it denotes (the sign of zero is not kept: no comparison of the program
  can tell the two zeros apart).  Each operation rounds the exact result once; fused
  multiply-add, which the language allows on some architectures, is not used.
\<close>

datatype f64 = Fin rat | PInf | NInf | NaN

definition round_even :: "rat \<Rightarrow> int" where
  "round_even x =
     (let f = \<lfloor>x\<rfloor>; d = x - of_int f in
      if d < 1/2 then f else if 1/2 < d then f + 1 else if even f then f else f + 1)"

text \<open>The largest \<open>e\<close> with \<open>2 powi e \<le> x\<close>, for positive \<open>x\<close>.\<close>

definition flog :: "rat \<Rightarrow> int" where
  "flog x =
     (let (p, q) = quotient_of x; d = bitlen p - bitlen q
      in if 2 powi d \<le> x then d else d - 1)"

definition fl :: "rat \<Rightarrow> f64" where
  "fl x =
     (if x = 0 then Fin 0
      else let e = max (flog \<bar>x\<bar> - 52) (-1074);
               m = round_even (x / 2 powi e)
           in if e > 971 \<or> (e = 971 \<and> \<bar>m\<bar> \<ge> 9007199254740992)
              then (if x > 0 then PInf else NInf)
              else Fin (of_int m * 2 powi e))"

fun f_neg :: "f64 \<Rightarrow> f64" where
  "f_neg (Fin a) = Fin (- a)"
| "f_neg PInf = NInf"
| "f_neg NInf = PInf"
| "f_neg NaN = NaN"

fun f_add :: "f64 \<Rightarrow> f64 \<Rightarrow> f64" where
  "f_add (Fin a) (Fin b) = fl (a + b)"
| "f_add NaN _ = NaN"
| "f_add _ NaN = NaN"
| "f_add PInf NInf = NaN"
| "f_add NInf PInf = NaN"
| "f_add PInf _ = PInf"
| "f_add NInf _ = NInf"
| "f_add _ PInf = PInf"
| "f_add _ NInf = NInf"

definition f_sub :: "f64 \<Rightarrow> f64 \<Rightarrow> f64" where
  "f_sub a b = f_add a (f_neg b)"

definition f_signed :: "bool \<Rightarrow> f64" where
  "f_signed positive = (if positive then PInf else NInf)"

fun f_mul :: "f64 \<Rightarrow> f64 \<Rightarrow> f64" where
  "f_mul (Fin a) (Fin b) = fl (a * b)"
| "f_mul NaN _ = NaN"
| "f_mul _ NaN = NaN"
| "f_mul (Fin a) PInf = (if a = 0 then NaN else f_signed (a > 0))"
| "f_mul (Fin a) NInf = (if a = 0 then NaN else f_signed (a < 0))"
| "f_mul PInf (Fin b) = (if b = 0 then NaN else f_signed (b > 0))"
| "f_mul NInf (Fin b) = (if b = 0 then NaN else f_signed (b < 0))"
| "f_mul PInf PInf = PInf"
| "f_mul NInf NInf = PInf"
| "f_mul PInf NInf = NInf"
| "f_mul NInf PInf = NInf"

fun f_div :: "f64 \<Rightarrow> f64 \<Rightarrow> f64" where
  "f_div (Fin a) (Fin b) = (if b \<noteq> 0 then fl (a / b) else if a = 0 then NaN else f_signed (a > 0))"
| "f_div NaN _ = NaN"
| "f_div _ NaN = NaN"
| "f_div (Fin a) _ = Fin 0"
| "f_div PInf (Fin b) = f_signed (b \<ge> 0)"
| "f_div NInf (Fin b) = f_signed (b < 0)"
| "f_div _ _ = NaN"

text \<open>\<open>float64(n)\<close>, and \<open>int(x)\<close>, which drops the fraction; the language leaves open what it gives outside the range of an \<open>int\<close>.\<close>

definition f_of_int :: "int \<Rightarrow> f64" where
  "f_of_int n = fl (of_int n)"

definition f_to_int :: "f64 \<Rightarrow> int" where
  "f_to_int x =
     (case x of
        Fin r \<Rightarrow> let n = (if r \<ge> 0 then \<lfloor>r\<rfloor> else \<lceil>r\<rceil>) in if min_int64 \<le> n \<and> n \<le> max_int64 then n else min_int64
      | _ \<Rightarrow> min_int64)"

fun f_less :: "f64 \<Rightarrow> f64 \<Rightarrow> bool" where
  "f_less (Fin a) (Fin b) = (a < b)"
| "f_less NaN _ = False"
| "f_less _ NaN = False"
| "f_less NInf NInf = False"
| "f_less NInf _ = True"
| "f_less _ NInf = False"
| "f_less PInf _ = False"
| "f_less _ PInf = True"

definition f_le :: "f64 \<Rightarrow> f64 \<Rightarrow> bool" where
  "f_le a b \<longleftrightarrow> f_less a b \<or> (a = b \<and> a \<noteq> NaN)"

definition f_eq :: "f64 \<Rightarrow> f64 \<Rightarrow> bool" where
  "f_eq a b \<longleftrightarrow> a = b \<and> a \<noteq> NaN"

lemma f_le_Fin [simp]: "f_le (Fin a) (Fin b) \<longleftrightarrow> a \<le> b"
  by (auto simp: f_le_def)

section \<open>Rounding to an integer\<close>

lemma round_even_of_int [simp]: "round_even (of_int k) = k"
  by (simp add: round_even_def)

lemma round_even_ge: "of_int k \<le> x \<Longrightarrow> k \<le> round_even x"
proof -
  assume "of_int k \<le> x"
  then have "k \<le> \<lfloor>x\<rfloor>" by (simp add: le_floor_iff)
  then show ?thesis by (auto simp: round_even_def Let_def)
qed

lemma round_even_le: "x \<le> of_int k \<Longrightarrow> round_even x \<le> k"
proof -
  assume x: "x \<le> of_int k"
  show ?thesis
  proof (cases "x = of_int k")
    case False
    with x have "\<lfloor>x\<rfloor> < k" by (simp add: floor_less_iff)
    then show ?thesis by (auto simp: round_even_def Let_def)
  qed simp
qed

section \<open>The exponent\<close>

lemma powi_pos: "0 < (2::rat) powi e"
  by (simp add: zero_less_power_int)

lemma flog_lower:
  assumes "0 < x"
  shows "2 powi (flog x) \<le> x"
proof -
  obtain p q where pq: "quotient_of x = (p, q)" by (cases "quotient_of x")
  then have q: "0 < q" and x: "x = of_int p / of_int q"
    by (auto simp: quotient_of_denom_pos dest: quotient_of_div)
  with assms have p: "0 < p" by (simp add: zero_less_divide_iff)
  have "2 powi (bitlen p - 1) \<le> (of_int p :: rat)"
  proof -
    have "2 ^ nat (bitlen p - 1) \<le> p" using bitlen_bounds [OF p] by simp
    then have "(of_int (2 ^ nat (bitlen p - 1)) :: rat) \<le> of_int p" by (rule of_int_le_iff [THEN iffD2])
    moreover have "0 \<le> bitlen p - 1" using p by (simp add: bitlen_def floorlog_def)
    ultimately show ?thesis by (simp add: power_int_def)
  qed
  moreover have "(of_int q :: rat) \<le> 2 powi (bitlen q)"
  proof -
    have "q \<le> 2 ^ nat (bitlen q)" using bitlen_bounds [OF q] by simp
    then have "(of_int q :: rat) \<le> of_int (2 ^ nat (bitlen q))" by (rule of_int_le_iff [THEN iffD2])
    then show ?thesis by (simp add: power_int_def bitlen_nonneg)
  qed
  ultimately have "2 powi (bitlen p - 1) / 2 powi (bitlen q) \<le> x"
    using q p unfolding x by (intro frac_le) (auto simp: powi_pos)
  moreover have "(2::rat) powi (bitlen p - bitlen q - 1) = 2 powi (bitlen p - 1) / 2 powi (bitlen q)"
    using power_int_diff [of "2::rat" "bitlen p - 1" "bitlen q"] by (simp add: algebra_simps)
  ultimately have "2 powi (bitlen p - bitlen q - 1) \<le> x" by simp
  then show ?thesis by (auto simp: flog_def pq Let_def)
qed

lemma flog_less:
  assumes "0 < x" and "x < 2 ^ n"
  shows "flog x < int n"
proof (rule ccontr)
  assume "\<not> flog x < int n"
  then have "(2::rat) powi (int n) \<le> 2 powi (flog x)"
    by (intro power_int_increasing) auto
  also have "\<dots> \<le> x" using assms(1) by (rule flog_lower)
  finally show False using assms(2) by simp
qed

section \<open>Numbers that need no rounding\<close>

text \<open>
  A multiple of \<open>2 powi - k\<close> whose magnitude is below \<open>2 ^ (53 - k)\<close> has at most 53
  significant bits.
\<close>

lemma fl_exact:
  assumes "\<bar>n\<bar> < 2 ^ 53" and "k \<le> 53"
  shows "fl (of_int n / 2 ^ k) = Fin (of_int n / 2 ^ k)"
proof (cases "n = 0")
  case False
  let ?x = "of_int n / 2 ^ k :: rat"
  define e where "e = max (flog \<bar>?x\<bar> - 52) (-1074)"
  have "(of_int \<bar>n\<bar> :: rat) < of_int (2 ^ 53)"
    using assms(1) by (simp only: of_int_less_iff)
  then have "\<bar>?x\<bar> < 2 ^ (53 - k)"
    using assms(2) by (simp add: power_diff field_simps)
  with False have "flog \<bar>?x\<bar> < int (53 - k)" by (intro flog_less) auto
  with assms(2) have e: "e \<le> - int k" by (auto simp: e_def)
  have "?x / 2 powi e = of_int n * 2 powi (- int k - e)"
    by (simp add: power_int_diff power_int_minus field_simps)
  also have "\<dots> = of_int (n * 2 ^ nat (- int k - e))"
    using e by (simp add: power_int_def)
  finally have "?x / 2 powi e = of_int (n * 2 ^ nat (- int k - e))" .
  then have m: "of_int (round_even (?x / 2 powi e)) = ?x / 2 powi e"
    by (metis round_even_of_int)
  have "fl ?x = Fin (of_int (round_even (?x / 2 powi e)) * 2 powi e)"
    using False e assms(2) unfolding fl_def Let_def e_def [symmetric] by auto
  with m show ?thesis using powi_pos [of e] by simp
qed (simp add: fl_def)

lemma fl_of_int: "\<bar>n\<bar> < 2 ^ 53 \<Longrightarrow> fl (of_int n) = Fin (of_int n)"
  using fl_exact [of n 0] by simp

text \<open>Small integers need no rounding, which speeds up evaluation.\<close>

lemma fl_code [code]:
  "fl x =
     (case quotient_of x of (p, q) \<Rightarrow>
        if q = 1 \<and> \<bar>p\<bar> < 9007199254740992 then Fin x
        else let e = max (flog \<bar>x\<bar> - 52) (-1074);
                 m = round_even (x / 2 powi e)
             in if e > 971 \<or> (e = 971 \<and> \<bar>m\<bar> \<ge> 9007199254740992)
                then (if x > 0 then PInf else NInf)
                else Fin (of_int m * 2 powi e))"
proof -
  obtain p q where pq: "quotient_of x = (p, q)" by (cases "quotient_of x")
  show ?thesis
  proof (cases "q = 1 \<and> \<bar>p\<bar> < 9007199254740992")
    case True
    then have "x = of_int p" using quotient_of_div [OF pq] by simp
    then have "fl x = Fin x" using True fl_of_int [of p] by simp
    then show ?thesis using True pq by simp
  next
    case False
    have "x \<noteq> 0" using False pq by auto
    then show ?thesis using False pq unfolding fl_def by (simp only: prod.case if_False)
  qed
qed

text \<open>Rounding does not cross a multiple of one half, for arguments below \<open>2 ^ 52\<close>.\<close>

lemma fl_halves:
  assumes "\<bar>x\<bar> < 2 ^ 52"
  obtains r where "fl x = Fin r"
    and "\<And>k. of_int k / 2 \<le> x \<Longrightarrow> of_int k / 2 \<le> r" and "\<And>k. x \<le> of_int k / 2 \<Longrightarrow> r \<le> of_int k / 2"
proof (cases "x = 0")
  case False
  define e where "e = max (flog \<bar>x\<bar> - 52) (-1074)"
  define m where "m = round_even (x / 2 powi e)"
  from False assms have "flog \<bar>x\<bar> < int 52" by (intro flog_less) auto
  then have e: "e \<le> -1" by (auto simp: e_def)
  have fx: "fl x = Fin (of_int m * 2 powi e)"
    using False e unfolding fl_def Let_def e_def [symmetric] m_def [symmetric] by auto
  define s :: int where "s = 2 ^ nat (- e - 1)"
  have "nat (- e) = Suc (nat (- e - 1))" using e by simp
  then have "(of_int s :: rat) * 2 * 2 powi e = 1"
    using e by (simp add: s_def power_int_def flip: power_mult_distrib)
  then have k: "of_int (k * s) * (2 :: rat) powi e = of_int k / 2" for k
    by (simp add: mult.assoc)
  have k': "of_int k / 2 / (2 :: rat) powi e = of_int (k * s)" for k
    using k [of k] powi_pos [of e] by (metis less_irrefl nonzero_mult_div_cancel_right)
  show ?thesis
  proof (rule that [OF fx])
    fix k assume "of_int k / 2 \<le> x"
    then have "of_int k / 2 / 2 powi e \<le> x / 2 powi e"
      using powi_pos [of e] by (intro divide_right_mono) auto
    then have "k * s \<le> m" unfolding m_def k' by (rule round_even_ge)
    then have "of_int (k * s) * (2 :: rat) powi e \<le> of_int m * 2 powi e"
      using powi_pos [of e] by (intro mult_right_mono) (simp_all only: of_int_le_iff less_imp_le)
    then show "of_int k / 2 \<le> of_int m * (2 :: rat) powi e" by (simp only: k)
  next
    fix k assume "x \<le> of_int k / 2"
    then have "x / 2 powi e \<le> of_int k / 2 / 2 powi e"
      using powi_pos [of e] by (intro divide_right_mono) auto
    then have "m \<le> k * s" unfolding m_def k' by (rule round_even_le)
    then have "of_int m * (2 :: rat) powi e \<le> of_int (k * s) * 2 powi e"
      using powi_pos [of e] by (intro mult_right_mono) (simp_all only: of_int_le_iff less_imp_le)
    then show "of_int m * (2 :: rat) powi e \<le> of_int k / 2" by (simp only: k)
  qed
next
  case True
  show ?thesis by (rule that [of 0]) (auto simp: fl_def True)
qed

lemma fl_halves_ex:
  "\<bar>x\<bar> < 2 ^ 52 \<Longrightarrow> \<exists>r. fl x = Fin r \<and> (\<forall>k. of_int k / 2 \<le> x \<longrightarrow> of_int k / 2 \<le> r) \<and>
     (\<forall>k. x \<le> of_int k / 2 \<longrightarrow> r \<le> of_int k / 2)"
  by (erule fl_halves) blast

section \<open>Rounded numbers\<close>

lemma flog_upper:
  assumes "0 < x"
  shows "x < 2 powi (flog x + 1)"
proof -
  obtain p q where pq: "quotient_of x = (p, q)" by (cases "quotient_of x")
  then have q: "0 < q" and x: "x = of_int p / of_int q"
    by (auto simp: quotient_of_denom_pos dest: quotient_of_div)
  with assms have p: "0 < p" by (simp add: zero_less_divide_iff)
  have "(of_int p :: rat) < 2 powi (bitlen p)"
  proof -
    have "p < 2 ^ nat (bitlen p)" using bitlen_bounds [OF p] by simp
    then have "(of_int p :: rat) < of_int (2 ^ nat (bitlen p))" by (rule of_int_less_iff [THEN iffD2])
    then show ?thesis by (simp add: power_int_def bitlen_nonneg)
  qed
  moreover have "2 powi (bitlen q - 1) \<le> (of_int q :: rat)"
  proof -
    have "2 ^ nat (bitlen q - 1) \<le> q" using bitlen_bounds [OF q] by simp
    then have "(of_int (2 ^ nat (bitlen q - 1)) :: rat) \<le> of_int q" by (rule of_int_le_iff [THEN iffD2])
    moreover have "0 \<le> bitlen q - 1" using q by (simp add: bitlen_def floorlog_def)
    ultimately show ?thesis by (simp add: power_int_def)
  qed
  ultimately have "x < 2 powi (bitlen p) / 2 powi (bitlen q - 1)"
    using q p unfolding x by (intro frac_less) (auto simp: powi_pos)
  moreover have "(2::rat) powi (bitlen p - bitlen q + 1) = 2 powi (bitlen p) / 2 powi (bitlen q - 1)"
    using power_int_diff [of "2::rat" "bitlen p" "bitlen q - 1"] by (simp add: algebra_simps)
  ultimately have "x < 2 powi (bitlen p - bitlen q + 1)" by simp
  then show ?thesis by (auto simp: flog_def pq Let_def)
qed

lemma flog_below:
  assumes "0 < x" and "x < 2 powi n"
  shows "flog x < n"
proof (rule ccontr)
  assume "\<not> flog x < n"
  then have "(2::rat) powi n \<le> 2 powi (flog x)" by (intro power_int_increasing) auto
  also have "\<dots> \<le> x" using assms(1) by (rule flog_lower)
  finally show False using assms(2) by simp
qed

text \<open>The significand of a rounded number has at most 53 bits.\<close>

lemma round_significand:
  assumes "x \<noteq> 0" and "e = max (flog \<bar>x\<bar> - 52) (-1074)"
  shows "\<bar>round_even (x / 2 powi e)\<bar> \<le> 2 ^ 53"
proof -
  have "\<bar>x\<bar> < 2 powi (flog \<bar>x\<bar> + 1)" using assms(1) by (intro flog_upper) simp
  also have "\<dots> \<le> 2 powi (53 + e)" using assms(2) by (intro power_int_increasing) auto
  also have "\<dots> = of_int (2 ^ 53) * 2 powi e" by (simp add: power_int_add)
  finally have b: "\<bar>x / 2 powi e\<bar> \<le> of_int (2 ^ 53)"
    using powi_pos [of e] by (simp add: abs_divide divide_le_eq)
  then have "x / 2 powi e \<le> of_int (2 ^ 53)" "of_int (- (2 ^ 53)) \<le> x / 2 powi e"
    using abs_le_D1 abs_le_D2 by (fastforce simp: minus_le_iff)+
  then show ?thesis using round_even_le [of "x / 2 powi e" "2 ^ 53"] round_even_ge [of "- (2 ^ 53)" "x / 2 powi e"]
    by (simp add: abs_le_iff)
qed

lemma fl_multiple:
  assumes "\<bar>m\<bar> < 2 ^ 53" and "- 1074 \<le> e" "e \<le> 971"
  shows "fl (of_int m * 2 powi e) = Fin (of_int m * 2 powi e)"
proof (cases "m = 0")
  case False
  let ?y = "of_int m * 2 powi e :: rat"
  define e' where "e' = max (flog \<bar>?y\<bar> - 52) (-1074)"
  have "(of_int \<bar>m\<bar> :: rat) < of_int (2 ^ 53)" using assms(1) by (simp only: of_int_less_iff)
  then have "\<bar>?y\<bar> < of_int (2 ^ 53) * 2 powi e"
    using powi_pos [of e] by (simp only: abs_mult of_int_abs [symmetric] abs_of_pos mult_less_cancel_right_pos)
  also have "\<dots> = 2 powi (53 + e)" by (simp add: power_int_add)
  finally have "flog \<bar>?y\<bar> < 53 + e" using False powi_pos [of e] by (intro flog_below) auto
  then have e': "e' \<le> e" "- 1074 \<le> e'" using assms(2) by (auto simp: e'_def)
  have "?y / 2 powi e' = of_int m * 2 powi (e - e')" by (simp add: power_int_diff)
  also have "\<dots> = of_int (m * 2 ^ nat (e - e'))" using e'(1) by (simp add: power_int_def)
  finally have q: "?y / 2 powi e' = of_int (m * 2 ^ nat (e - e'))" .
  then have m': "round_even (?y / 2 powi e') = m * 2 ^ nat (e - e')" by (metis round_even_of_int)
  have "\<not> (e' > 971 \<or> (e' = 971 \<and> \<bar>m * 2 ^ nat (e - e')\<bar> \<ge> 9007199254740992))"
    using e'(1) assms(1,3) by auto
  moreover have "of_int (m * 2 ^ nat (e - e')) * 2 powi e' = ?y" using q powi_pos [of e'] by (auto simp: field_simps)
  moreover have "?y \<noteq> 0" using False powi_pos [of e] by simp
  ultimately show ?thesis unfolding fl_def Let_def e'_def [symmetric] m' by auto
qed (simp add: fl_def)

text \<open>Rounding a rounded number changes nothing.\<close>

lemma fl_idem: "fl x = Fin r \<Longrightarrow> fl r = Fin r"
proof (cases "x = 0")
  case False
  assume r: "fl x = Fin r"
  define e where "e = max (flog \<bar>x\<bar> - 52) (-1074)"
  define m where "m = round_even (x / 2 powi e)"
  have "\<bar>m\<bar> \<le> 2 ^ 53" unfolding m_def by (rule round_significand [OF False e_def])
  have fx: "r = of_int m * 2 powi e" "\<not> (e > 971 \<or> (e = 971 \<and> \<bar>m\<bar> \<ge> 9007199254740992))"
    using r False unfolding fl_def Let_def e_def [symmetric] m_def [symmetric] by (auto split: if_splits)
  have e: "- 1074 \<le> e" "e \<le> 971" using fx(2) by (auto simp: e_def)
  show ?thesis
  proof (cases "\<bar>m\<bar> < 2 ^ 53")
    case True
    then show ?thesis unfolding fx(1) by (rule fl_multiple [OF _ e])
  next
    case False
    then have "\<bar>m\<bar> = 2 ^ 53" using \<open>\<bar>m\<bar> \<le> 2 ^ 53\<close> by simp
    then have "m = 2 ^ 53 \<or> m = - (2 ^ 53)" by linarith
    then have half: "m = 2 * (m div 2)" "\<bar>m div 2\<bar> < 2 ^ 53" by (elim disjE; simp)+
    have "(2::rat) powi (e + 1) = 2 powi e * 2" by (simp add: power_int_add)
    moreover have "(of_int m :: rat) = 2 * of_int (m div 2)" using half(1) by (metis of_int_mult of_int_numeral)
    ultimately have "r = of_int (m div 2) * 2 powi (e + 1)" by (simp add: fx(1))
    moreover have "e + 1 \<le> 971" using fx(2) False by auto
    ultimately show ?thesis using fl_multiple [OF half(2), of "e + 1"] e(1) by simp
  qed
qed (simp add: fl_def)

text \<open>Rounding a positive number in the normal range moves it by at most one part in \<open>2 ^ 53\<close>.\<close>

lemma round_even_error: "\<bar>of_int (round_even x) - x\<bar> \<le> 1 / 2"
proof -
  have "of_int \<lfloor>x\<rfloor> \<le> x" "x < of_int \<lfloor>x\<rfloor> + 1" by linarith+
  then show ?thesis by (auto simp: round_even_def Let_def)
qed

lemma fl_relative:
  assumes "fl x = Fin r" and "0 < x" and "- 1022 \<le> flog x"
  shows "\<bar>r - x\<bar> \<le> x / 2 ^ 53"
proof -
  define e where "e = flog x - 52"
  define m where "m = round_even (x / 2 powi e)"
  have e: "max (flog \<bar>x\<bar> - 52) (-1074) = e" using assms(2,3) by (simp add: e_def)
  have r: "r = of_int m * 2 powi e"
    using assms(1,2) unfolding fl_def Let_def e m_def [symmetric] by (auto split: if_splits)
  have "r - x = (of_int m - x / 2 powi e) * 2 powi e" using powi_pos [of e] by (simp add: r left_diff_distrib)
  then have "\<bar>r - x\<bar> = \<bar>of_int m - x / 2 powi e\<bar> * 2 powi e" using powi_pos [of e] by (simp add: abs_mult)
  also have "\<dots> \<le> 1 / 2 * 2 powi e"
    unfolding m_def using round_even_error powi_pos [of e] by (intro mult_right_mono) auto
  also have "1 / 2 * 2 powi e = 2 powi (flog x) / (2 ^ 53 :: rat)"
    by (simp add: e_def power_int_diff)
  also have "\<dots> \<le> x / 2 ^ 53" using flog_lower [OF assms(2)] by (intro divide_right_mono) auto
  finally show ?thesis .
qed

end
