(* ===== verification/GoJson.thy ===== *)
theory GoJson
  imports Float64
begin

text \<open>
  JSON as \<open>encoding/json\<close> reads and writes it.  A \<open>json.RawMessage\<close> is represented by what
  the decoder makes of its bytes: nothing (\<open>RawNil\<close>, length zero), a syntax error
  (\<open>RawBad\<close>) or a value.  Members of an object keep their order and their duplicates, as the
  text has them; a number literal is an integer literal (\<open>JInt\<close>) or one with a fraction or an
  exponent (\<open>JReal\<close>), because only the former can be stored in a Go \<open>int\<close>.
\<close>

datatype json =
    JNull
  | JBool bool
  | JInt int
  | JReal rat
  | JStr string
  | JArr "json list"
  | JObj "(string \<times> json) list"

datatype raw = RawNil | RawBad | RawJson json

definition raw_empty_object :: raw where "raw_empty_object = RawJson (JObj [])"
definition raw_empty_array :: raw where "raw_empty_array = RawJson (JArr [])"

section \<open>Decoding into \<open>any\<close>\<close>

text \<open>
  Numbers become \<open>float64\<close> (an overflow is an error) and objects become maps, where the last
  of several members with the same name wins.  The result is written back with the same
  constructors: \<open>json.Marshal\<close> prints an integral \<open>float64\<close> below \<open>10 ^ 21\<close> without a fraction
  or an exponent.
\<close>

definition json_of_float :: "rat \<Rightarrow> json" where
  "json_of_float r = (if of_int \<lfloor>r\<rfloor> = r \<and> \<bar>r\<bar> < 10 ^ 21 then JInt \<lfloor>r\<rfloor> else JReal r)"

definition decode_number :: "rat \<Rightarrow> json option" where
  "decode_number v = (case fl v of Fin r \<Rightarrow> Some (json_of_float r) | _ \<Rightarrow> None)"

fun decode_any :: "json \<Rightarrow> json option"
  and decode_elems :: "json list \<Rightarrow> json list option"
  and decode_members :: "(string \<times> json) list \<Rightarrow> (string \<times> json) list option" where
  "decode_any JNull = Some JNull"
| "decode_any (JBool b) = Some (JBool b)"
| "decode_any (JInt n) = decode_number (of_int n)"
| "decode_any (JReal r) = decode_number r"
| "decode_any (JStr s) = Some (JStr s)"
| "decode_any (JArr vs) = map_option JArr (decode_elems vs)"
| "decode_any (JObj kvs) = map_option (\<lambda>m. JObj (map_from m)) (decode_members kvs)"
| "decode_elems [] = Some []"
| "decode_elems (v # vs) =
     (case decode_any v of None \<Rightarrow> None | Some w \<Rightarrow> map_option (\<lambda>ws. w # ws) (decode_elems vs))"
| "decode_members [] = Some []"
| "decode_members ((k, v) # kvs) =
     (case decode_any v of None \<Rightarrow> None | Some w \<Rightarrow> map_option (\<lambda>m. (k, w) # m) (decode_members kvs))"

text \<open>\<open>json.Unmarshal(raw, &m)\<close> for \<open>var m map[string]any\<close>; \<open>null\<close> leaves the nil map.\<close>

definition unmarshal_map :: "raw \<Rightarrow> json gomap res" where
  "unmarshal_map raw =
     (case raw of
        RawJson JNull \<Rightarrow> Inr []
      | RawJson (JObj kvs) \<Rightarrow>
          (case decode_members kvs of None \<Rightarrow> Inl ErrDecode | Some m \<Rightarrow> Inr (map_from m))
      | _ \<Rightarrow> Inl ErrDecode)"

text \<open>\<open>json.Unmarshal(raw, &m)\<close> for \<open>var m map[string]string\<close>; a \<open>null\<close> member is \<open>""\<close>.\<close>

fun string_members :: "(string \<times> json) list \<Rightarrow> (string \<times> string) list option" where
  "string_members [] = Some []"
| "string_members ((k, v) # kvs) =
     (case v of
        JStr s \<Rightarrow> map_option (\<lambda>m. (k, s) # m) (string_members kvs)
      | JNull \<Rightarrow> map_option (\<lambda>m. (k, []) # m) (string_members kvs)
      | _ \<Rightarrow> None)"

definition unmarshal_string_map :: "raw \<Rightarrow> string gomap res" where
  "unmarshal_string_map raw =
     (case raw of
        RawJson JNull \<Rightarrow> Inr []
      | RawJson (JObj kvs) \<Rightarrow>
          (case string_members kvs of None \<Rightarrow> Inl ErrDecode | Some m \<Rightarrow> Inr (map_from m))
      | _ \<Rightarrow> Inl ErrDecode)"

definition marshal_string_map :: "string gomap \<Rightarrow> raw" where
  "marshal_string_map m = RawJson (JObj (map (\<lambda>(k, s). (k, JStr s)) m))"

section \<open>Decoding into a struct\<close>

text \<open>
  A member is assigned to the field whose name it equals up to case folding (the long s and
  the Kelvin sign fold to ASCII letters).  \<open>null\<close> leaves a field of a basic type alone; a
  member of the wrong type is skipped and reported as an error at the end, after the other
  members have been stored.
\<close>

datatype 'a slot = Assign 'a | Keep | Mismatch

fun fold_name :: "string \<Rightarrow> string" where
  "fold_name [] = []"
| "fold_name (c # cs) =
     (if is_prefix (map char_of [197, 191 :: nat]) (c # cs) then CHR ''s'' # fold_name (drop 1 cs)
      else if is_prefix (map char_of [226, 132, 170 :: nat]) (c # cs) then CHR ''k'' # fold_name (drop 2 cs)
      else lower_byte c # fold_name cs)"

definition struct_members :: "raw \<Rightarrow> (string \<times> json) list" where
  "struct_members raw = (case raw of RawJson (JObj kvs) \<Rightarrow> kvs | _ \<Rightarrow> [])"

definition struct_shape :: "raw \<Rightarrow> bool" where
  "struct_shape raw = (case raw of RawJson (JObj _) \<Rightarrow> True | RawJson JNull \<Rightarrow> True | _ \<Rightarrow> False)"

definition field_slots :: "(json \<Rightarrow> 'a slot) \<Rightarrow> string \<Rightarrow> raw \<Rightarrow> 'a slot list" where
  "field_slots dec name raw =
     map (\<lambda>(k, v). dec v)
       (filter (\<lambda>(k, v). fold_name k = fold_name name) (struct_members raw))"

definition field_ok :: "(json \<Rightarrow> 'a slot) \<Rightarrow> string \<Rightarrow> raw \<Rightarrow> bool" where
  "field_ok dec name raw \<longleftrightarrow> list_all (\<lambda>s. case s of Mismatch \<Rightarrow> False | _ \<Rightarrow> True) (field_slots dec name raw)"

definition field_val :: "(json \<Rightarrow> 'a slot) \<Rightarrow> 'a \<Rightarrow> string \<Rightarrow> raw \<Rightarrow> 'a" where
  "field_val dec zero name raw =
     fold (\<lambda>s acc. case s of Assign v \<Rightarrow> v | _ \<Rightarrow> acc) (field_slots dec name raw) zero"

lemmas struct_defs = field_slots_def struct_members_def struct_shape_def field_ok_def field_val_def

fun dec_string :: "json \<Rightarrow> string slot" where
  "dec_string (JStr s) = Assign s"
| "dec_string JNull = Keep"
| "dec_string _ = Mismatch"

fun dec_bool :: "json \<Rightarrow> bool slot" where
  "dec_bool (JBool b) = Assign b"
| "dec_bool JNull = Keep"
| "dec_bool _ = Mismatch"

fun dec_int :: "json \<Rightarrow> int slot" where
  "dec_int (JInt n) = (if min_int64 \<le> n \<and> n \<le> max_int64 then Assign n else Mismatch)"
| "dec_int JNull = Keep"
| "dec_int _ = Mismatch"

definition dec_f64 :: "rat \<Rightarrow> f64 slot" where
  "dec_f64 v = (case fl v of Fin r \<Rightarrow> Assign (Fin r) | _ \<Rightarrow> Mismatch)"

fun dec_float :: "json \<Rightarrow> f64 slot" where
  "dec_float (JInt n) = dec_f64 (of_int n)"
| "dec_float (JReal r) = dec_f64 r"
| "dec_float JNull = Keep"
| "dec_float _ = Mismatch"

text \<open>A pointer field: \<open>null\<close> stores nil.\<close>

definition dec_ptr :: "(json \<Rightarrow> 'a slot) \<Rightarrow> json \<Rightarrow> 'a option slot" where
  "dec_ptr dec v =
     (case v of
        JNull \<Rightarrow> Assign None
      | _ \<Rightarrow> (case dec v of Assign x \<Rightarrow> Assign (Some x) | Keep \<Rightarrow> Keep | Mismatch \<Rightarrow> Mismatch))"

definition dec_any_map :: "json \<Rightarrow> json gomap slot" where
  "dec_any_map v = (case unmarshal_map (RawJson v) of Inl _ \<Rightarrow> Mismatch | Inr m \<Rightarrow> Assign m)"

definition dec_string_map :: "json \<Rightarrow> string gomap slot" where
  "dec_string_map v = (case unmarshal_string_map (RawJson v) of Inl _ \<Rightarrow> Mismatch | Inr m \<Rightarrow> Assign m)"

text \<open>
  A map field: a second member of the same name adds its entries to the map of the first,
  and \<open>null\<close> stores the nil map.
\<close>

definition field_members :: "string \<Rightarrow> raw \<Rightarrow> json list" where
  "field_members name raw = map snd (filter (\<lambda>(k, v). fold_name k = fold_name name) (struct_members raw))"

definition field_map :: "(json \<Rightarrow> 'v gomap slot) \<Rightarrow> string \<Rightarrow> raw \<Rightarrow> 'v gomap" where
  "field_map dec name raw =
     fold (\<lambda>v acc. if v = JNull then []
        else case dec v of Assign m \<Rightarrow> fold (\<lambda>(k, x). map_put k x) m acc | _ \<Rightarrow> acc)
       (field_members name raw) []"

fun string_elems :: "json list \<Rightarrow> string list option" where
  "string_elems [] = Some []"
| "string_elems (v # vs) =
     (case v of
        JStr s \<Rightarrow> map_option (\<lambda>ws. s # ws) (string_elems vs)
      | JNull \<Rightarrow> map_option (\<lambda>ws. [] # ws) (string_elems vs)
      | _ \<Rightarrow> None)"

fun dec_strings :: "json \<Rightarrow> string list slot" where
  "dec_strings (JArr vs) = (case string_elems vs of None \<Rightarrow> Mismatch | Some ws \<Rightarrow> Assign ws)"
| "dec_strings JNull = Assign []"
| "dec_strings _ = Mismatch"

section \<open>Values at a path\<close>

fun json_at :: "json \<Rightarrow> string list \<Rightarrow> json option" where
  "json_at v [] = Some v"
| "json_at (JObj m) (k # ks) = (case map_of m k of None \<Rightarrow> None | Some v \<Rightarrow> json_at v ks)"
| "json_at _ (_ # _) = None"

text \<open>A decoded value: every object in it is a map.\<close>

fun canonical :: "json \<Rightarrow> bool"
  and canonical_elems :: "json list \<Rightarrow> bool"
  and canonical_members :: "(string \<times> json) list \<Rightarrow> bool" where
  "canonical (JArr vs) = canonical_elems vs"
| "canonical (JObj m) = (is_gomap m \<and> canonical_members m)"
| "canonical _ = True"
| "canonical_elems [] = True"
| "canonical_elems (v # vs) = (canonical v \<and> canonical_elems vs)"
| "canonical_members [] = True"
| "canonical_members ((k, v) # m) = (canonical v \<and> canonical_members m)"

lemma canonical_members_iff: "canonical_members m \<longleftrightarrow> (\<forall>e \<in> set m. canonical (snd e))"
  by (induction m) auto

lemma canonical_elems_iff: "canonical_elems vs \<longleftrightarrow> (\<forall>v \<in> set vs. canonical v)"
  by (induction vs) auto

lemma set_map_put_subset: "set (map_put k v m) \<subseteq> insert (k, v) (set m)"
  by (induction m) auto

lemma set_map_from: "set (map_from kvs) \<subseteq> set kvs"
proof -
  have "set (fold (\<lambda>(k, v). map_put k v) kvs m) \<subseteq> set kvs \<union> set m" for m
  proof (induction kvs arbitrary: m)
    case (Cons e kvs)
    show ?case
      using Cons [of "map_put (fst e) (snd e) m"] set_map_put_subset [of "fst e" "snd e" m]
      by (cases e) auto
  qed simp
  from this [of "[]"] show ?thesis by (simp add: map_from_def)
qed

lemma canonical_number: "decode_number v = Some w \<Longrightarrow> canonical w"
  by (auto simp: decode_number_def json_of_float_def split: f64.splits)

lemma decode_canonical:
  "decode_any v = Some w \<Longrightarrow> canonical w"
  "decode_elems vs = Some ws \<Longrightarrow> canonical_elems ws"
  "decode_members kvs = Some m \<Longrightarrow> canonical_members m"
proof (induction v and vs and kvs arbitrary: w and ws and m
    rule: decode_any_decode_elems_decode_members.induct)
  case (7 kvs)
  then obtain m where "decode_members kvs = Some m" and w: "w = JObj (map_from m)" by auto
  with 7 have "canonical_members m" by blast
  then have "canonical_members (map_from m)"
    using set_map_from [of m] by (auto simp: canonical_members_iff)
  with w show ?case by simp
qed (auto simp: canonical_number split: option.splits)

lemma unmarshal_map_canonical:
  "unmarshal_map raw = Inr m \<Longrightarrow> is_gomap m \<and> canonical_members m"
  using set_map_from
  by (fastforce simp: unmarshal_map_def canonical_members_iff
      dest: decode_canonical(3) split: raw.splits json.splits option.splits)

lemma member_size: "(k, JObj n) \<in> set m \<Longrightarrow> size (JObj n) < size (JObj m)"
  by (induction m) auto

text \<open>Writing a string map and reading it back.\<close>

lemma string_members_written: "string_members (map (\<lambda>(k, s). (k, JStr s)) m) = Some m"
  by (induction m) auto

lemma map_from_sorted: "is_gomap m \<Longrightarrow> map_from m = m"
proof -
  have put_last: "is_gomap (acc @ [(k, v)]) \<Longrightarrow> map_put k v acc = acc @ [(k, v)]" for k :: 'a and v :: 'b and acc
    by (induction acc) (auto simp: is_gomap_Cons)
  have prefix: "is_gomap (xs @ ys) \<Longrightarrow> is_gomap xs" for xs ys :: "('a \<times> 'b) list"
    by (simp add: is_gomap_def sorted_wrt_append)
  have "is_gomap (acc @ m) \<Longrightarrow> fold (\<lambda>(k, v). map_put k v) m acc = acc @ m" for acc
  proof (induction m arbitrary: acc)
    case (Cons e m)
    then have "is_gomap (acc @ [e])" using prefix [of "acc @ [e]" m] by simp
    then have "map_put (fst e) (snd e) acc = acc @ [e]" using put_last [of acc "fst e" "snd e"] by simp
    with Cons show ?case by (cases e) simp
  qed simp
  from this [of "[]"] show "is_gomap m \<Longrightarrow> map_from m = m" by (simp add: map_from_def)
qed

lemma string_map_roundtrip:
  "is_gomap m \<Longrightarrow> unmarshal_string_map (marshal_string_map m) = Inr m"
  by (simp add: unmarshal_string_map_def marshal_string_map_def string_members_written map_from_sorted)

text \<open>Evaluation of field names on the bits of their characters.\<close>

lemma lower_byte_code [code]:
  "lower_byte (Char b0 b1 b2 b3 b4 b5 b6 b7) =
     (if b6 \<and> \<not> b7 \<and> \<not> b5 \<and> (b0 \<or> b1 \<or> b2 \<or> b3 \<or> b4) \<and> \<not> (b4 \<and> b3 \<and> (b2 \<or> (b1 \<and> b0)))
      then Char b0 b1 b2 b3 b4 True b6 b7 else Char b0 b1 b2 b3 b4 b5 b6 b7)"
  by (cases b0; cases b1; cases b2; cases b3; cases b4; cases b5; cases b6; cases b7)
    (simp_all add: lower_byte_def less_eq_char_def char_of_def bit_iff_odd)

lemma fold_name_code [code]:
  "fold_name [] = []"
  "fold_name (c # cs) =
     (if c = CHR 0xC5 \<and> take 1 cs = [CHR 0xBF] then CHR ''s'' # fold_name (drop 1 cs)
      else if c = CHR 0xE2 \<and> take 2 cs = [CHR 0x84, CHR 0xAA] then CHR ''k'' # fold_name (drop 2 cs)
      else lower_byte c # fold_name cs)"
proof -
  have "map char_of [197, 191 :: nat] = [CHR 0xC5, CHR 0xBF]"
    "map char_of [226, 132, 170 :: nat] = [CHR 0xE2, CHR 0x84, CHR 0xAA]"
    by (simp_all add: char_of_def bit_iff_odd)
  then show "fold_name (c # cs) =
     (if c = CHR 0xC5 \<and> take 1 cs = [CHR 0xBF] then CHR ''s'' # fold_name (drop 1 cs)
      else if c = CHR 0xE2 \<and> take 2 cs = [CHR 0x84, CHR 0xAA] then CHR ''k'' # fold_name (drop 2 cs)
      else lower_byte c # fold_name cs)"
    by (cases cs; cases "tl cs") (auto simp: is_prefix_def numeral_2_eq_2)
qed simp

end
