(* ===== verification/StoragePort.thy ===== *)
theory StoragePort
  imports GoJson
begin

text \<open>
  The data of the storage port (\<open>internal/storage/storage.go\<close>): the rows the two backends
  store and the values handlers pass to them.  Field names carry a prefix for their struct.
\<close>

type_synonym ID = string

record World =
  w_ID :: ID
  w_Slug :: string
  w_Title :: string
  w_SystemID :: string
  w_SystemVersion :: string
  w_DefaultLocale :: string
  w_ActiveScene :: ID
  w_Settings :: raw
  w_EventSeq :: int
  w_CreatedAt :: time
  w_ArchivedAt :: "time option"

record User =
  u_ID :: ID
  u_Username :: string
  u_Email :: string
  u_PasswordHash :: string
  u_Locale :: string
  u_IsAdmin :: bool
  u_CreatedAt :: time
  u_DisabledAt :: "time option"

definition Disabled :: "User \<Rightarrow> bool" where
  "Disabled u \<longleftrightarrow> u_DisabledAt u \<noteq> None"

record UserSession =
  s_TokenHash :: string
  s_UserID :: ID
  s_CreatedAt :: time
  s_ExpiresAt :: time
  s_LastSeenAt :: time
  s_UserAgent :: string

record Member =
  m_WorldID :: ID
  m_UserID :: ID
  m_Role :: string
  m_JoinedAt :: time

record Invite =
  i_ID :: ID
  i_TokenHash :: string
  i_WorldID :: ID
  i_Role :: string
  i_CreatedBy :: ID
  i_CreatedAt :: time
  i_ExpiresAt :: time
  i_MaxUses :: int
  i_Uses :: int
  i_RevokedAt :: "time option"

definition Usable :: "Invite \<Rightarrow> time \<Rightarrow> bool" where
  "Usable i now =
     (if i_RevokedAt i \<noteq> None \<or> now > i_ExpiresAt i then False
      else i_MaxUses i = 0 \<or> i_Uses i < i_MaxUses i)"

record Document =
  d_WorldID :: ID
  d_ID :: ID
  d_Kind :: string
  d_Subtype :: string
  d_ParentID :: ID
  d_FolderID :: ID
  d_Name :: string
  d_Sort :: int
  d_Img :: string
  d_Data :: raw
  d_Flags :: raw
  d_Ownership :: raw
  d_SourcePack :: string
  d_SchemaVersion :: string
  d_CreatedAt :: time
  d_UpdatedAt :: time
  d_UpdatedSeq :: int
  d_DeletedAt :: "time option"

text \<open>The zero value of the struct, from which handlers build documents field by field.\<close>

definition zero_document :: Document where
  "zero_document = \<lparr>d_WorldID = [], d_ID = [], d_Kind = [], d_Subtype = [], d_ParentID = [],
     d_FolderID = [], d_Name = [], d_Sort = 0, d_Img = [], d_Data = RawNil, d_Flags = RawNil,
     d_Ownership = RawNil, d_SourcePack = [], d_SchemaVersion = [], d_CreatedAt = 0,
     d_UpdatedAt = 0, d_UpdatedSeq = 0, d_DeletedAt = None\<rparr>"

record Asset =
  a_ID :: ID
  a_WorldID :: ID
  a_SHA256 :: string
  a_Mime :: string
  a_Bytes :: int
  a_Width :: int
  a_Height :: int
  a_DurationMS :: int
  a_Variants :: raw
  a_UploadedBy :: ID
  a_CreatedAt :: time

record Event =
  e_WorldID :: ID
  e_Seq :: int
  e_Timestamp :: time
  e_ActorUserID :: ID
  e_Kind :: string
  e_TargetKind :: string
  e_TargetID :: ID
  e_SceneID :: ID
  e_Payload :: raw
  e_Audience :: raw
  e_Undo :: raw

definition zero_event :: Event where
  "zero_event = \<lparr>e_WorldID = [], e_Seq = 0, e_Timestamp = 0, e_ActorUserID = [], e_Kind = [],
     e_TargetKind = [], e_TargetID = [], e_SceneID = [], e_Payload = RawNil,
     e_Audience = RawNil, e_Undo = RawNil\<rparr>"

datatype DeleteMode = DeleteSoft | DeleteHard

record DocumentFilter =
  f_Kind :: string
  f_Subtype :: string
  f_ParentID :: "ID option"
  f_FolderID :: "ID option"
  f_IncludeDeleted :: bool
  f_UpdatedSince :: int
  f_Limit :: int

definition zero_filter :: DocumentFilter where
  "zero_filter = \<lparr>f_Kind = [], f_Subtype = [], f_ParentID = None, f_FolderID = None,
     f_IncludeDeleted = False, f_UpdatedSince = 0, f_Limit = 0\<rparr>"

record Patch =
  p_Name :: "string option"
  p_Sort :: "int option"
  p_Img :: "string option"
  p_FolderID :: "ID option"
  p_Set :: "json gomap"
  p_Unset :: "string list"
  p_Ownership :: "raw option"
  p_Seq :: int

definition zero_patch :: Patch where
  "zero_patch = \<lparr>p_Name = None, p_Sort = None, p_Img = None, p_FolderID = None, p_Set = [],
     p_Unset = [], p_Ownership = None, p_Seq = 0\<rparr>"

definition IsEmpty :: "Patch \<Rightarrow> bool" where
  "IsEmpty p \<longleftrightarrow> p_Name p = None \<and> p_Sort p = None \<and> p_Img p = None \<and> p_FolderID p = None \<and>
     p_Set p = [] \<and> p_Unset p = [] \<and> p_Ownership p = None"

end
