(* ===== verification/Schema.thy ===== *)
theory Schema
  imports StoragePort
begin

text \<open>
  The schema of the two backends (\<open>Migrations\<close> of \<open>storage/sqlite/sqlite.go\<close> and
  \<open>storage/postgres/postgres.go\<close>) and the runner that applies it (\<open>Store.Migrate\<close> of
  \<open>storage/sqlstore/sqlstore.go\<close>).  A statement is a value with the names, types and constraints
  of its text; executing one changes the catalogue of tables and indexes or fails.  The lemmas show
  which keys and references the migrated catalogue enforces, that the two backends agree on them,
  and that an interrupted migration is resumed where it stopped.
\<close>

section \<open>Statements\<close>

datatype sql_type = TEXT | INTEGER | BLOB | BIGINT | JSONB | TIMESTAMPTZ | BOOLEAN

datatype sql_default = DefaultText string | DefaultInt int | DefaultBool bool

record column =
  co_name :: string
  co_type :: sql_type
  co_required :: bool
  co_primary :: bool
  co_unique :: bool
  co_default :: "sql_default option"
  co_references :: "(string \<times> string) option"

definition nullable :: "string \<Rightarrow> sql_type \<Rightarrow> column" where
  "nullable name ty = \<lparr>co_name = name, co_type = ty, co_required = False, co_primary = False, co_unique = False,
     co_default = None, co_references = None\<rparr>"

definition column_of :: "string \<Rightarrow> sql_type \<Rightarrow> column" where
  "column_of name ty = (nullable name ty)\<lparr>co_required := True\<rparr>"

definition with_default :: "string \<Rightarrow> sql_type \<Rightarrow> sql_default \<Rightarrow> column" where
  "with_default name ty v = (column_of name ty)\<lparr>co_default := Some v\<rparr>"

definition primary_key :: "string \<Rightarrow> column" where
  "primary_key name = (nullable name TEXT)\<lparr>co_primary := True\<rparr>"

definition unique_text :: "string \<Rightarrow> column" where
  "unique_text name = (column_of name TEXT)\<lparr>co_unique := True\<rparr>"

definition optional_unique :: "string \<Rightarrow> column" where
  "optional_unique name = (nullable name TEXT)\<lparr>co_unique := True\<rparr>"

text \<open>A reference with \<open>ON DELETE CASCADE\<close>.\<close>

definition belongs_to :: "string \<Rightarrow> string \<Rightarrow> column" where
  "belongs_to name table = (column_of name TEXT)\<lparr>co_references := Some (table, ''id'')\<rparr>"

lemmas column_defs = nullable_def column_of_def with_default_def primary_key_def unique_text_def optional_unique_def belongs_to_def

lemma column_names:
  "co_name (nullable n t) = n" "co_name (column_of n t) = n" "co_name (with_default n t v) = n"
  "co_name (primary_key n) = n" "co_name (unique_text n) = n" "co_name (optional_unique n) = n" "co_name (belongs_to n table) = n"
  by (simp_all add: column_defs)

lemma column_references:
  "co_references (nullable n t) = None" "co_references (column_of n t) = None" "co_references (with_default n t v) = None"
  "co_references (primary_key n) = None" "co_references (unique_text n) = None" "co_references (optional_unique n) = None"
  "co_references (belongs_to n table) = Some (table, ''id'')"
  by (simp_all add: column_defs)

lemma column_default: "co_default (with_default n t v) = Some v"
  by (simp add: column_defs)

lemma column_keys:
  "co_primary (nullable n t) = False" "co_primary (column_of n t) = False" "co_primary (with_default n t v) = False"
  "co_primary (primary_key n) = True" "co_primary (unique_text n) = False" "co_primary (optional_unique n) = False"
  "co_primary (belongs_to n table) = False"
  "co_unique (nullable n t) = False" "co_unique (column_of n t) = False" "co_unique (with_default n t v) = False"
  "co_unique (primary_key n) = False" "co_unique (unique_text n) = True" "co_unique (optional_unique n) = True"
  "co_unique (belongs_to n table) = False"
  by (simp_all add: column_defs)

datatype ddl =
    CreateTable string "column list" "string list"
  | CreateIndex string string "string list"
  | CreateUniqueIndex string string "string list"
  | CreatePartialIndex string string "string list" string
  | CreateGinIndex string string string
  | AddColumn string column

section \<open>The migrations of SQLite\<close>

definition sqlite_worlds :: "column list" where
  "sqlite_worlds =
    [primary_key ''id'', unique_text ''slug'', column_of ''title'' TEXT, column_of ''system_id'' TEXT,
     column_of ''system_version'' TEXT, with_default ''default_locale'' TEXT (DefaultText ''en''),
     column_of ''settings'' BLOB, with_default ''event_seq'' INTEGER (DefaultInt 0),
     column_of ''created_at'' TEXT, nullable ''archived_at'' TEXT]"

definition sqlite_documents :: "column list" where
  "sqlite_documents =
    [belongs_to ''world_id'' ''worlds'', column_of ''id'' TEXT, column_of ''kind'' TEXT,
     with_default ''subtype'' TEXT (DefaultText []), nullable ''parent_id'' TEXT, nullable ''folder_id'' TEXT,
     column_of ''name'' TEXT, with_default ''sort'' INTEGER (DefaultInt 0), with_default ''img'' TEXT (DefaultText []),
     column_of ''data'' BLOB, column_of ''flags'' BLOB, column_of ''ownership'' BLOB,
     with_default ''source_pack'' TEXT (DefaultText []), with_default ''schema_version'' TEXT (DefaultText []),
     column_of ''created_at'' TEXT, column_of ''updated_at'' TEXT, with_default ''updated_seq'' INTEGER (DefaultInt 0),
     nullable ''deleted_at'' TEXT]"

definition sqlite_world_events :: "column list" where
  "sqlite_world_events =
    [belongs_to ''world_id'' ''worlds'', column_of ''seq'' INTEGER, column_of ''ts'' TEXT,
     with_default ''actor_user_id'' TEXT (DefaultText []), column_of ''kind'' TEXT,
     with_default ''target_kind'' TEXT (DefaultText []), with_default ''target_id'' TEXT (DefaultText []),
     with_default ''scene_id'' TEXT (DefaultText []), column_of ''payload'' BLOB, column_of ''audience'' BLOB,
     nullable ''undo'' BLOB]"

definition sqlite_world_members :: "column list" where
  "sqlite_world_members =
    [belongs_to ''world_id'' ''worlds'', column_of ''user_id'' TEXT, column_of ''role'' TEXT, column_of ''joined_at'' TEXT]"

definition sqlite_users :: "column list" where
  "sqlite_users =
    [primary_key ''id'', unique_text ''username'', optional_unique ''email'',
     with_default ''password_hash'' TEXT (DefaultText []), with_default ''locale'' TEXT (DefaultText []),
     with_default ''is_admin'' INTEGER (DefaultInt 0), column_of ''created_at'' TEXT, nullable ''disabled_at'' TEXT]"

definition sqlite_user_sessions :: "column list" where
  "sqlite_user_sessions =
    [primary_key ''token_hash'', belongs_to ''user_id'' ''users'', column_of ''created_at'' TEXT,
     column_of ''expires_at'' TEXT, column_of ''last_seen_at'' TEXT, with_default ''user_agent'' TEXT (DefaultText [])]"

definition sqlite_invites :: "column list" where
  "sqlite_invites =
    [primary_key ''id'', unique_text ''token_hash'', belongs_to ''world_id'' ''worlds'', column_of ''role'' TEXT,
     column_of ''created_by'' TEXT, column_of ''created_at'' TEXT, column_of ''expires_at'' TEXT,
     with_default ''max_uses'' INTEGER (DefaultInt 0), with_default ''uses'' INTEGER (DefaultInt 0),
     nullable ''revoked_at'' TEXT]"

definition sqlite_assets :: "column list" where
  "sqlite_assets =
    [primary_key ''id'', belongs_to ''world_id'' ''worlds'', column_of ''sha256'' TEXT, column_of ''mime'' TEXT,
     column_of ''bytes'' INTEGER, with_default ''width'' INTEGER (DefaultInt 0), with_default ''height'' INTEGER (DefaultInt 0),
     with_default ''duration_ms'' INTEGER (DefaultInt 0), column_of ''variants'' BLOB,
     with_default ''uploaded_by'' TEXT (DefaultText []), column_of ''created_at'' TEXT]"

definition sqlite_Migrations :: "ddl list list" where
  "sqlite_Migrations =
    [[CreateTable ''worlds'' sqlite_worlds [],
      CreateTable ''documents'' sqlite_documents [''world_id'', ''id''],
      CreateIndex ''documents_kind_idx'' ''documents'' [''world_id'', ''kind'', ''deleted_at''],
      CreatePartialIndex ''documents_parent_idx'' ''documents'' [''world_id'', ''parent_id''] ''parent_id'',
      CreatePartialIndex ''documents_folder_idx'' ''documents'' [''world_id'', ''folder_id''] ''folder_id'',
      CreateIndex ''documents_seq_idx'' ''documents'' [''world_id'', ''updated_seq''],
      CreateTable ''world_events'' sqlite_world_events [''world_id'', ''seq''],
      CreateIndex ''world_events_ts_idx'' ''world_events'' [''world_id'', ''ts'']],
     [CreateTable ''world_members'' sqlite_world_members [''world_id'', ''user_id'']],
     [CreateTable ''users'' sqlite_users [],
      CreateTable ''user_sessions'' sqlite_user_sessions [],
      CreateIndex ''user_sessions_user_idx'' ''user_sessions'' [''user_id''],
      CreateIndex ''user_sessions_expiry_idx'' ''user_sessions'' [''expires_at'']],
     [CreateTable ''invites'' sqlite_invites [],
      CreateIndex ''invites_world_idx'' ''invites'' [''world_id'']],
     [AddColumn ''worlds'' (with_default ''active_scene'' TEXT (DefaultText []))],
     [CreateTable ''assets'' sqlite_assets [],
      CreateUniqueIndex ''assets_sha_idx'' ''assets'' [''world_id'', ''sha256''],
      CreateIndex ''assets_world_idx'' ''assets'' [''world_id'', ''created_at'']]]"

section \<open>The migrations of PostgreSQL\<close>

definition postgres_worlds :: "column list" where
  "postgres_worlds =
    [primary_key ''id'', unique_text ''slug'', column_of ''title'' TEXT, column_of ''system_id'' TEXT,
     column_of ''system_version'' TEXT, with_default ''default_locale'' TEXT (DefaultText ''en''),
     column_of ''settings'' JSONB, with_default ''event_seq'' BIGINT (DefaultInt 0),
     column_of ''created_at'' TIMESTAMPTZ, nullable ''archived_at'' TIMESTAMPTZ]"

definition postgres_documents :: "column list" where
  "postgres_documents =
    [belongs_to ''world_id'' ''worlds'', column_of ''id'' TEXT, column_of ''kind'' TEXT,
     with_default ''subtype'' TEXT (DefaultText []), nullable ''parent_id'' TEXT, nullable ''folder_id'' TEXT,
     column_of ''name'' TEXT, with_default ''sort'' INTEGER (DefaultInt 0), with_default ''img'' TEXT (DefaultText []),
     column_of ''data'' JSONB, column_of ''flags'' JSONB, column_of ''ownership'' JSONB,
     with_default ''source_pack'' TEXT (DefaultText []), with_default ''schema_version'' TEXT (DefaultText []),
     column_of ''created_at'' TIMESTAMPTZ, column_of ''updated_at'' TIMESTAMPTZ, with_default ''updated_seq'' BIGINT (DefaultInt 0),
     nullable ''deleted_at'' TIMESTAMPTZ]"

definition postgres_world_events :: "column list" where
  "postgres_world_events =
    [belongs_to ''world_id'' ''worlds'', column_of ''seq'' BIGINT, column_of ''ts'' TIMESTAMPTZ,
     with_default ''actor_user_id'' TEXT (DefaultText []), column_of ''kind'' TEXT,
     with_default ''target_kind'' TEXT (DefaultText []), with_default ''target_id'' TEXT (DefaultText []),
     with_default ''scene_id'' TEXT (DefaultText []), column_of ''payload'' JSONB, column_of ''audience'' JSONB,
     nullable ''undo'' JSONB]"

definition postgres_world_members :: "column list" where
  "postgres_world_members =
    [belongs_to ''world_id'' ''worlds'', column_of ''user_id'' TEXT, column_of ''role'' TEXT, column_of ''joined_at'' TIMESTAMPTZ]"

definition postgres_users :: "column list" where
  "postgres_users =
    [primary_key ''id'', unique_text ''username'', optional_unique ''email'',
     with_default ''password_hash'' TEXT (DefaultText []), with_default ''locale'' TEXT (DefaultText []),
     with_default ''is_admin'' BOOLEAN (DefaultBool False), column_of ''created_at'' TIMESTAMPTZ, nullable ''disabled_at'' TIMESTAMPTZ]"

definition postgres_user_sessions :: "column list" where
  "postgres_user_sessions =
    [primary_key ''token_hash'', belongs_to ''user_id'' ''users'', column_of ''created_at'' TIMESTAMPTZ,
     column_of ''expires_at'' TIMESTAMPTZ, column_of ''last_seen_at'' TIMESTAMPTZ, with_default ''user_agent'' TEXT (DefaultText [])]"

definition postgres_invites :: "column list" where
  "postgres_invites =
    [primary_key ''id'', unique_text ''token_hash'', belongs_to ''world_id'' ''worlds'', column_of ''role'' TEXT,
     column_of ''created_by'' TEXT, column_of ''created_at'' TIMESTAMPTZ, column_of ''expires_at'' TIMESTAMPTZ,
     with_default ''max_uses'' INTEGER (DefaultInt 0), with_default ''uses'' INTEGER (DefaultInt 0),
     nullable ''revoked_at'' TIMESTAMPTZ]"

definition postgres_assets :: "column list" where
  "postgres_assets =
    [primary_key ''id'', belongs_to ''world_id'' ''worlds'', column_of ''sha256'' TEXT, column_of ''mime'' TEXT,
     column_of ''bytes'' BIGINT, with_default ''width'' INTEGER (DefaultInt 0), with_default ''height'' INTEGER (DefaultInt 0),
     with_default ''duration_ms'' INTEGER (DefaultInt 0), column_of ''variants'' JSONB,
     with_default ''uploaded_by'' TEXT (DefaultText []), column_of ''created_at'' TIMESTAMPTZ]"

definition postgres_Migrations :: "ddl list list" where
  "postgres_Migrations =
    [[CreateTable ''worlds'' postgres_worlds [],
      CreateTable ''documents'' postgres_documents [''world_id'', ''id''],
      CreateIndex ''documents_kind_idx'' ''documents'' [''world_id'', ''kind'', ''deleted_at''],
      CreatePartialIndex ''documents_parent_idx'' ''documents'' [''world_id'', ''parent_id''] ''parent_id'',
      CreatePartialIndex ''documents_folder_idx'' ''documents'' [''world_id'', ''folder_id''] ''folder_id'',
      CreateIndex ''documents_seq_idx'' ''documents'' [''world_id'', ''updated_seq''],
      CreateGinIndex ''documents_data_gin'' ''documents'' ''data'',
      CreateTable ''world_events'' postgres_world_events [''world_id'', ''seq''],
      CreateIndex ''world_events_ts_idx'' ''world_events'' [''world_id'', ''ts'']],
     [CreateTable ''world_members'' postgres_world_members [''world_id'', ''user_id'']],
     [CreateTable ''users'' postgres_users [],
      CreateTable ''user_sessions'' postgres_user_sessions [],
      CreateIndex ''user_sessions_user_idx'' ''user_sessions'' [''user_id''],
      CreateIndex ''user_sessions_expiry_idx'' ''user_sessions'' [''expires_at'']],
     [CreateTable ''invites'' postgres_invites [],
      CreateIndex ''invites_world_idx'' ''invites'' [''world_id'']],
     [AddColumn ''worlds'' (with_default ''active_scene'' TEXT (DefaultText []))],
     [CreateTable ''assets'' postgres_assets [],
      CreateUniqueIndex ''assets_sha_idx'' ''assets'' [''world_id'', ''sha256''],
      CreateIndex ''assets_world_idx'' ''assets'' [''world_id'', ''created_at'']]]"

section \<open>Executing statements\<close>

record catalogue =
  ct_tables :: "(string \<times> column list \<times> string list) list"
  ct_indexes :: "ddl list"

definition empty_catalogue :: catalogue where
  "empty_catalogue = \<lparr>ct_tables = [], ct_indexes = []\<rparr>"

fun index_name :: "ddl \<Rightarrow> string option" where
  "index_name (CreateIndex name _ _) = Some name"
| "index_name (CreateUniqueIndex name _ _) = Some name"
| "index_name (CreatePartialIndex name _ _ _) = Some name"
| "index_name (CreateGinIndex name _ _) = Some name"
| "index_name _ = None"

definition has_columns :: "catalogue \<Rightarrow> string \<Rightarrow> string list \<Rightarrow> bool" where
  "has_columns cat table names =
     (case map_of (ct_tables cat) table of
        None \<Rightarrow> False
      | Some (columns, _) \<Rightarrow> list_all (\<lambda>n. n \<in> set (map co_name columns)) names)"

definition add_index :: "ddl \<Rightarrow> string \<Rightarrow> string list \<Rightarrow> catalogue \<Rightarrow> catalogue option" where
  "add_index statement table names cat =
     (if has_columns cat table names \<and> list_all (\<lambda>i. index_name i \<noteq> index_name statement) (ct_indexes cat)
      then Some (cat\<lparr>ct_indexes := ct_indexes cat @ [statement]\<rparr>) else None)"

definition references_in :: "column list \<Rightarrow> (string \<times> string \<times> string) list" where
  "references_in columns = List.map_filter (\<lambda>c. map_option (Pair (co_name c)) (co_references c)) columns"

lemma references_in_simps:
  "references_in [] = []"
  "references_in (c # cs) = (case co_references c of None \<Rightarrow> references_in cs | Some r \<Rightarrow> (co_name c, r) # references_in cs)"
  by (auto simp: references_in_def map_filter_simps split: option.split)

definition references_resolved :: "catalogue \<Rightarrow> column list \<Rightarrow> bool" where
  "references_resolved cat columns = list_all (\<lambda>(_, table, name). has_columns cat table [name]) (references_in columns)"

fun exec_ddl :: "ddl \<Rightarrow> catalogue \<Rightarrow> catalogue option" where
  "exec_ddl (CreateTable name columns keys) cat =
     (if name \<notin> set (map fst (ct_tables cat)) \<and> distinct (map co_name columns) \<and>
         list_all (\<lambda>k. k \<in> set (map co_name columns)) keys \<and> references_resolved cat columns
      then Some (cat\<lparr>ct_tables := ct_tables cat @ [(name, columns, keys)]\<rparr>) else None)"
| "exec_ddl (AddColumn name column) cat =
     (if has_columns cat name [] \<and> \<not> has_columns cat name [co_name column] \<and> references_resolved cat [column] \<and>
         (co_required column \<longrightarrow> co_default column \<noteq> None)
      then Some (cat\<lparr>ct_tables := map (\<lambda>(n, columns, keys).
          (n, if n = name then columns @ [column] else columns, keys)) (ct_tables cat)\<rparr>) else None)"
| "exec_ddl (CreateIndex name table names) cat = add_index (CreateIndex name table names) table names cat"
| "exec_ddl (CreateUniqueIndex name table names) cat = add_index (CreateUniqueIndex name table names) table names cat"
| "exec_ddl (CreatePartialIndex name table names required) cat =
     add_index (CreatePartialIndex name table names required) table (required # names) cat"
| "exec_ddl (CreateGinIndex name table column) cat = add_index (CreateGinIndex name table column) table [column] cat"

section \<open>The migration runner\<close>

text \<open>
  \<open>faults\<close> says which call of a driver fails: the call, the version it is for and the index of
  the statement.  A database is the rows of \<open>schema_migrations\<close>, once that table exists, and its
  catalogue.  A transaction that does not commit leaves no trace.
\<close>

type_synonym faults = "string \<Rightarrow> nat \<Rightarrow> nat \<Rightarrow> bool"

record migrated =
  mg_versions :: "nat list option"
  mg_catalogue :: catalogue

definition fresh_database :: migrated where
  "fresh_database = \<lparr>mg_versions = None, mg_catalogue = empty_catalogue\<rparr>"

fun exec_statements :: "faults \<Rightarrow> nat \<Rightarrow> nat \<Rightarrow> ddl list \<Rightarrow> catalogue \<Rightarrow> catalogue res" where
  "exec_statements fails version i [] cat = Inr cat"
| "exec_statements fails version i (statement # rest) cat =
     (if fails ''exec'' version i then Inl (ErrDriver ''migration'')
      else case exec_ddl statement cat of
          None \<Rightarrow> Inl (ErrDriver ''migration'')
        | Some cat' \<Rightarrow> exec_statements fails version (Suc i) rest cat')"

definition migrate_version :: "faults \<Rightarrow> nat \<Rightarrow> ddl list \<Rightarrow> migrated \<Rightarrow> unit res \<times> migrated" where
  "migrate_version fails version statements db =
     (if fails ''begin'' version 0 then (Inl (ErrDriver ''begin migration''), db)
      else case exec_statements fails version 0 statements (mg_catalogue db) of
          Inl e \<Rightarrow> (Inl e, db)
        | Inr cat \<Rightarrow>
            (let versions = (case mg_versions db of None \<Rightarrow> [] | Some vs \<Rightarrow> vs)
             in if fails ''record'' version 0 \<or> version \<in> set versions then (Inl (ErrDriver ''record migration''), db)
                else if fails ''commit'' version 0 then (Inl (ErrDriver ''commit migration''), db)
                else (Inr (), \<lparr>mg_versions = Some (versions @ [version]), mg_catalogue = cat\<rparr>)))"

fun migrate_from :: "faults \<Rightarrow> nat \<Rightarrow> nat \<Rightarrow> ddl list list \<Rightarrow> migrated \<Rightarrow> unit res \<times> migrated" where
  "migrate_from fails applied index [] db = (Inr (), db)"
| "migrate_from fails applied index (statements # rest) db =
     (let version = index + 1
      in if version \<le> applied then migrate_from fails applied (index + 1) rest db
         else case migrate_version fails version statements db of
             (Inl e, db') \<Rightarrow> (Inl e, db')
           | (Inr _, db') \<Rightarrow> migrate_from fails applied (index + 1) rest db')"

definition Migrate :: "faults \<Rightarrow> ddl list list \<Rightarrow> migrated \<Rightarrow> unit res \<times> migrated" where
  "Migrate fails migrations db =
     (if fails ''migration table'' 0 0 then (Inl (ErrDriver ''migration table''), db)
      else let versions = (case mg_versions db of None \<Rightarrow> [] | Some vs \<Rightarrow> vs);
               db' = db\<lparr>mg_versions := Some versions\<rparr>
           in if fails ''read migration state'' 0 0 then (Inl (ErrDriver ''read migration state''), db')
              else migrate_from fails (foldr max versions 0) 0 migrations db')"

section \<open>Plans of migrations\<close>

fun run_ddl :: "ddl list \<Rightarrow> catalogue \<Rightarrow> catalogue option" where
  "run_ddl [] cat = Some cat"
| "run_ddl (statement # rest) cat = Option.bind (exec_ddl statement cat) (run_ddl rest)"

lemma run_ddl_append: "run_ddl (xs @ ys) cat = Option.bind (run_ddl xs cat) (run_ddl ys)"
  by (induction xs arbitrary: cat) (auto split: Option.bind_splits)

lemma exec_statements_run:
  "exec_statements fails version i statements cat = Inr cat' \<Longrightarrow> run_ddl statements cat = Some cat'"
  by (induction statements arbitrary: i cat) (auto split: if_splits option.splits)

lemma exec_statements_total:
  "run_ddl statements cat = Some cat' \<Longrightarrow> \<forall>i. \<not> fails ''exec'' version i \<Longrightarrow>
     exec_statements fails version i statements cat = Inr cat'"
  by (induction statements arbitrary: i cat) (auto split: Option.bind_splits)

text \<open>The database after the first \<open>k\<close> migrations of a plan.\<close>

definition at_version :: "ddl list list \<Rightarrow> nat \<Rightarrow> migrated \<Rightarrow> bool" where
  "at_version plan k db \<longleftrightarrow> k \<le> length plan \<and> run_ddl (concat (take k plan)) empty_catalogue = Some (mg_catalogue db) \<and>
     mg_versions db = Some [1..<Suc k]"

definition at_most :: "ddl list list \<Rightarrow> nat \<Rightarrow> migrated \<Rightarrow> bool" where
  "at_most plan k db \<longleftrightarrow> at_version plan k db \<or> k = 0 \<and> db = fresh_database"

lemma foldr_max_upt: "foldr max [1..<Suc k] 0 = k"
proof -
  have "foldr max [1..<Suc k] n = max k n" for n by (induction k arbitrary: n) auto
  then show ?thesis by simp
qed

lemma migrate_version_next:
  assumes "migrate_version fails (Suc k) statements db = (r, db')" and "at_version plan k db"
    and "k < length plan" and "plan ! k = statements"
  shows "case r of Inl _ \<Rightarrow> db' = db | Inr _ \<Rightarrow> at_version plan (Suc k) db'"
proof (cases r)
  case (Inr u)
  then obtain cat where "exec_statements fails (Suc k) 0 statements (mg_catalogue db) = Inr cat"
      and db': "db' = \<lparr>mg_versions = Some ([1..<Suc k] @ [Suc k]), mg_catalogue = cat\<rparr>"
    using assms(1,2) by (auto simp: migrate_version_def at_version_def Let_def split: if_splits sum.splits)
  then have "run_ddl statements (mg_catalogue db) = Some cat" by (simp add: exec_statements_run)
  then have "run_ddl (concat (take (Suc k) plan)) empty_catalogue = Some cat"
    using assms(2-4) by (simp add: take_Suc_conv_app_nth run_ddl_append at_version_def)
  then show ?thesis using Inr db' assms(3) by (simp add: at_version_def)
qed (use assms(1) in \<open>auto simp: migrate_version_def Let_def split: if_splits sum.splits\<close>)

lemma migrate_from_versions:
  assumes "migrate_from fails applied index (drop index plan) db = (r, db')"
    and "at_version plan (max applied index) db" and "index \<le> length plan"
  shows "\<exists>k. max applied index \<le> k \<and> at_version plan k db' \<and> (r = Inr () \<longrightarrow> k = length plan)"
  using assms
proof (induction "length plan - index" arbitrary: index db)
  case 0
  then have "index = length plan" by simp
  with 0 show ?case by (auto simp: at_version_def max_def split: if_splits)
next
  case (Suc m)
  then have i: "index < length plan" by simp
  then have dr: "drop index plan = plan ! index # drop (Suc index) plan" by (simp add: Cons_nth_drop_Suc)
  show ?case
  proof (cases "index < applied")
    case True
    then have "migrate_from fails applied (Suc index) (drop (Suc index) plan) db = (r, db')"
      using Suc.prems(1) dr by simp
    moreover have "max applied (Suc index) = max applied index" using True by simp
    ultimately show ?thesis using Suc.hyps(1) [of "Suc index" db] Suc.hyps(2) Suc.prems(2) i by auto
  next
    case False
    then have at: "at_version plan index db" using Suc.prems(2) by (simp add: max_absorb2)
    obtain r1 db1 where one: "migrate_version fails (Suc index) (plan ! index) db = (r1, db1)" by fastforce
    note step = migrate_version_next [OF one at i refl]
    show ?thesis
    proof (cases r1)
      case (Inl e)
      then have "r = Inl e" "db' = db" using Suc.prems(1) dr one False step by auto
      then show ?thesis using at False by (auto simp: max_absorb2)
    next
      case (Inr u)
      then have rest: "migrate_from fails applied (Suc index) (drop (Suc index) plan) db1 = (r, db')"
        using Suc.prems(1) dr one False by simp
      have "at_version plan (max applied (Suc index)) db1" using step Inr False by (simp add: max_absorb2)
      moreover have "m = length plan - Suc index" using Suc.hyps(2) by simp
      ultimately obtain k where "max applied (Suc index) \<le> k" "at_version plan k db'" "r = Inr () \<longrightarrow> k = length plan"
        using Suc.hyps(1) [OF _ rest] i by auto
      then show ?thesis by (intro exI [of _ k]) auto
    qed
  qed
qed

definition no_faults :: faults where
  "no_faults call version i = False"

text \<open>
  A plan whose statements can all be executed one after the other, from the empty catalogue to
  \<open>final\<close>.
\<close>

locale migration_plan =
  fixes plan :: "ddl list list" and final :: catalogue
  assumes complete: "run_ddl (concat plan) empty_catalogue = Some final"
begin

lemma version_succeeds:
  assumes "at_version plan k db" and "k < length plan"
  shows "\<exists>db'. migrate_version no_faults (Suc k) (plan ! k) db = (Inr (), db')"
proof -
  have "concat plan = concat (take k plan) @ plan ! k @ concat (drop (Suc k) plan)"
    using assms(2) by (metis append_take_drop_id concat.simps(2) concat_append Cons_nth_drop_Suc)
  then have "run_ddl (concat (take k plan) @ plan ! k @ concat (drop (Suc k) plan)) empty_catalogue = Some final"
    using complete by simp
  then obtain cat where "run_ddl (plan ! k) (mg_catalogue db) = Some cat"
    using assms(1) by (auto simp: run_ddl_append at_version_def bind_eq_Some_conv)
  then have "exec_statements no_faults (Suc k) 0 (plan ! k) (mg_catalogue db) = Inr cat"
    by (simp add: exec_statements_total no_faults_def)
  then show ?thesis using assms(1) by (auto simp: migrate_version_def no_faults_def at_version_def Let_def)
qed

lemma migrate_from_succeeds:
  assumes "at_version plan (max applied index) db" and "index \<le> length plan"
  shows "fst (migrate_from no_faults applied index (drop index plan) db) = Inr ()"
  using assms
proof (induction "length plan - index" arbitrary: index db)
  case (Suc m)
  then have i: "index < length plan" by simp
  then have dr: "drop index plan = plan ! index # drop (Suc index) plan" by (simp add: Cons_nth_drop_Suc)
  show ?case
  proof (cases "index < applied")
    case True
    then have "max applied (Suc index) = max applied index" by simp
    then show ?thesis using Suc.hyps(1) [of "Suc index" db] Suc.hyps(2) Suc.prems(1) True dr i by simp
  next
    case False
    then have at: "at_version plan index db" using Suc.prems(1) by (simp add: max_absorb2)
    then obtain db1 where one: "migrate_version no_faults (Suc index) (plan ! index) db = (Inr (), db1)"
      using version_succeeds i by blast
    then have "at_version plan (max applied (Suc index)) db1"
      using migrate_version_next [OF one at i refl] False by (simp add: max_absorb2)
    then show ?thesis using Suc.hyps(1) [of "Suc index" db1] Suc.hyps(2) one False dr i by simp
  qed
qed simp

lemma opened:
  assumes "at_most plan k db" and "\<not> fails ''migration table'' 0 0"
  shows "at_version plan k (db\<lparr>mg_versions := Some (case mg_versions db of None \<Rightarrow> [] | Some vs \<Rightarrow> vs)\<rparr>)"
  using assms by (auto simp: at_most_def at_version_def fresh_database_def)

lemma Migrate_versions:
  assumes "Migrate fails plan db = (r, db')" and "at_most plan k db"
  shows "\<exists>k'. k \<le> k' \<and> at_most plan k' db' \<and> (r = Inr () \<longrightarrow> at_version plan (length plan) db')"
proof (cases "fails ''migration table'' 0 0 \<or> fails ''read migration state'' 0 0")
  case True
  then show ?thesis using assms opened [OF assms(2)]
    by (intro exI [of _ k]) (auto simp: Migrate_def Let_def at_most_def split: if_splits)
next
  case False
  let ?db = "db\<lparr>mg_versions := Some (case mg_versions db of None \<Rightarrow> [] | Some vs \<Rightarrow> vs)\<rparr>"
  have at: "at_version plan k ?db" using opened [OF assms(2)] False by blast
  then have "foldr max (case mg_versions db of None \<Rightarrow> [] | Some vs \<Rightarrow> vs) 0 = k"
    using foldr_max_upt [of k] by (simp add: at_version_def del: upt_Suc)
  then have "migrate_from fails k 0 (drop 0 plan) ?db = (r, db')"
    using assms(1) False by (simp add: Migrate_def Let_def)
  from migrate_from_versions [OF this] at show ?thesis by (auto simp: at_most_def)
qed

lemma Migrate_succeeds:
  assumes "at_most plan k db"
  shows "fst (Migrate no_faults plan db) = Inr ()"
proof -
  let ?db = "db\<lparr>mg_versions := Some (case mg_versions db of None \<Rightarrow> [] | Some vs \<Rightarrow> vs)\<rparr>"
  have at: "at_version plan k ?db" using opened [OF assms, of no_faults] by (simp add: no_faults_def)
  then have "foldr max (case mg_versions db of None \<Rightarrow> [] | Some vs \<Rightarrow> vs) 0 = k"
    using foldr_max_upt [of k] by (simp add: at_version_def del: upt_Suc)
  then show ?thesis using migrate_from_succeeds [of k 0 ?db] at by (simp add: Migrate_def Let_def no_faults_def)
qed

lemma runs_reach: "\<exists>k. at_most plan k (fold (\<lambda>fails db. snd (Migrate fails plan db)) runs fresh_database)"
proof (induction runs rule: rev_induct)
  case (snoc fails runs)
  then show ?case using Migrate_versions by (fastforce simp: prod_eq_iff)
qed (auto simp: at_most_def)

lemma migrate_from_done:
  "index + length rest \<le> applied \<Longrightarrow> migrate_from fails applied index rest db = (Inr (), db)"
  by (induction rest arbitrary: index) auto

lemma Migrate_done:
  assumes "at_version plan (length plan) db"
  shows "snd (Migrate fails plan db) = db"
proof -
  have "foldr max [1..<Suc (length plan)] 0 = length plan" by (rule foldr_max_upt)
  then show ?thesis using assms
    by (simp add: Migrate_def at_version_def Let_def migrate_from_done del: upt_Suc)
qed

lemma Migrate_resumes:
  assumes "db = fold (\<lambda>fails db. snd (Migrate fails plan db)) runs fresh_database"
  shows "(\<exists>k \<le> length plan. at_most plan k db) \<and>
    (\<exists>db'. Migrate no_faults plan db = (Inr (), db') \<and> mg_versions db' = Some [1..<Suc (length plan)] \<and>
       mg_catalogue db' = final \<and> (\<forall>fails. snd (Migrate fails plan db') = db')) \<and>
    (\<forall>fails db'. Migrate fails plan db = (Inr (), db') \<longrightarrow> mg_catalogue db' = final)"
proof -
  obtain k where k: "at_most plan k db" using runs_reach assms by blast
  then have le: "k \<le> length plan" by (auto simp: at_most_def at_version_def)
  have full: "at_version plan (length plan) db'" if "Migrate fails plan db = (Inr (), db')" for fails db'
    using Migrate_versions [OF that k] by blast
  have catalogue: "mg_catalogue db' = final" if "at_version plan (length plan) db'" for db'
    using complete that by (simp add: at_version_def)
  obtain db' where run: "Migrate no_faults plan db = (Inr (), db')"
    using Migrate_succeeds [OF k] by (cases "Migrate no_faults plan db") auto
  then have at: "at_version plan (length plan) db'" by (rule full)
  then have "mg_versions db' = Some [1..<Suc (length plan)]" by (simp only: at_version_def)
  moreover have "\<forall>fails. snd (Migrate fails plan db') = db'" using Migrate_done [OF at] by blast
  ultimately show ?thesis using k le run catalogue [OF at] full catalogue by blast
qed

end

section \<open>The two plans\<close>

definition sqlite_schema :: catalogue where
  "sqlite_schema =
     \<lparr>ct_tables =
       [(''worlds'', sqlite_worlds @ [with_default ''active_scene'' TEXT (DefaultText [])], []),
        (''documents'', sqlite_documents, [''world_id'', ''id'']),
        (''world_events'', sqlite_world_events, [''world_id'', ''seq'']),
        (''world_members'', sqlite_world_members, [''world_id'', ''user_id'']),
        (''users'', sqlite_users, []),
        (''user_sessions'', sqlite_user_sessions, []),
        (''invites'', sqlite_invites, []),
        (''assets'', sqlite_assets, [])],
      ct_indexes = filter (\<lambda>s. index_name s \<noteq> None) (concat sqlite_Migrations)\<rparr>"

definition postgres_schema :: catalogue where
  "postgres_schema =
     \<lparr>ct_tables =
       [(''worlds'', postgres_worlds @ [with_default ''active_scene'' TEXT (DefaultText [])], []),
        (''documents'', postgres_documents, [''world_id'', ''id'']),
        (''world_events'', postgres_world_events, [''world_id'', ''seq'']),
        (''world_members'', postgres_world_members, [''world_id'', ''user_id'']),
        (''users'', postgres_users, []),
        (''user_sessions'', postgres_user_sessions, []),
        (''invites'', postgres_invites, []),
        (''assets'', postgres_assets, [])],
      ct_indexes = filter (\<lambda>s. index_name s \<noteq> None) (concat postgres_Migrations)\<rparr>"

lemmas sqlite_tables = sqlite_worlds_def sqlite_documents_def sqlite_world_events_def sqlite_world_members_def sqlite_users_def sqlite_user_sessions_def sqlite_invites_def sqlite_assets_def

lemmas postgres_tables = postgres_worlds_def postgres_documents_def postgres_world_events_def postgres_world_members_def postgres_users_def postgres_user_sessions_def postgres_invites_def postgres_assets_def

lemmas sqlite_names = sqlite_tables [THEN arg_cong [where f = "map co_name"], unfolded list.map column_names]

lemmas sqlite_references = sqlite_tables [THEN arg_cong [where f = references_in], unfolded references_in_simps column_names column_references option.case]

lemmas postgres_names = postgres_tables [THEN arg_cong [where f = "map co_name"], unfolded list.map column_names]

lemmas postgres_references = postgres_tables [THEN arg_cong [where f = references_in], unfolded references_in_simps column_names column_references option.case]

lemmas run_simps = has_columns_def add_index_def references_resolved_def empty_catalogue_def references_in_simps column_names column_references column_default

lemmas sqlite_run = sqlite_Migrations_def run_simps sqlite_names sqlite_references

lemmas postgres_run = postgres_Migrations_def run_simps postgres_names postgres_references

interpretation sqlite_plan: migration_plan sqlite_Migrations sqlite_schema
  by unfold_locales (simp add: sqlite_schema_def sqlite_run del: set_map)

interpretation postgres_plan: migration_plan postgres_Migrations postgres_schema
  by unfold_locales (simp add: postgres_schema_def postgres_run del: set_map)

text \<open>
  The keys a table enforces: its primary key, its unique columns and its unique indexes; and the
  columns that refer to another table, whose rows go with the row they refer to.
\<close>

definition unique_columns :: "column list \<Rightarrow> string list list" where
  "unique_columns columns = map (\<lambda>c. [co_name c]) (filter (\<lambda>c. co_primary c \<or> co_unique c) columns)"

lemma unique_columns_simps:
  "unique_columns [] = []"
  "unique_columns (c # cs) = (if co_primary c \<or> co_unique c then [co_name c] # unique_columns cs else unique_columns cs)"
  by (simp_all add: unique_columns_def)

lemma unique_columns_append: "unique_columns (xs @ ys) = unique_columns xs @ unique_columns ys"
  by (simp add: unique_columns_def)

lemma references_in_append: "references_in (xs @ ys) = references_in xs @ references_in ys"
  by (induction xs) (auto simp: references_in_simps split: option.split)

lemmas column_key_simps = unique_columns_simps column_names column_keys simp_thms if_True if_False

lemmas sqlite_keys = sqlite_tables [THEN arg_cong [where f = unique_columns], unfolded column_key_simps]

lemmas postgres_keys = postgres_tables [THEN arg_cong [where f = unique_columns], unfolded column_key_simps]

definition unique_indexes :: "catalogue \<Rightarrow> string \<Rightarrow> string list list" where
  "unique_indexes cat table = List.map_filter (\<lambda>i. case i of
      CreateUniqueIndex _ t names \<Rightarrow> if t = table then Some names else None
    | _ \<Rightarrow> None) (ct_indexes cat)"

definition keys_of :: "catalogue \<Rightarrow> (string \<times> string list list) list" where
  "keys_of cat = map (\<lambda>(table, columns, primary). (table,
     (if primary = [] then [] else [primary]) @ unique_columns columns @ unique_indexes cat table)) (ct_tables cat)"

definition references_of :: "catalogue \<Rightarrow> (string \<times> (string \<times> string \<times> string) list) list" where
  "references_of cat = map (\<lambda>(table, columns, _). (table, references_in columns)) (ct_tables cat)"

fun type_matches :: "sql_type \<Rightarrow> sql_type \<Rightarrow> bool" where
  "type_matches TEXT t = (t \<in> {TEXT, TIMESTAMPTZ})"
| "type_matches INTEGER t = (t \<in> {INTEGER, BIGINT, BOOLEAN})"
| "type_matches BLOB t = (t = JSONB)"
| "type_matches _ t = False"

fun default_matches :: "sql_default option \<Rightarrow> sql_default option \<Rightarrow> bool" where
  "default_matches (Some (DefaultInt n)) (Some (DefaultBool b)) = (b = (n \<noteq> 0))"
| "default_matches d e = (d = e)"

definition column_matches :: "column \<Rightarrow> column \<Rightarrow> bool" where
  "column_matches c d \<longleftrightarrow> co_name c = co_name d \<and> co_required c = co_required d \<and> co_primary c = co_primary d \<and>
     co_unique c = co_unique d \<and> co_references c = co_references d \<and> type_matches (co_type c) (co_type d) \<and>
     default_matches (co_default c) (co_default d)"

lemma schema_keys:
  "keys_of sqlite_schema =
     [(''worlds'', [[''id''], [''slug'']]), (''documents'', [[''world_id'', ''id'']]), (''world_events'', [[''world_id'', ''seq'']]),
      (''world_members'', [[''world_id'', ''user_id'']]), (''users'', [[''id''], [''username''], [''email'']]),
      (''user_sessions'', [[''token_hash'']]), (''invites'', [[''id''], [''token_hash'']]),
      (''assets'', [[''id''], [''world_id'', ''sha256'']])]"
  "keys_of postgres_schema = keys_of sqlite_schema"
  by (simp_all add: keys_of_def sqlite_schema_def postgres_schema_def sqlite_Migrations_def postgres_Migrations_def unique_indexes_def
      map_filter_simps sqlite_keys postgres_keys unique_columns_append column_key_simps)

lemma schema_references:
  "references_of sqlite_schema =
     [(''worlds'', []), (''documents'', [(''world_id'', ''worlds'', ''id'')]), (''world_events'', [(''world_id'', ''worlds'', ''id'')]),
      (''world_members'', [(''world_id'', ''worlds'', ''id'')]), (''users'', []),
      (''user_sessions'', [(''user_id'', ''users'', ''id'')]), (''invites'', [(''world_id'', ''worlds'', ''id'')]),
      (''assets'', [(''world_id'', ''worlds'', ''id'')])]"
  "references_of postgres_schema = references_of sqlite_schema"
  by (simp_all add: references_of_def sqlite_schema_def postgres_schema_def sqlite_references postgres_references
      references_in_append references_in_simps column_references)

lemma columns_match:
  "column_matches (nullable n t) (nullable n u) = type_matches t u"
  "column_matches (column_of n t) (column_of n u) = type_matches t u"
  "column_matches (with_default n t v) (with_default n u w) = (type_matches t u \<and> default_matches (Some v) (Some w))"
  "column_matches (primary_key n) (primary_key n)" "column_matches (unique_text n) (unique_text n)"
  "column_matches (optional_unique n) (optional_unique n)" "column_matches (belongs_to n table) (belongs_to n table)"
  by (auto simp: column_matches_def column_defs)

lemma tables_match:
  "list_all2 column_matches sqlite_worlds postgres_worlds" "list_all2 column_matches sqlite_documents postgres_documents"
  "list_all2 column_matches sqlite_world_events postgres_world_events" "list_all2 column_matches sqlite_world_members postgres_world_members"
  "list_all2 column_matches sqlite_users postgres_users" "list_all2 column_matches sqlite_user_sessions postgres_user_sessions"
  "list_all2 column_matches sqlite_invites postgres_invites" "list_all2 column_matches sqlite_assets postgres_assets"
  by (simp_all add: sqlite_tables postgres_tables columns_match)

section \<open>The properties of the schema\<close>


text \<open>
  C26: a migration can be interrupted anywhere and resumed.  After any number of runs, each failing
  at any call or at none, the database holds a prefix of the migrations, recorded as such; the
  next run without a failure completes it to the full schema, each version recorded once and in
  order; a run that reports success has completed it; and no later run changes anything.
\<close>

theorem migrate_resumes:
  assumes "plan = sqlite_Migrations \<and> final = sqlite_schema \<or> plan = postgres_Migrations \<and> final = postgres_schema"
    and "db = fold (\<lambda>fails db. snd (Migrate fails plan db)) runs fresh_database"
  shows "(\<exists>k \<le> length plan. at_most plan k db) \<and>
    (\<exists>db'. Migrate no_faults plan db = (Inr (), db') \<and> mg_versions db' = Some [1..<Suc (length plan)] \<and>
       mg_catalogue db' = final \<and> (\<forall>fails. snd (Migrate fails plan db') = db')) \<and>
    (\<forall>fails db'. Migrate fails plan db = (Inr (), db') \<longrightarrow> mg_catalogue db' = final)"
  using assms(1)
proof (elim disjE conjE)
  assume p: "plan = sqlite_Migrations" "final = sqlite_schema"
  show ?thesis unfolding p by (rule sqlite_plan.Migrate_resumes [OF assms(2) [unfolded p]])
next
  assume p: "plan = postgres_Migrations" "final = postgres_schema"
  show ?thesis unfolding p by (rule postgres_plan.Migrate_resumes [OF assms(2) [unfolded p]])
qed

definition sample_fault :: faults where
  "sample_fault call version i \<longleftrightarrow> call = ''exec'' \<and> version = 3 \<and> i = 1"

theorem migrate_resumes_witness:
  "fst (Migrate sample_fault postgres_Migrations fresh_database) = Inl (ErrDriver ''migration'') \<and>
   mg_versions (snd (Migrate sample_fault postgres_Migrations fresh_database)) = Some [1, 2] \<and>
   (\<exists>db'. Migrate no_faults postgres_Migrations (snd (Migrate sample_fault postgres_Migrations fresh_database)) = (Inr (), db') \<and>
      mg_versions db' = Some [1..<Suc (length postgres_Migrations)] \<and> mg_catalogue db' = postgres_schema)"
proof -
  have "fst (Migrate sample_fault postgres_Migrations fresh_database) = Inl (ErrDriver ''migration'')"
    "mg_versions (snd (Migrate sample_fault postgres_Migrations fresh_database)) = Some [1, 2]"
    by (simp_all add: Migrate_def migrate_version_def fresh_database_def sample_fault_def postgres_run del: set_map)
  moreover have "snd (Migrate sample_fault postgres_Migrations fresh_database) =
      fold (\<lambda>fails db. snd (Migrate fails postgres_Migrations db)) [sample_fault] fresh_database"
    by simp
  from migrate_resumes [OF disjI2 [OF conjI [OF refl refl]] this] obtain db' where
    "Migrate no_faults postgres_Migrations (snd (Migrate sample_fault postgres_Migrations fresh_database)) = (Inr (), db')"
    "mg_versions db' = Some [1..<Suc (length postgres_Migrations)]" "mg_catalogue db' = postgres_schema"
    by blast
  ultimately show ?thesis by blast
qed

text \<open>
  Where the integers of the two backends differ in width: these columns hold 64 bits in SQLite and
  32 in PostgreSQL, although the code fills them from 64-bit integers.
\<close>

lemma column_types:
  "co_type (nullable n t) = t" "co_type (column_of n t) = t" "co_type (with_default n t v) = t"
  "co_type (primary_key n) = TEXT" "co_type (unique_text n) = TEXT" "co_type (optional_unique n) = TEXT" "co_type (belongs_to n table) = TEXT"
  by (simp_all add: column_defs)

definition narrow_columns :: "catalogue \<Rightarrow> (string \<times> string list) list" where
  "narrow_columns cat = filter (\<lambda>(_, names). names \<noteq> []) (map (\<lambda>(table, columns, _).
     (table, map co_name (filter (\<lambda>c. co_type c = INTEGER) columns))) (ct_tables cat))"

theorem narrow_on_postgres:
  "narrow_columns postgres_schema =
     [(''documents'', [''sort'']), (''invites'', [''max_uses'', ''uses'']), (''assets'', [''width'', ''height'', ''duration_ms''])]"
  by (simp add: narrow_columns_def postgres_schema_def postgres_tables column_types column_names)

end
