(* ===== verification/Frames.thy ===== *)
theory Frames
  imports StoragePort
begin

text \<open>
  The frames of the realtime protocol (\<open>internal/transport/ws/frame.go\<close>) and their translation
  to and from the protobuf messages (\<open>protocodec.go\<close>).  A pointer to a body is an \<open>option\<close>; the
  generated message type is its wire lane and the \<open>oneof\<close> body.  The byte encoding of a message
  is that of the protobuf library and is not modelled.
\<close>

section \<open>Frames\<close>

type_synonym Lane = int

definition LaneControl :: Lane where "LaneControl = 0"
definition LaneDocument :: Lane where "LaneDocument = 1"
definition LaneEphemeral :: Lane where "LaneEphemeral = 2"

lemmas lane_names = LaneControl_def LaneDocument_def LaneEphemeral_def

type_synonym FrameType = string

definition TypeHello :: FrameType where "TypeHello = ''hello''"
definition TypeWelcome :: FrameType where "TypeWelcome = ''welcome''"
definition TypeIntent :: FrameType where "TypeIntent = ''intent''"
definition TypeAck :: FrameType where "TypeAck = ''ack''"
definition TypeEvent :: FrameType where "TypeEvent = ''event''"
definition TypeEphemeral :: FrameType where "TypeEphemeral = ''ephemeral''"
definition TypeError :: FrameType where "TypeError = ''error''"
definition TypePing :: FrameType where "TypePing = ''ping''"
definition TypePong :: FrameType where "TypePong = ''pong''"
definition TypeResync :: FrameType where "TypeResync = ''resync''"

lemmas frame_types = TypeHello_def TypeWelcome_def TypeIntent_def TypeAck_def TypeEvent_def
  TypeEphemeral_def TypeError_def TypePing_def TypePong_def TypeResync_def

record Hello =
  h_Ticket :: string
  h_WorldID :: string
  h_ProtocolVersion :: int
  h_LastSeq :: int
  h_Locale :: string
  h_Capabilities :: "string list"

record Welcome =
  wl_SessionID :: string
  wl_UserID :: string
  wl_Role :: string
  wl_Seq :: int
  wl_DeltaFrom :: int
  wl_SnapshotRef :: string

record Intent =
  it_RequestID :: int
  it_Kind :: string
  it_WorldID :: string
  it_Payload :: raw

record Ack =
  ak_RequestID :: int
  ak_Seq :: int
  ak_Result :: raw

record EventBody =
  ev_Seq :: int
  ev_Kind :: string
  ev_WorldID :: string
  ev_SceneID :: string
  ev_Payload :: raw

record Ephemeral =
  ep_Kind :: string
  ep_Key :: string
  ep_WorldID :: string
  ep_SceneID :: string
  ep_Payload :: raw

record ErrorBody =
  er_RequestID :: int
  er_Code :: string
  er_MessageKey :: string
  er_Params :: "string gomap"

record Ping =
  pg_SentAtUnixMs :: int

record Resync =
  rs_Reason :: string
  rs_FromSeq :: int

record Frame =
  fr_Lane :: Lane
  fr_Type :: FrameType
  fr_Hello :: "Hello option"
  fr_Welcome :: "Welcome option"
  fr_Intent :: "Intent option"
  fr_Ack :: "Ack option"
  fr_Event :: "EventBody option"
  fr_Ephemeral :: "Ephemeral option"
  fr_Error :: "ErrorBody option"
  fr_Ping :: "Ping option"
  fr_Resync :: "Resync option"

definition empty_frame :: "Lane \<Rightarrow> FrameType \<Rightarrow> Frame" where
  "empty_frame lane typ = \<lparr>fr_Lane = lane, fr_Type = typ, fr_Hello = None, fr_Welcome = None,
     fr_Intent = None, fr_Ack = None, fr_Event = None, fr_Ephemeral = None, fr_Error = None,
     fr_Ping = None, fr_Resync = None\<rparr>"

definition CodeBadRequest :: string where "CodeBadRequest = ''bad_request''"
definition CodeUnauthorized :: string where "CodeUnauthorized = ''unauthorized''"
definition CodeForbidden :: string where "CodeForbidden = ''forbidden''"
definition CodeNotFound :: string where "CodeNotFound = ''not_found''"
definition CodeUnsupported :: string where "CodeUnsupported = ''unsupported_protocol''"
definition CodeInternal :: string where "CodeInternal = ''internal''"
definition ProtocolVersion :: int where "ProtocolVersion = 1"
definition MinProtocolVersion :: int where "MinProtocolVersion = 1"

definition errorFrame :: "int \<Rightarrow> string \<Rightarrow> string \<Rightarrow> Frame" where
  "errorFrame requestID code messageKey = (empty_frame LaneControl TypeError)\<lparr>fr_Error :=
     Some \<lparr>er_RequestID = requestID, er_Code = code, er_MessageKey = messageKey, er_Params = []\<rparr>\<rparr>"

section \<open>Protobuf messages\<close>

datatype Body =
    Frame_Hello Hello
  | Frame_Welcome Welcome
  | Frame_Intent Intent
  | Frame_Ack Ack
  | Frame_Event EventBody
  | Frame_Ephemeral Ephemeral
  | Frame_Error ErrorBody
  | Frame_Ping int
  | Frame_Pong int
  | Frame_Resync Resync

record Message =
  ms_Lane :: int
  ms_Body :: "Body option"

definition sent_at :: "Frame \<Rightarrow> int" where
  "sent_at frame = (case fr_Ping frame of None \<Rightarrow> 0 | Some p \<Rightarrow> pg_SentAtUnixMs p)"

definition frame_body :: "Frame \<Rightarrow> Body option" where
  "frame_body frame =
     (if fr_Type frame = TypeHello then map_option Frame_Hello (fr_Hello frame)
      else if fr_Type frame = TypeWelcome then map_option Frame_Welcome (fr_Welcome frame)
      else if fr_Type frame = TypeIntent then map_option Frame_Intent (fr_Intent frame)
      else if fr_Type frame = TypeAck then map_option Frame_Ack (fr_Ack frame)
      else if fr_Type frame = TypeEvent then map_option Frame_Event (fr_Event frame)
      else if fr_Type frame = TypeEphemeral then map_option Frame_Ephemeral (fr_Ephemeral frame)
      else if fr_Type frame = TypeError then map_option Frame_Error (fr_Error frame)
      else if fr_Type frame = TypePing then Some (Frame_Ping (sent_at frame))
      else if fr_Type frame = TypePong then Some (Frame_Pong (sent_at frame))
      else if fr_Type frame = TypeResync then map_option Frame_Resync (fr_Resync frame)
      else None)"

text \<open>A missing body and an unknown type are both errors.\<close>

definition toProto :: "Frame \<Rightarrow> Message res" where
  "toProto frame =
     (case frame_body frame of
        None \<Rightarrow> Inl ErrMalformed
      | Some body \<Rightarrow> Inr \<lparr>ms_Lane = fr_Lane frame, ms_Body = Some body\<rparr>)"

text \<open>\<open>Lane\<close> is an 8-bit integer, the lane of a message has 32 bits.\<close>

definition fromProto :: "Message \<Rightarrow> Frame res" where
  "fromProto message =
     (let frame = empty_frame (ms_Lane message mod 256)
      in case ms_Body message of
           None \<Rightarrow> Inl ErrMalformed
         | Some (Frame_Hello b) \<Rightarrow> Inr ((frame TypeHello)\<lparr>fr_Hello := Some b\<rparr>)
         | Some (Frame_Welcome b) \<Rightarrow> Inr ((frame TypeWelcome)\<lparr>fr_Welcome := Some b\<rparr>)
         | Some (Frame_Intent b) \<Rightarrow> Inr ((frame TypeIntent)\<lparr>fr_Intent := Some b\<rparr>)
         | Some (Frame_Ack b) \<Rightarrow> Inr ((frame TypeAck)\<lparr>fr_Ack := Some b\<rparr>)
         | Some (Frame_Event b) \<Rightarrow> Inr ((frame TypeEvent)\<lparr>fr_Event := Some b\<rparr>)
         | Some (Frame_Ephemeral b) \<Rightarrow> Inr ((frame TypeEphemeral)\<lparr>fr_Ephemeral := Some b\<rparr>)
         | Some (Frame_Error b) \<Rightarrow> Inr ((frame TypeError)\<lparr>fr_Error := Some b\<rparr>)
         | Some (Frame_Ping t) \<Rightarrow> Inr ((frame TypePing)\<lparr>fr_Ping := Some \<lparr>pg_SentAtUnixMs = t\<rparr>\<rparr>)
         | Some (Frame_Pong t) \<Rightarrow> Inr ((frame TypePong)\<lparr>fr_Ping := Some \<lparr>pg_SentAtUnixMs = t\<rparr>\<rparr>)
         | Some (Frame_Resync b) \<Rightarrow> Inr ((frame TypeResync)\<lparr>fr_Resync := Some b\<rparr>))"

section \<open>The codec contract\<close>

text \<open>A codec decodes what it encoded, for every frame it can carry.\<close>

locale frame_codec =
  fixes encode :: "Frame \<Rightarrow> 'm res" and decode :: "'m \<Rightarrow> Frame res" and carries :: "Frame \<Rightarrow> bool"
  assumes encode_total: "carries f \<Longrightarrow> \<exists>m. encode f = Inr m"
    and decode_encode: "carries f \<Longrightarrow> encode f = Inr m \<Longrightarrow> decode m = Inr f"
    and decode_carries: "decode m = Inr f \<Longrightarrow> carries f"
begin

lemma encode_inj: "carries f \<Longrightarrow> carries g \<Longrightarrow> encode f = encode g \<Longrightarrow> f = g"
  using decode_encode encode_total by (metis sum.inject(2))

text \<open>What comes in can be sent on unchanged.\<close>

lemma relay: "decode m = Inr f \<Longrightarrow> \<exists>m'. encode f = Inr m' \<and> decode m' = Inr f"
  using decode_carries decode_encode encode_total by blast

end

text \<open>
  The frames a codec carries: a lane of eight bits, a body of the frame's own type and no
  other body.
\<close>

fun frame_with :: "Lane \<Rightarrow> Body \<Rightarrow> Frame" where
  "frame_with l (Frame_Hello b) = (empty_frame l TypeHello)\<lparr>fr_Hello := Some b\<rparr>"
| "frame_with l (Frame_Welcome b) = (empty_frame l TypeWelcome)\<lparr>fr_Welcome := Some b\<rparr>"
| "frame_with l (Frame_Intent b) = (empty_frame l TypeIntent)\<lparr>fr_Intent := Some b\<rparr>"
| "frame_with l (Frame_Ack b) = (empty_frame l TypeAck)\<lparr>fr_Ack := Some b\<rparr>"
| "frame_with l (Frame_Event b) = (empty_frame l TypeEvent)\<lparr>fr_Event := Some b\<rparr>"
| "frame_with l (Frame_Ephemeral b) = (empty_frame l TypeEphemeral)\<lparr>fr_Ephemeral := Some b\<rparr>"
| "frame_with l (Frame_Error b) = (empty_frame l TypeError)\<lparr>fr_Error := Some b\<rparr>"
| "frame_with l (Frame_Ping t) = (empty_frame l TypePing)\<lparr>fr_Ping := Some \<lparr>pg_SentAtUnixMs = t\<rparr>\<rparr>"
| "frame_with l (Frame_Pong t) = (empty_frame l TypePong)\<lparr>fr_Ping := Some \<lparr>pg_SentAtUnixMs = t\<rparr>\<rparr>"
| "frame_with l (Frame_Resync b) = (empty_frame l TypeResync)\<lparr>fr_Resync := Some b\<rparr>"

definition carried :: "Frame \<Rightarrow> bool" where
  "carried f \<longleftrightarrow> 0 \<le> fr_Lane f \<and> fr_Lane f < 256 \<and> (\<exists>b. f = frame_with (fr_Lane f) b)"

lemma frame_with_body [simp]: "frame_body (frame_with l b) = Some b" "fr_Lane (frame_with l b) = l"
  by (cases b; simp add: empty_frame_def frame_body_def frame_types sent_at_def)+

lemma fromProto_with: "fromProto m = (case ms_Body m of
    None \<Rightarrow> Inl ErrMalformed | Some b \<Rightarrow> Inr (frame_with (ms_Lane m mod 256) b))"
  by (auto simp: fromProto_def Let_def split: option.split Body.split)

lemma toProto_with: "toProto (frame_with l b) = Inr \<lparr>ms_Lane = l, ms_Body = Some b\<rparr>"
  by (simp add: toProto_def)

interpretation proto: frame_codec toProto fromProto carried
proof
  fix f m
  assume f: "carried f"
  then obtain b where b: "f = frame_with (fr_Lane f) b" "0 \<le> fr_Lane f" "fr_Lane f < 256"
    by (auto simp: carried_def)
  have t: "toProto f = Inr \<lparr>ms_Lane = fr_Lane f, ms_Body = Some b\<rparr>"
    using toProto_with [of "fr_Lane f" b] b(1) by simp
  then show "\<exists>m. toProto f = Inr m" by simp
  show "fromProto m = Inr f" if "toProto f = Inr m"
    using that t b by (auto simp: fromProto_with)
next
  fix m f
  assume "fromProto m = Inr f"
  then obtain b where "f = frame_with (ms_Lane m mod 256) b"
    by (auto simp: fromProto_with split: option.splits)
  then show "carried f" by (auto simp: carried_def)
qed



end
