(* ===== verification/Outbox.thy ===== *)
theory Outbox
  imports Frames
begin

text \<open>
  The queue between the server and one connection (\<open>internal/transport/ws/outbox.go\<close>): a
  control lane, a bounded document lane and a lane of ephemeral frames that keeps the newest
  frame per key.  Every method holds the mutex for its whole body, so each is one atomic step.
\<close>

record outbox =
  o_control :: "Frame list"
  o_document :: "Frame list"
  o_ephemeral :: "Frame gomap"
  o_order :: "string list"
  o_documentCap :: nat
  o_ephemeralCap :: nat
  o_signal :: bool
  o_closed :: bool
  o_overflow :: bool
  o_droppedEphemeral :: nat

definition defaultDocumentCap :: int where "defaultDocumentCap = 256"
definition defaultEphemeralCap :: int where "defaultEphemeralCap = 64"

definition newOutbox :: "int \<Rightarrow> int \<Rightarrow> outbox" where
  "newOutbox documentCap ephemeralCap =
     (let documentCap = (if documentCap \<le> 0 then defaultDocumentCap else documentCap);
          ephemeralCap = (if ephemeralCap \<le> 0 then defaultEphemeralCap else ephemeralCap)
      in \<lparr>o_control = [], o_document = [], o_ephemeral = [], o_order = [],
          o_documentCap = nat documentCap, o_ephemeralCap = nat ephemeralCap, o_signal = False,
          o_closed = False, o_overflow = False, o_droppedEphemeral = 0\<rparr>)"

text \<open>The signal channel has one slot: waking twice is waking once.\<close>

definition wake :: "outbox \<Rightarrow> outbox" where
  "wake ob = ob\<lparr>o_signal := True\<rparr>"

definition PushControl :: "Frame \<Rightarrow> outbox \<Rightarrow> unit res \<times> outbox" where
  "PushControl frame ob =
     (if o_closed ob then (Inl ErrOutboxClosed, ob)
      else (Inr (), wake (ob\<lparr>o_control := o_control ob @ [frame]\<rparr>)))"

definition PushDocument :: "Frame \<Rightarrow> outbox \<Rightarrow> unit res \<times> outbox" where
  "PushDocument frame ob =
     (if o_closed ob then (Inl ErrOutboxClosed, ob)
      else if length (o_document ob) \<ge> o_documentCap ob then (Inl ErrSlowConsumer, ob\<lparr>o_overflow := True\<rparr>)
      else (Inr (), wake (ob\<lparr>o_document := o_document ob @ [frame]\<rparr>)))"

definition evict :: "outbox \<Rightarrow> outbox" where
  "evict ob =
     (if length (o_order ob) \<ge> o_ephemeralCap ob
      then ob\<lparr>o_ephemeral := map_del (hd (o_order ob)) (o_ephemeral ob), o_order := tl (o_order ob),
        o_droppedEphemeral := o_droppedEphemeral ob + 1\<rparr>
      else ob)"

definition PushEphemeral :: "string \<Rightarrow> Frame \<Rightarrow> outbox \<Rightarrow> unit res \<times> outbox" where
  "PushEphemeral key frame ob =
     (if o_closed ob then (Inl ErrOutboxClosed, ob)
      else if map_of (o_ephemeral ob) key \<noteq> None
      then (Inr (), wake (ob\<lparr>o_ephemeral := map_put key frame (o_ephemeral ob)\<rparr>))
      else
        let ob = evict ob
        in (Inr (), wake (ob\<lparr>o_ephemeral := map_put key frame (o_ephemeral ob), o_order := o_order ob @ [key]\<rparr>)))"

definition PrependDocument :: "Frame list \<Rightarrow> outbox \<Rightarrow> unit res \<times> outbox" where
  "PrependDocument frames ob =
     (if frames = [] then (Inr (), ob)
      else if o_closed ob then (Inl ErrOutboxClosed, ob)
      else (Inr (), wake (ob\<lparr>o_document := frames @ o_document ob\<rparr>)))"

definition Pop :: "outbox \<Rightarrow> Frame option \<times> outbox" where
  "Pop ob =
     (case o_control ob of
        frame # rest \<Rightarrow> (Some frame, ob\<lparr>o_control := rest\<rparr>)
      | [] \<Rightarrow>
          (case o_document ob of
             frame # rest \<Rightarrow> (Some frame, ob\<lparr>o_document := rest\<rparr>)
           | [] \<Rightarrow>
               (case o_order ob of
                  key # rest \<Rightarrow>
                    (Some (case map_of (o_ephemeral ob) key of None \<Rightarrow> empty_frame 0 [] | Some frame \<Rightarrow> frame),
                     ob\<lparr>o_ephemeral := map_del key (o_ephemeral ob), o_order := rest\<rparr>)
                | [] \<Rightarrow> (None, ob))))"

definition Depth :: "outbox \<Rightarrow> nat \<times> nat \<times> nat" where
  "Depth ob = (length (o_control ob), length (o_document ob), length (o_order ob))"

definition outbox_Close :: "outbox \<Rightarrow> outbox" where
  "outbox_Close ob = (if o_closed ob then ob else wake (ob\<lparr>o_closed := True\<rparr>))"

section \<open>The invariant\<close>

text \<open>The order lists each pending ephemeral key once, and at most \<open>ephemeralCap\<close> of them.\<close>

definition outbox_ok :: "outbox \<Rightarrow> bool" where
  "outbox_ok ob \<longleftrightarrow> distinct (o_order ob) \<and> set (o_order ob) = dom (map_of (o_ephemeral ob)) \<and>
     length (o_order ob) \<le> o_ephemeralCap ob \<and> 0 < o_ephemeralCap ob"

lemma newOutbox_ok: "outbox_ok (newOutbox d e)"
  by (simp add: outbox_ok_def newOutbox_def Let_def defaultEphemeralCap_def)

lemma wake_ok [simp]: "outbox_ok (wake ob) = outbox_ok ob"
  by (simp add: outbox_ok_def wake_def)

lemma evict_ok:
  assumes "outbox_ok ob"
  shows "outbox_ok (evict ob) \<and> length (o_order (evict ob)) < o_ephemeralCap (evict ob) \<and>
    set (o_order (evict ob)) \<subseteq> set (o_order ob) \<and> o_ephemeralCap (evict ob) = o_ephemeralCap ob"
proof (cases "o_order ob")
  case Nil
  with assms show ?thesis by (auto simp: evict_def outbox_ok_def)
next
  case (Cons k ks)
  with assms show ?thesis by (auto simp: evict_def outbox_ok_def)
qed

lemma PushEphemeral_ok:
  assumes "outbox_ok ob"
  shows "outbox_ok (snd (PushEphemeral key frame ob))"
proof (cases "map_of (o_ephemeral ob) key")
  case None
  then have "key \<notin> set (o_order ob)" using assms by (auto simp: outbox_ok_def)
  then show ?thesis using evict_ok [OF assms] None assms
    by (auto simp: PushEphemeral_def Let_def) (auto simp: outbox_ok_def)
next
  case (Some f)
  then show ?thesis using assms by (auto simp: PushEphemeral_def outbox_ok_def wake_def)
qed

lemma Pop_ok: "outbox_ok ob \<Longrightarrow> outbox_ok (snd (Pop ob))"
  by (auto simp: Pop_def outbox_ok_def split: list.splits)

lemma outbox_others_ok:
  "outbox_ok ob \<Longrightarrow> outbox_ok (snd (PushControl f ob))"
  "outbox_ok ob \<Longrightarrow> outbox_ok (snd (PushDocument f ob))"
  "outbox_ok ob \<Longrightarrow> outbox_ok (snd (PrependDocument fs ob))"
  "outbox_ok ob \<Longrightarrow> outbox_ok (outbox_Close ob)"
  by (auto simp: PushControl_def PushDocument_def PrependDocument_def outbox_Close_def outbox_ok_def wake_def)

section \<open>The lanes\<close>

text \<open>
  What the outbox promises: three lanes, where the ephemeral lane is a list of keyed frames.
\<close>

record lanes =
  l_control :: "Frame list"
  l_document :: "Frame list"
  l_ephemeral :: "(string \<times> Frame) list"

definition lanes_of :: "outbox \<Rightarrow> lanes" where
  "lanes_of ob = \<lparr>l_control = o_control ob, l_document = o_document ob,
     l_ephemeral = map (\<lambda>k. (k, the (map_of (o_ephemeral ob) k))) (o_order ob)\<rparr>"

definition newest_per_key :: "nat \<Rightarrow> string \<Rightarrow> Frame \<Rightarrow> (string \<times> Frame) list \<Rightarrow> (string \<times> Frame) list" where
  "newest_per_key cap key frame eph =
     (if key \<in> fst ` set eph then map (\<lambda>(k, f). (k, if k = key then frame else f)) eph
      else (if length eph \<ge> cap then tl eph else eph) @ [(key, frame)])"

definition pending :: "lanes \<Rightarrow> Frame list" where
  "pending l = l_control l @ l_document l @ map snd (l_ephemeral l)"

lemma lanes_of_wake [simp]: "lanes_of (wake ob) = lanes_of ob"
  by (simp add: lanes_of_def wake_def)

lemma lanes_of_evict:
  assumes "outbox_ok ob"
  shows "lanes_of (evict ob) = (lanes_of ob)\<lparr>l_ephemeral :=
    (if length (o_order ob) \<ge> o_ephemeralCap ob then tl (l_ephemeral (lanes_of ob)) else l_ephemeral (lanes_of ob))\<rparr>"
proof (cases "o_order ob")
  case (Cons k ks)
  then have "k \<notin> set ks" using assms by (simp add: outbox_ok_def)
  with Cons show ?thesis by (auto simp: evict_def lanes_of_def)
qed (use assms in \<open>auto simp: evict_def lanes_of_def outbox_ok_def\<close>)

lemma lanes_PushEphemeral:
  assumes "outbox_ok ob" and "\<not> o_closed ob"
  shows "lanes_of (snd (PushEphemeral key frame ob)) = (lanes_of ob)\<lparr>l_ephemeral :=
    newest_per_key (o_ephemeralCap ob) key frame (l_ephemeral (lanes_of ob))\<rparr>"
proof (cases "key \<in> set (o_order ob)")
  case True
  then have "map_of (o_ephemeral ob) key \<noteq> None" using assms(1) by (auto simp: outbox_ok_def)
  then show ?thesis using True assms(2)
    by (auto simp: PushEphemeral_def lanes_of_def newest_per_key_def wake_def image_image)
next
  case False
  then have none: "map_of (o_ephemeral ob) key = None" using assms(1) by (auto simp: outbox_ok_def)
  let ?e = "evict ob"
  have "key \<notin> set (o_order ?e)" using False evict_ok [OF assms(1)] by blast
  then have "map (\<lambda>k. (k, the (map_of (map_put key frame (o_ephemeral ?e)) k))) (o_order ?e) =
      l_ephemeral (lanes_of ?e)"
    by (auto simp: lanes_of_def)
  then have "lanes_of (snd (PushEphemeral key frame ob)) =
      (lanes_of ?e)\<lparr>l_ephemeral := l_ephemeral (lanes_of ?e) @ [(key, frame)]\<rparr>"
    using none assms(2) by (simp add: PushEphemeral_def Let_def) (simp add: lanes_of_def wake_def)
  then show ?thesis using False
    by (simp add: lanes_of_evict [OF assms(1)] newest_per_key_def) (simp add: lanes_of_def image_image)
qed

section \<open>Draining\<close>

text \<open>A queue of frames as the write loop uses it: it pops until nothing is left.\<close>

fun drain :: "('q \<Rightarrow> 'a option \<times> 'q) \<Rightarrow> nat \<Rightarrow> 'q \<Rightarrow> 'a list \<times> 'q" where
  "drain pop 0 q = ([], q)"
| "drain pop (Suc n) q =
     (case pop q of
        (None, q) \<Rightarrow> ([], q)
      | (Some f, q) \<Rightarrow> (case drain pop n q of (fs, q) \<Rightarrow> (f # fs, q)))"

locale frame_queue =
  fixes pop :: "'q \<Rightarrow> 'a option \<times> 'q" and contents :: "'q \<Rightarrow> 'a list" and ok :: "'q \<Rightarrow> bool"
  assumes pop_empty: "ok q \<Longrightarrow> contents q = [] \<Longrightarrow> pop q = (None, q)"
    and pop_next: "ok q \<Longrightarrow> contents q = f # fs \<Longrightarrow> \<exists>q'. pop q = (Some f, q') \<and> contents q' = fs \<and> ok q'"
begin

lemma drain_all:
  "ok q \<Longrightarrow> length (contents q) \<le> n \<Longrightarrow>
     \<exists>q'. drain pop n q = (contents q, q') \<and> contents q' = [] \<and> ok q'"
proof (induction n arbitrary: q)
  case (Suc n)
  show ?case
  proof (cases "contents q")
    case Nil
    with Suc.prems show ?thesis by (simp add: pop_empty)
  next
    case (Cons f fs)
    then obtain q1 where q1: "pop q = (Some f, q1)" "contents q1 = fs" "ok q1"
      using pop_next Suc.prems(1) by blast
    with Suc.IH [of q1] Suc.prems(2) Cons show ?thesis by auto
  qed
qed simp

end

interpretation out: frame_queue Pop "\<lambda>ob. pending (lanes_of ob)" outbox_ok
proof
  fix q :: outbox and f fs
  show "Pop q = (None, q)" if "outbox_ok q" "pending (lanes_of q) = []"
    using that by (auto simp: Pop_def pending_def lanes_of_def)
  assume ok: "outbox_ok q" and c: "pending (lanes_of q) = f # fs"
  consider g gs where "o_control q = g # gs" | g gs where "o_control q = []" "o_document q = g # gs"
    | k ks where "o_control q = []" "o_document q = []" "o_order q = k # ks"
    using c by (cases "o_control q"; cases "o_document q"; cases "o_order q")
      (auto simp: pending_def lanes_of_def)
  then show "\<exists>q'. Pop q = (Some f, q') \<and> pending (lanes_of q') = fs \<and> outbox_ok q'"
  proof cases
    case (3 k ks)
    have "k \<notin> set ks" "k \<in> dom (map_of (o_ephemeral q))" using ok 3 by (auto simp: outbox_ok_def)
    then show ?thesis using 3 c Pop_ok [OF ok]
      by (auto simp: Pop_def pending_def lanes_of_def o_def split: option.splits)
  qed (use c Pop_ok [OF ok] in \<open>auto simp: Pop_def pending_def lanes_of_def\<close>)
qed

section \<open>The properties of the outbox\<close>



text \<open>
  Popping until nothing is left delivers every pending frame once: all control frames
  first, then the document frames in the order they were pushed, then one frame per
  ephemeral key; it takes exactly as many pops as there are frames.
\<close>

theorem outbox_drains:
  assumes "outbox_ok ob" and "length (pending (lanes_of ob)) \<le> n"
  shows "\<exists>ob'. drain Pop n ob = (pending (lanes_of ob), ob') \<and> pending (lanes_of ob') = [] \<and>
    outbox_ok ob' \<and> Pop ob' = (None, ob')"
  using out.drain_all [OF assms] out.pop_empty by metis

theorem outbox_drains_witness:
  "\<exists>ob'. drain Pop 3 (snd (PushControl (errorFrame 1 [] []) (newOutbox 4 4))) =
     (pending (lanes_of (snd (PushControl (errorFrame 1 [] []) (newOutbox 4 4)))), ob')"
  using outbox_drains [OF outbox_others_ok(1) [OF newOutbox_ok [of 4 4]], of "errorFrame 1 [] []" 3]
  by (auto simp: PushControl_def newOutbox_def wake_def lanes_of_def pending_def Let_def)

end
