(* ===== verification/Hub.thy ===== *)
theory Hub
  imports Outbox
begin

text \<open>
  The sessions of a world and the hub that fans publications out to them
  (\<open>internal/transport/ws/hub.go\<close> and the session methods it calls, \<open>session.go\<close>).  The hub's
  goroutine owns the map of joined sessions; the sessions themselves are shared with their own
  goroutines, so a world is a store of session objects by id, the ids that have joined and the
  buffered channel of publications.  The bodies of \<open>select\<close> cases run one at a time: each is
  one step.
\<close>

definition WorldChannel :: "ID \<Rightarrow> string" where "WorldChannel wid = ''world:'' @ wid"
definition SceneChannel :: "ID \<Rightarrow> string" where "SceneChannel sid = ''scene:'' @ sid"
definition ActorChannel :: "ID \<Rightarrow> string" where "ActorChannel aid = ''actor:'' @ aid"
definition UserChannel :: "ID \<Rightarrow> string" where "UserChannel uid = ''user:'' @ uid"

section \<open>Sessions\<close>

record Session =
  ss_id :: string
  ss_userID :: ID
  ss_worldID :: ID
  ss_role :: string
  ss_displayName :: string
  ss_lastSeq :: int
  ss_subscriptions :: "unit gomap"
  ss_outbox :: outbox

definition NewSession :: "string \<Rightarrow> int \<Rightarrow> int \<Rightarrow> Session" where
  "NewSession sid documentCap ephemeralCap = \<lparr>ss_id = sid, ss_userID = [], ss_worldID = [], ss_role = [],
     ss_displayName = [], ss_lastSeq = 0, ss_subscriptions = [],
     ss_outbox = newOutbox documentCap ephemeralCap\<rparr>"

definition Subscribe :: "string list \<Rightarrow> Session \<Rightarrow> Session" where
  "Subscribe channels s = s\<lparr>ss_subscriptions := fold (\<lambda>channel. map_put channel ()) channels (ss_subscriptions s)\<rparr>"

definition Unsubscribe :: "string list \<Rightarrow> Session \<Rightarrow> Session" where
  "Unsubscribe channels s = s\<lparr>ss_subscriptions := fold map_del channels (ss_subscriptions s)\<rparr>"

definition Subscribed :: "Session \<Rightarrow> string \<Rightarrow> bool" where
  "Subscribed s channel \<longleftrightarrow> map_of (ss_subscriptions s) channel \<noteq> None"

lemma map_of_fold_unit:
  "map_of (fold (\<lambda>channel. map_put channel ()) channels m) c \<noteq> None \<longleftrightarrow> c \<in> set channels \<or> map_of m c \<noteq> None"
  by (induction channels arbitrary: m) auto

lemma map_of_fold_del: "map_of (fold map_del channels m) c \<noteq> None \<longleftrightarrow> c \<notin> set channels \<and> map_of m c \<noteq> None"
  by (induction channels arbitrary: m) auto

lemma Subscribed_Subscribe [simp]: "Subscribed (Subscribe cs s) c \<longleftrightarrow> c \<in> set cs \<or> Subscribed s c"
  using map_of_fold_unit [of cs "ss_subscriptions s" c] by (simp add: Subscribed_def Subscribe_def)

lemma Subscribed_Unsubscribe [simp]: "Subscribed (Unsubscribe cs s) c \<longleftrightarrow> c \<notin> set cs \<and> Subscribed s c"
  using map_of_fold_del [of cs "ss_subscriptions s" c] by (simp add: Subscribed_def Unsubscribe_def)

text \<open>A call on the session's outbox.\<close>

definition on_outbox :: "(outbox \<Rightarrow> 'a \<times> outbox) \<Rightarrow> Session \<Rightarrow> 'a \<times> Session" where
  "on_outbox f s = (case f (ss_outbox s) of (r, ob) \<Rightarrow> (r, s\<lparr>ss_outbox := ob\<rparr>))"

lemma on_outbox_simps [simp]:
  "fst (on_outbox f s) = fst (f (ss_outbox s))"
  "snd (on_outbox f s) = s\<lparr>ss_outbox := snd (f (ss_outbox s))\<rparr>"
  by (simp_all add: on_outbox_def split: prod.splits)

definition CloseWithResync :: "string \<Rightarrow> int \<Rightarrow> Session \<Rightarrow> Session" where
  "CloseWithResync reason fromSeq s =
     s\<lparr>ss_outbox := outbox_Close (snd (PushControl ((empty_frame LaneControl TypeResync)\<lparr>fr_Resync :=
        Some \<lparr>rs_Reason = reason, rs_FromSeq = fromSeq\<rparr>\<rparr>) (ss_outbox s)))\<rparr>"

section \<open>Publications\<close>

record Publication =
  pb_Channel :: string
  pb_Lane :: Lane
  pb_Key :: string
  pb_Frame :: Frame
  pb_PerUser :: "Frame gomap option"
  pb_Audience :: "ID list"
  pb_Exclude :: string

definition zero_publication :: Publication where
  "zero_publication = \<lparr>pb_Channel = [], pb_Lane = 0, pb_Key = [], pb_Frame = empty_frame 0 [],
     pb_PerUser = None, pb_Audience = [], pb_Exclude = []\<rparr>"

definition allows :: "Publication \<Rightarrow> ID \<Rightarrow> bool" where
  "allows p userID \<longleftrightarrow> pb_Audience p = [] \<or> list_ex (\<lambda>allowed. allowed = userID) (pb_Audience p)"

definition deliver :: "Publication \<Rightarrow> Frame \<Rightarrow> Session \<Rightarrow> unit res \<times> Session" where
  "deliver p frame s =
     (if pb_Lane p = LaneEphemeral then on_outbox (PushEphemeral (pb_Key p) frame) s
      else if pb_Lane p = LaneControl then on_outbox (PushControl frame) s
      else on_outbox (PushDocument frame) s)"

text \<open>The frame a session gets of a publication, if any.\<close>

definition frame_for :: "Publication \<Rightarrow> string \<Rightarrow> Session \<Rightarrow> Frame option" where
  "frame_for p sid s =
     (if sid = pb_Exclude p then None
      else if \<not> Subscribed s (pb_Channel p) then None
      else if \<not> allows p (ss_userID s) then None
      else case pb_PerUser p of None \<Rightarrow> Some (pb_Frame p) | Some frames \<Rightarrow> map_of frames (ss_userID s))"

section \<open>The hub\<close>

record World_Hub =
  hb_worldID :: ID
  hb_store :: "Session gomap"
  hb_joined :: "unit gomap"
  hb_queue :: "Publication list"
  hb_done :: bool

definition publishCap :: nat where "publishCap = 256"

definition NewHub :: "ID \<Rightarrow> World_Hub" where
  "NewHub worldID = \<lparr>hb_worldID = worldID, hb_store = [], hb_joined = [], hb_queue = [], hb_done = False\<rparr>"

text \<open>One turn of the loop of \<open>fanOut\<close>, for the session of one id.\<close>

definition fan_one :: "Publication \<Rightarrow> string \<Rightarrow> World_Hub \<Rightarrow> World_Hub" where
  "fan_one p sid h =
     (case map_of (hb_store h) sid of
        None \<Rightarrow> h
      | Some s \<Rightarrow>
          (case frame_for p sid s of
             None \<Rightarrow> h
           | Some frame \<Rightarrow>
               (case deliver p frame s of
                  (Inr _, s') \<Rightarrow> h\<lparr>hb_store := map_put sid s' (hb_store h)\<rparr>
                | (Inl _, s') \<Rightarrow> h\<lparr>hb_store := map_put sid (CloseWithResync ''slow consumer'' (ss_lastSeq s') s') (hb_store h),
                    hb_joined := map_del sid (hb_joined h)\<rparr>)))"

text \<open>Go ranges over the map of joined sessions in any order, given here as a list of ids.\<close>

definition fanOut :: "string list \<Rightarrow> Publication \<Rightarrow> World_Hub \<Rightarrow> World_Hub" where
  "fanOut ids p h = fold (fan_one p) ids h"

definition close_one :: "string \<Rightarrow> World_Hub \<Rightarrow> World_Hub" where
  "close_one sid h =
     (case map_of (hb_store h) sid of
        None \<Rightarrow> h
      | Some s \<Rightarrow> h\<lparr>hb_store := map_put sid (CloseWithResync ''world closed'' 0 s) (hb_store h)\<rparr>)"

definition hub_Join :: "string \<Rightarrow> World_Hub \<Rightarrow> World_Hub" where
  "hub_Join sid h = (if hb_done h then h else h\<lparr>hb_joined := map_put sid () (hb_joined h)\<rparr>)"

definition hub_Leave :: "string \<Rightarrow> World_Hub \<Rightarrow> World_Hub" where
  "hub_Leave sid h = (if hb_done h then h else h\<lparr>hb_joined := map_del sid (hb_joined h)\<rparr>)"

text \<open>\<open>None\<close>: the channel is full and the publisher waits.  A closed hub drops the publication.\<close>

definition hub_Publish :: "Publication \<Rightarrow> World_Hub \<Rightarrow> World_Hub option" where
  "hub_Publish p h =
     (if hb_done h then Some h
      else if length (hb_queue h) < publishCap then Some (h\<lparr>hb_queue := hb_queue h @ [p]\<rparr>)
      else None)"

definition hub_Sessions :: "World_Hub \<Rightarrow> Session list" where
  "hub_Sessions h = (if hb_done h then [] else List.map_filter (\<lambda>(sid, _). map_of (hb_store h) sid) (hb_joined h))"

definition hub_quit :: "string list \<Rightarrow> World_Hub \<Rightarrow> World_Hub" where
  "hub_quit ids h = (fold close_one ids h)\<lparr>hb_done := True\<rparr>"

text \<open>The first publication waiting is taken and fanned out.\<close>

definition hub_dispatch :: "string list \<Rightarrow> World_Hub \<Rightarrow> World_Hub option" where
  "hub_dispatch ids h =
     (if hb_done h then None
      else case hb_queue h of [] \<Rightarrow> None | p # rest \<Rightarrow> Some (fanOut ids p (h\<lparr>hb_queue := rest\<rparr>)))"

text \<open>A new connection has a session object before it joins.\<close>

definition hub_create :: "Session \<Rightarrow> World_Hub \<Rightarrow> World_Hub" where
  "hub_create s h = h\<lparr>hb_store := map_put (ss_id s) s (hb_store h)\<rparr>"

section \<open>What a fan-out does to one session\<close>

definition joined :: "World_Hub \<Rightarrow> string \<Rightarrow> bool" where
  "joined h sid \<longleftrightarrow> map_of (hb_joined h) sid \<noteq> None"

definition dropped :: "Publication \<Rightarrow> string \<Rightarrow> Session \<Rightarrow> bool" where
  "dropped p sid s \<longleftrightarrow>
     (case frame_for p sid s of None \<Rightarrow> False | Some f \<Rightarrow> (case fst (deliver p f s) of Inl _ \<Rightarrow> True | Inr _ \<Rightarrow> False))"

definition after_fan :: "Publication \<Rightarrow> string \<Rightarrow> Session \<Rightarrow> Session" where
  "after_fan p sid s =
     (case frame_for p sid s of
        None \<Rightarrow> s
      | Some f \<Rightarrow>
          (let s' = snd (deliver p f s)
           in if dropped p sid s then CloseWithResync ''slow consumer'' (ss_lastSeq s') s' else s'))"

lemma fan_one_store:
  "map_of (hb_store (fan_one p sid h)) = (\<lambda>i. if i = sid then map_option (after_fan p sid) (map_of (hb_store h) sid) else map_of (hb_store h) i)"
  by (rule ext) (auto simp: fan_one_def after_fan_def dropped_def Let_def split: option.splits prod.splits sum.splits)

lemma fan_one_joined:
  "joined (fan_one p sid h) i \<longleftrightarrow> joined h i \<and>
     (i = sid \<longrightarrow> (case map_of (hb_store h) sid of None \<Rightarrow> True | Some s \<Rightarrow> \<not> dropped p sid s))"
  by (auto simp: fan_one_def joined_def dropped_def split: option.splits prod.splits sum.splits)

lemma fanOut_store:
  assumes "distinct ids"
  shows "map_of (hb_store (fanOut ids p h)) i =
    (if i \<in> set ids then map_option (after_fan p i) (map_of (hb_store h) i) else map_of (hb_store h) i)"
  using assms unfolding fanOut_def
  by (induction ids arbitrary: h) (auto simp: fan_one_store)

lemma fanOut_joined:
  assumes "distinct ids"
  shows "joined (fanOut ids p h) i \<longleftrightarrow> joined h i \<and>
    (i \<in> set ids \<longrightarrow> (case map_of (hb_store h) i of None \<Rightarrow> True | Some s \<Rightarrow> \<not> dropped p i s))"
  using assms unfolding fanOut_def
  by (induction ids arbitrary: h) (auto simp: fan_one_store fan_one_joined)

lemma fan_one_same: "hb_worldID (fan_one p sid h) = hb_worldID h" "hb_queue (fan_one p sid h) = hb_queue h"
  "hb_done (fan_one p sid h) = hb_done h"
  by (auto simp: fan_one_def split: option.splits prod.splits sum.splits)

lemma fanOut_same: "hb_worldID (fanOut ids p h) = hb_worldID h" "hb_queue (fanOut ids p h) = hb_queue h"
  "hb_done (fanOut ids p h) = hb_done h"
  unfolding fanOut_def by (induction ids arbitrary: h) (simp_all add: fan_one_same)

lemma fanOut_order:
  assumes "distinct ids" "distinct ids'" "set ids = set ids'"
  shows "map_of (hb_store (fanOut ids p h)) = map_of (hb_store (fanOut ids' p h))"
    "joined (fanOut ids p h) = joined (fanOut ids' p h)"
  by (rule ext; simp add: assms fanOut_store fanOut_joined)+

lemma frame_for_Some:
  "frame_for p sid s = Some f \<longleftrightarrow>
     sid \<noteq> pb_Exclude p \<and> Subscribed s (pb_Channel p) \<and> (pb_Audience p = [] \<or> ss_userID s \<in> set (pb_Audience p)) \<and>
     (case pb_PerUser p of None \<Rightarrow> f = pb_Frame p | Some frames \<Rightarrow> map_of frames (ss_userID s) = Some f)"
  by (auto simp: frame_for_def allows_def list_ex_iff split: option.splits)

lemma CloseWithResync_fields [simp]:
  "ss_id (CloseWithResync r n s) = ss_id s" "ss_userID (CloseWithResync r n s) = ss_userID s"
  "ss_worldID (CloseWithResync r n s) = ss_worldID s" "ss_lastSeq (CloseWithResync r n s) = ss_lastSeq s"
  "ss_subscriptions (CloseWithResync r n s) = ss_subscriptions s" "o_closed (ss_outbox (CloseWithResync r n s))"
  by (auto simp: CloseWithResync_def outbox_Close_def wake_def)

lemma deliver_fields [simp]:
  "ss_id (snd (deliver p f s)) = ss_id s" "ss_userID (snd (deliver p f s)) = ss_userID s"
  "ss_worldID (snd (deliver p f s)) = ss_worldID s" "ss_lastSeq (snd (deliver p f s)) = ss_lastSeq s"
  "ss_subscriptions (snd (deliver p f s)) = ss_subscriptions s"
  by (auto simp: deliver_def)

lemma deliver_lastSeq: "deliver p f s = (r, t) \<Longrightarrow> ss_lastSeq t = ss_lastSeq s"
  using deliver_fields(4) [of p f s] by simp

lemma deliver_ok: "outbox_ok (ss_outbox s) \<Longrightarrow> outbox_ok (ss_outbox (snd (deliver p f s)))"
  by (simp add: deliver_def PushEphemeral_ok outbox_others_ok)

lemma CloseWithResync_ok: "outbox_ok (ss_outbox s) \<Longrightarrow> outbox_ok (ss_outbox (CloseWithResync r n s))"
  by (simp add: CloseWithResync_def outbox_others_ok)

lemma after_fan_fields [simp]:
  "ss_id (after_fan p i s) = ss_id s" "ss_userID (after_fan p i s) = ss_userID s"
  "ss_worldID (after_fan p i s) = ss_worldID s" "ss_lastSeq (after_fan p i s) = ss_lastSeq s"
  by (auto simp: after_fan_def Let_def split: option.splits)

lemma after_fan_ok: "outbox_ok (ss_outbox s) \<Longrightarrow> outbox_ok (ss_outbox (after_fan p i s))"
  by (auto simp: after_fan_def Let_def deliver_ok CloseWithResync_ok split: option.splits)

section \<open>The registry of hubs\<close>

type_synonym Registry = "World_Hub gomap"

definition NewRegistry :: Registry where "NewRegistry = []"

definition registry_Hub :: "ID \<Rightarrow> Registry \<Rightarrow> World_Hub \<times> Registry" where
  "registry_Hub worldID r =
     (case map_of r worldID of
        Some hub \<Rightarrow> (hub, r)
      | None \<Rightarrow> (NewHub worldID, map_put worldID (NewHub worldID) r))"

definition registry_Close :: "Registry \<Rightarrow> World_Hub list \<times> Registry" where
  "registry_Close r = (map (\<lambda>(_, hub). hub_quit (map fst (hb_joined hub)) hub) r, [])"

definition registry_ok :: "Registry \<Rightarrow> bool" where
  "registry_ok r \<longleftrightarrow> is_gomap r \<and> (\<forall>wid hub. map_of r wid = Some hub \<longrightarrow> hb_worldID hub = wid)"

lemma registry_Hub_ok: "registry_ok r \<Longrightarrow> registry_ok (snd (registry_Hub wid r))"
  by (auto simp: registry_ok_def registry_Hub_def NewHub_def split: option.splits)

text \<open>One hub per world: asking again gives the hub the first call gave.\<close>

lemma registry_Hub_again:
  assumes "registry_Hub wid r = (hub, r')" and "registry_ok r"
  shows "registry_Hub wid r' = (hub, r')" "hb_worldID hub = wid"
    and "other \<noteq> wid \<Longrightarrow> map_of r' other = map_of r other"
  using assms by (auto simp: registry_Hub_def registry_ok_def NewHub_def split: option.splits)

section \<open>The property of the hub\<close>

text \<open>
  C7: a publication reaches exactly the sessions it is meant for.  A session that has not joined,
  is excluded, has not subscribed to the channel, is outside the audience or, for a publication
  projected per user, has no projection, is left untouched; every other session gets its own
  frame in the lane of the publication, or, when its outbox refuses, a closing resync frame, and
  is removed.  The order in which the map is traversed does not matter.
\<close>

theorem fan_out_exact:
  assumes "distinct ids" and "set ids = {i. joined h i}" and "map_of (hb_store h) sid = Some s"
  shows "\<exists>s'. map_of (hb_store (fanOut ids p h)) sid = Some s' \<and>
    (if joined h sid \<and> sid \<noteq> pb_Exclude p \<and> Subscribed s (pb_Channel p) \<and>
        (pb_Audience p = [] \<or> ss_userID s \<in> set (pb_Audience p)) \<and>
        (case pb_PerUser p of None \<Rightarrow> True | Some frames \<Rightarrow> map_of frames (ss_userID s) \<noteq> None)
     then let f = (case pb_PerUser p of None \<Rightarrow> pb_Frame p | Some frames \<Rightarrow> the (map_of frames (ss_userID s)))
          in case deliver p f s of
               (Inr _, t) \<Rightarrow> s' = t \<and> joined (fanOut ids p h) sid
             | (Inl _, t) \<Rightarrow> s' = CloseWithResync ''slow consumer'' (ss_lastSeq s) t \<and>
                 \<not> joined (fanOut ids p h) sid \<and> o_closed (ss_outbox s')
     else s' = s \<and> joined (fanOut ids p h) sid = joined h sid)"
proof (cases "joined h sid")
  case False
  then show ?thesis using assms by (simp add: fanOut_store fanOut_joined)
next
  case True
  then have "map_of (hb_store (fanOut ids p h)) sid = Some (after_fan p sid s)"
    "joined (fanOut ids p h) sid \<longleftrightarrow> \<not> dropped p sid s"
    using assms by (auto simp: fanOut_store fanOut_joined)
  with True show ?thesis
    by (cases "frame_for p sid s")
      (auto simp: after_fan_def dropped_def Let_def frame_for_def allows_def list_ex_iff
        dest: deliver_lastSeq split: option.splits if_splits prod.splits sum.splits)
qed

definition sample_session :: "string \<Rightarrow> ID \<Rightarrow> Session" where
  "sample_session sid uid = Subscribe [''world:w''] ((NewSession sid 4 4)\<lparr>ss_userID := uid, ss_worldID := ''w''\<rparr>)"

definition sample_hub :: World_Hub where
  "sample_hub = hub_Join ''s2'' (hub_Join ''s1'' (hub_create (sample_session ''s2'' ''p'')
     (hub_create (sample_session ''s1'' ''g'') (NewHub ''w''))))"

definition sample_publication :: Publication where
  "sample_publication = zero_publication\<lparr>pb_Channel := ''world:w'', pb_Lane := LaneDocument,
     pb_PerUser := Some [(''p'', errorFrame 7 [] [])]\<rparr>"

lemma sample_hub_lookup:
  "set [''s1'', ''s2''] = {i. joined sample_hub i}" "map_of (hb_store sample_hub) ''s2'' = Some (sample_session ''s2'' ''p'')"
  by (auto simp: sample_hub_def joined_def hub_Join_def hub_create_def NewHub_def sample_session_def Subscribe_def
      NewSession_def split: if_splits)

theorem fan_out_exact_witness:
  "\<exists>s'. map_of (hb_store (fanOut [''s1'', ''s2''] sample_publication sample_hub)) ''s2'' = Some s'"
  using fan_out_exact [OF _ sample_hub_lookup, of sample_publication] by auto

end
