(* ===== verification/Vision.thy ===== *)
theory Vision
  imports Float64
begin

text \<open>
  Line of sight (\<open>internal/core/vision/vision.go\<close>).  Coordinates are \<open>float64\<close>; a point on a
  wall counts as blocked, up to an \<open>epsilon\<close>.
\<close>

record Point =
  pt_X :: f64
  pt_Y :: f64

record Segment =
  seg_A :: Point
  seg_B :: Point

text \<open>The constant \<open>1e-9\<close>, converted to a \<open>float64\<close> where it is used.\<close>

definition epsilon :: f64 where
  "epsilon = fl (1 / 1000000000)"

definition vis_abs :: "f64 \<Rightarrow> f64" where
  "vis_abs value = (if f_less value (Fin 0) then f_neg value else value)"

definition vis_min :: "f64 \<Rightarrow> f64 \<Rightarrow> f64" where
  "vis_min a b = (if f_less a b then a else b)"

definition vis_max :: "f64 \<Rightarrow> f64 \<Rightarrow> f64" where
  "vis_max a b = (if f_less b a then a else b)"

definition orientation :: "Point \<Rightarrow> Point \<Rightarrow> Point \<Rightarrow> f64" where
  "orientation a b c =
     f_sub (f_mul (f_sub (pt_X b) (pt_X a)) (f_sub (pt_Y c) (pt_Y a)))
           (f_mul (f_sub (pt_Y b) (pt_Y a)) (f_sub (pt_X c) (pt_X a)))"

definition onSegment :: "Point \<Rightarrow> Point \<Rightarrow> Point \<Rightarrow> bool" where
  "onSegment a b c \<longleftrightarrow>
     f_le (pt_X c) (f_add (vis_max (pt_X a) (pt_X b)) epsilon) \<and>
     f_le (f_sub (vis_min (pt_X a) (pt_X b)) epsilon) (pt_X c) \<and>
     f_le (pt_Y c) (f_add (vis_max (pt_Y a) (pt_Y b)) epsilon) \<and>
     f_le (f_sub (vis_min (pt_Y a) (pt_Y b)) epsilon) (pt_Y c)"

definition opposite :: "f64 \<Rightarrow> f64 \<Rightarrow> bool" where
  "opposite d1 d2 \<longleftrightarrow>
     (f_less epsilon d1 \<and> f_less d2 (f_neg epsilon)) \<or> (f_less d1 (f_neg epsilon) \<and> f_less epsilon d2)"

definition Crosses :: "Segment \<Rightarrow> Segment \<Rightarrow> bool" where
  "Crosses one other =
     (let d1 = orientation (seg_A one) (seg_B one) (seg_A other);
          d2 = orientation (seg_A one) (seg_B one) (seg_B other);
          d3 = orientation (seg_A other) (seg_B other) (seg_A one);
          d4 = orientation (seg_A other) (seg_B other) (seg_B one)
      in if opposite d1 d2 \<and> opposite d3 d4 then True
         else if f_le (vis_abs d1) epsilon \<and> onSegment (seg_A one) (seg_B one) (seg_A other) then True
         else if f_le (vis_abs d2) epsilon \<and> onSegment (seg_A one) (seg_B one) (seg_B other) then True
         else if f_le (vis_abs d3) epsilon \<and> onSegment (seg_A other) (seg_B other) (seg_A one) then True
         else if f_le (vis_abs d4) epsilon \<and> onSegment (seg_A other) (seg_B other) (seg_B one) then True
         else False)"

definition Visible :: "Point \<Rightarrow> Point \<Rightarrow> Segment list \<Rightarrow> bool" where
  "Visible from to blockers \<longleftrightarrow> \<not> list_ex (Crosses \<lparr>seg_A = from, seg_B = to\<rparr>) blockers"

definition VisibleFromAny :: "Point list \<Rightarrow> Point \<Rightarrow> Segment list \<Rightarrow> bool" where
  "VisibleFromAny viewpoints to blockers =
     (if viewpoints = [] then True else list_ex (\<lambda>viewpoint. Visible viewpoint to blockers) viewpoints)"

section \<open>Segments of the plane\<close>

text \<open>The exact test over the rationals, and what it is to have a point in common.\<close>

type_synonym pt = "rat \<times> rat"

definition orient :: "pt \<Rightarrow> pt \<Rightarrow> pt \<Rightarrow> rat" where
  "orient a b c = (fst b - fst a) * (snd c - snd a) - (snd b - snd a) * (fst c - fst a)"

definition in_box :: "pt \<Rightarrow> pt \<Rightarrow> pt \<Rightarrow> bool" where
  "in_box a b c \<longleftrightarrow> min (fst a) (fst b) \<le> fst c \<and> fst c \<le> max (fst a) (fst b) \<and>
     min (snd a) (snd b) \<le> snd c \<and> snd c \<le> max (snd a) (snd b)"

definition apart :: "rat \<Rightarrow> rat \<Rightarrow> bool" where
  "apart d e \<longleftrightarrow> (0 < d \<and> e < 0) \<or> (d < 0 \<and> 0 < e)"

definition crosses_exact :: "pt \<Rightarrow> pt \<Rightarrow> pt \<Rightarrow> pt \<Rightarrow> bool" where
  "crosses_exact a b c d \<longleftrightarrow>
     (apart (orient a b c) (orient a b d) \<and> apart (orient c d a) (orient c d b)) \<or>
     (orient a b c = 0 \<and> in_box a b c) \<or> (orient a b d = 0 \<and> in_box a b d) \<or>
     (orient c d a = 0 \<and> in_box c d a) \<or> (orient c d b = 0 \<and> in_box c d b)"

definition on_line :: "pt \<Rightarrow> pt \<Rightarrow> rat \<Rightarrow> pt" where
  "on_line a b t = (fst a + t * (fst b - fst a), snd a + t * (snd b - snd a))"

definition meets :: "pt \<Rightarrow> pt \<Rightarrow> pt \<Rightarrow> pt \<Rightarrow> bool" where
  "meets a b c d \<longleftrightarrow> (\<exists>s t. 0 \<le> s \<and> s \<le> 1 \<and> 0 \<le> t \<and> t \<le> 1 \<and> on_line a b s = on_line c d t)"

lemma meets_sym: "meets a b c d \<longleftrightarrow> meets c d a b"
  by (auto simp: meets_def) metis+

lemma between_iff: "min a b \<le> x \<and> x \<le> max a b \<longleftrightarrow> (\<exists>t. 0 \<le> t \<and> t \<le> 1 \<and> x = a + t * (b - a))" for a b x :: rat
proof
  assume x: "min a b \<le> x \<and> x \<le> max a b"
  show "\<exists>t. 0 \<le> t \<and> t \<le> 1 \<and> x = a + t * (b - a)"
  proof (cases "a = b")
    case True
    with x show ?thesis by (intro exI [of _ 0]) auto
  next
    case False
    have "0 \<le> (x - a) / (b - a) \<and> (x - a) / (b - a) \<le> 1"
      using x False by (auto simp: min_def max_def divide_le_eq zero_le_divide_iff split: if_splits)
    with False show ?thesis by (intro exI [of _ "(x - a) / (b - a)"]) auto
  qed
next
  assume "\<exists>t. 0 \<le> t \<and> t \<le> 1 \<and> x = a + t * (b - a)"
  then obtain t where t: "0 \<le> t" "t \<le> 1" and x: "x = a + t * (b - a)" by blast
  show "min a b \<le> x \<and> x \<le> max a b"
  proof (cases "a \<le> b")
    case True
    then have "0 \<le> t * (b - a)" "t * (b - a) \<le> b - a"
      using t mult_left_le_one_le [of "b - a" t] by auto
    then show ?thesis using True by (simp add: x)
  next
    case False
    then have "0 \<le> t * (a - b)" "t * (a - b) \<le> a - b"
      using t mult_left_le_one_le [of "a - b" t] by auto
    then show ?thesis using False by (simp add: x algebra_simps)
  qed
qed

text \<open>A point on the line through two points and in their box is on the segment.\<close>

lemma on_segment_iff:
  "orient a b c = 0 \<and> in_box a b c \<longleftrightarrow> (\<exists>t. 0 \<le> t \<and> t \<le> 1 \<and> c = on_line a b t)"
proof
  assume h: "orient a b c = 0 \<and> in_box a b c"
  then obtain t u where t: "0 \<le> t" "t \<le> 1" "fst c = fst a + t * (fst b - fst a)"
    and u: "0 \<le> u" "u \<le> 1" "snd c = snd a + u * (snd b - snd a)"
    using between_iff [of "fst a" "fst b" "fst c"] between_iff [of "snd a" "snd b" "snd c"]
    by (auto simp: in_box_def)
  have "(fst b - fst a) * (snd b - snd a) * (u - t) = 0"
    using h t(3) u(3) by (simp add: orient_def algebra_simps)
  then consider "fst b = fst a" | "snd b = snd a" | "u = t" by auto
  then show "\<exists>t. 0 \<le> t \<and> t \<le> 1 \<and> c = on_line a b t"
  proof cases
    case 1
    then show ?thesis using t u by (intro exI [of _ u]) (auto simp: on_line_def prod_eq_iff)
  next
    case 2
    then show ?thesis using t u by (intro exI [of _ t]) (auto simp: on_line_def prod_eq_iff)
  next
    case 3
    then show ?thesis using t u by (intro exI [of _ t]) (auto simp: on_line_def prod_eq_iff)
  qed
next
  assume "\<exists>t. 0 \<le> t \<and> t \<le> 1 \<and> c = on_line a b t"
  then obtain t where t: "0 \<le> t" "t \<le> 1" "c = on_line a b t" by blast
  have "orient a b c = 0" by (simp add: t(3) orient_def on_line_def algebra_simps)
  moreover have "in_box a b c"
    using between_iff [of "fst a" "fst b" "fst c"] between_iff [of "snd a" "snd b" "snd c"] t
    unfolding in_box_def on_line_def by fastforce
  ultimately show "orient a b c = 0 \<and> in_box a b c" by blast
qed

lemma on_line_ends [simp]: "on_line a b 0 = a" "on_line a b 1 = b"
  by (simp_all add: on_line_def)

lemma orient_on_line: "orient a b (on_line c d t) = (1 - t) * orient a b c + t * orient a b d"
  by (simp add: orient_def on_line_def algebra_simps)

lemma apart_weight:
  assumes "apart x y"
  shows "0 < x / (x - y) \<and> x / (x - y) < 1 \<and> (1 - x / (x - y)) * x + x / (x - y) * y = 0"
proof -
  have ne: "x - y \<noteq> 0" using assms by (auto simp: apart_def)
  have "0 < x / (x - y) \<and> x / (x - y) < 1"
    using assms by (auto simp: apart_def divide_less_eq zero_less_divide_iff)
  moreover have "(1 - x / (x - y)) * x + x / (x - y) * y = 0" using ne by (simp add: field_simps)
  ultimately show ?thesis by blast
qed

text \<open>Two points of one line, both at orientation zero to a line of another direction, coincide.\<close>

lemma proper_crossing:
  assumes "apart (orient a b c) (orient a b d)" and "apart (orient c d a) (orient c d b)"
  shows "meets a b c d"
proof -
  let ?t = "orient a b c / (orient a b c - orient a b d)"
  let ?s = "orient c d a / (orient c d a - orient c d b)"
  let ?D = "(fst b - fst a) * (snd d - snd c) - (snd b - snd a) * (fst d - fst c)"
  have D: "orient a b d - orient a b c = ?D" "orient c d a - orient c d b = ?D"
    by (simp_all add: orient_def algebra_simps)
  have ne: "?D \<noteq> 0" using assms(1) D(1) by (auto simp: apart_def)
  have "on_line a b ?s = on_line c d ?t"
  proof -
    have t: "?t = - orient a b c / ?D" using D(1) by (metis minus_diff_eq minus_divide_divide minus_divide_left minus_divide_right)
    have s: "?s = orient c d a / ?D" using D(2) by simp
    have "?D * fst (on_line a b ?s) = ?D * fst (on_line c d ?t)"
      unfolding t s on_line_def using ne by (simp add: field_simps) (simp add: orient_def algebra_simps)
    moreover have "?D * snd (on_line a b ?s) = ?D * snd (on_line c d ?t)"
      unfolding t s on_line_def using ne by (simp add: field_simps) (simp add: orient_def algebra_simps)
    ultimately show ?thesis using ne by (simp add: prod_eq_iff)
  qed
  then show ?thesis
    using apart_weight [OF assms(1)] apart_weight [OF assms(2)] unfolding meets_def
    by (intro exI [of _ ?s] exI [of _ ?t]) auto
qed

lemma end_meets:
  "orient a b c = 0 \<and> in_box a b c \<Longrightarrow> meets a b c d"
  "orient a b d = 0 \<and> in_box a b d \<Longrightarrow> meets a b c d"
proof -
  have "on_line c d 0 = c" "on_line c d 1 = d" by simp_all
  moreover have "(0::rat) \<le> 1" by simp
  ultimately show "orient a b c = 0 \<and> in_box a b c \<Longrightarrow> meets a b c d"
    "orient a b d = 0 \<and> in_box a b d \<Longrightarrow> meets a b c d"
    unfolding on_segment_iff meets_def by (metis order.refl)+
qed

lemma crosses_meets: "crosses_exact a b c d \<Longrightarrow> meets a b c d"
  using proper_crossing end_meets meets_sym [of a b c d]
  unfolding crosses_exact_def by blast

text \<open>The other direction: a common point that is interior to both segments of one line.\<close>

lemma collinear_param:
  assumes "a \<noteq> b" and "orient a b c = 0"
  shows "\<exists>k. c = on_line a b k"
proof (cases "fst a = fst b")
  case False
  let ?k = "(fst c - fst a) / (fst b - fst a)"
  have "snd c - snd a = ?k * (snd b - snd a)"
    using assms(2) False by (simp add: orient_def field_simps)
  then show ?thesis using False by (intro exI [of _ ?k]) (auto simp: on_line_def prod_eq_iff)
next
  case True
  then have ne: "snd b - snd a \<noteq> 0" using assms(1) by (simp add: prod_eq_iff)
  let ?k = "(snd c - snd a) / (snd b - snd a)"
  have "fst c = fst a" using assms(2) True ne by (simp add: orient_def)
  then show ?thesis using True ne by (intro exI [of _ ?k]) (auto simp: on_line_def prod_eq_iff)
qed

lemma on_line_inject: "a \<noteq> b \<Longrightarrow> on_line a b s = on_line a b t \<Longrightarrow> s = t"
  by (auto simp: on_line_def prod_eq_iff)

lemma on_line_comp: "on_line (on_line a b x) (on_line a b y) t = on_line a b (x + t * (y - x))"
  by (simp add: on_line_def algebra_simps)

lemma weight_pos: "0 \<le> t \<Longrightarrow> t \<le> 1 \<Longrightarrow> 0 < x \<Longrightarrow> 0 < y \<Longrightarrow> 0 < (1 - t) * x + t * y" for t x y :: rat
  by (cases "t = 0") (auto intro: add_nonneg_pos)

lemma collinear_meets:
  assumes "orient a b c = 0" "orient a b d = 0" "0 \<le> s" "s \<le> 1" "0 \<le> t" "t \<le> 1" "on_line a b s = on_line c d t"
  shows "crosses_exact a b c d"
proof (cases "a = b")
  case True
  have "on_line a a s = a" by (simp add: on_line_def)
  then have "a = on_line c d t" using assms(7) True by simp
  then show ?thesis unfolding crosses_exact_def on_segment_iff using assms(5,6) by blast
next
  case False
  obtain x y where x: "c = on_line a b x" and y: "d = on_line a b y"
    using collinear_param [OF False] assms(1,2) by blast
  have st: "s = x + t * (y - x)"
    using assms(7) on_line_inject [OF False] unfolding x y on_line_comp by blast
  consider "0 \<le> x \<and> x \<le> 1" | "0 \<le> y \<and> y \<le> 1" | "x < 0 \<and> 1 < y" | "1 < x \<and> y < 0" | "x < 0 \<and> y < 0" | "1 < x \<and> 1 < y"
    by linarith
  then show ?thesis
  proof cases
    case 1
    then show ?thesis unfolding crosses_exact_def on_segment_iff using x by blast
  next
    case 2
    then show ?thesis unfolding crosses_exact_def on_segment_iff using y by blast
  next
    case 3
    then have "0 \<le> x / (x - y)" "x / (x - y) \<le> 1" "x + x / (x - y) * (y - x) = 0"
      by (auto simp: divide_le_eq zero_le_divide_iff field_simps)
    then have "a = on_line c d (x / (x - y))" "0 \<le> x / (x - y)" "x / (x - y) \<le> 1"
      unfolding x y on_line_comp by simp_all
    then show ?thesis unfolding crosses_exact_def on_segment_iff by blast
  next
    case 4
    then have "0 \<le> x / (x - y)" "x / (x - y) \<le> 1" "x + x / (x - y) * (y - x) = 0"
      by (auto simp: divide_le_eq zero_le_divide_iff field_simps)
    then have "a = on_line c d (x / (x - y))" "0 \<le> x / (x - y)" "x / (x - y) \<le> 1"
      unfolding x y on_line_comp by simp_all
    then show ?thesis unfolding crosses_exact_def on_segment_iff by blast
  next
    case 5
    have "- s = (1 - t) * (- x) + t * (- y)" using st by (simp add: algebra_simps)
    moreover have "(1 - t) * (- x) + t * (- y) > 0"
      using 5 assms(5,6) by (intro weight_pos) auto
    ultimately show ?thesis using assms(3) by linarith
  next
    case 6
    have "s - 1 = (1 - t) * (x - 1) + t * (y - 1)" using st by (simp add: algebra_simps)
    moreover have "(1 - t) * (x - 1) + t * (y - 1) > 0"
      using 6 assms(5,6) by (intro weight_pos) auto
    ultimately show ?thesis using assms(4) by linarith
  qed
qed

lemma weighted_zero:
  fixes t x y :: rat
  assumes "(1 - t) * x + t * y = 0" "0 < t" "t < 1"
  shows "apart x y \<or> (x = 0 \<and> y = 0)"
proof -
  consider "x = 0" | "0 < x" | "x < 0" by linarith
  then show ?thesis
  proof cases
    case 2
    then have "0 < (1 - t) * x" using assms(3) by simp
    then have "t * y < 0" using assms(1) by linarith
    then have "y < 0" using assms(2) by (simp add: mult_less_0_iff)
    with 2 show ?thesis by (simp add: apart_def)
  next
    case 3
    then have "(1 - t) * x < 0" using assms(3) by (simp add: mult_less_0_iff)
    then have "0 < t * y" using assms(1) by linarith
    then have "0 < y" using assms(2) by (simp add: zero_less_mult_iff)
    with 3 show ?thesis by (simp add: apart_def)
  qed (use assms in auto)
qed

lemma meets_crosses:
  assumes "meets a b c d"
  shows "crosses_exact a b c d"
proof -
  obtain s t where st: "0 \<le> s" "s \<le> 1" "0 \<le> t" "t \<le> 1" and p: "on_line a b s = on_line c d t"
    using assms by (auto simp: meets_def)
  have 1: "(1 - t) * orient a b c + t * orient a b d = 0"
    using orient_on_line [of a b c d t] orient_on_line [of a b a b s] p by (simp add: orient_def)
  have 2: "(1 - s) * orient c d a + s * orient c d b = 0"
    using orient_on_line [of c d a b s] orient_on_line [of c d c d t] p by (simp add: orient_def)
  consider "t = 0" | "t = 1" | "s = 0" | "s = 1" | "0 < t" "t < 1" "0 < s" "s < 1"
    using st by linarith
  then show ?thesis
  proof cases
    case 5
    consider "apart (orient a b c) (orient a b d)" "apart (orient c d a) (orient c d b)"
      | "orient a b c = 0" "orient a b d = 0" | "orient c d a = 0" "orient c d b = 0"
      using weighted_zero [OF 1 5(1,2)] weighted_zero [OF 2 5(3,4)] by blast
    then show ?thesis
    proof cases
      case 2
      then show ?thesis using collinear_meets st p by blast
    next
      case 3
      then have "crosses_exact c d a b" using collinear_meets [of c d a b t s] st p by simp
      then show ?thesis by (auto simp: crosses_exact_def)
    qed (simp add: crosses_exact_def)
  qed (use st p on_segment_iff in \<open>auto simp: crosses_exact_def\<close>)
qed

lemma crosses_exact_iff: "crosses_exact a b c d \<longleftrightarrow> meets a b c d"
  using crosses_meets meets_crosses by blast

section \<open>Whole coordinates\<close>

text \<open>
  On a grid of whole coordinates below \<open>2 ^ 24\<close> in magnitude every difference and product of
  the test is exact, and the tolerance decides nothing.
\<close>

definition grid :: "int \<times> int \<Rightarrow> bool" where
  "grid p \<longleftrightarrow> \<bar>fst p\<bar> < 2 ^ 24 \<and> \<bar>snd p\<bar> < 2 ^ 24"

definition point_at :: "int \<times> int \<Rightarrow> Point" where
  "point_at p = \<lparr>pt_X = Fin (of_int (fst p)), pt_Y = Fin (of_int (snd p))\<rparr>"

definition pt_at :: "int \<times> int \<Rightarrow> pt" where
  "pt_at p = (of_int (fst p), of_int (snd p))"

lemma epsilon_Fin: "\<exists>e. epsilon = Fin e \<and> 0 < e \<and> e < 1 / 2"
proof -
  have "case epsilon of Fin e \<Rightarrow> 0 < e \<and> e < 1 / 2 | _ \<Rightarrow> False" by code_simp
  then show ?thesis by (auto split: f64.splits)
qed

lemma f_sub_int:
  "\<bar>a\<bar> < 2 ^ 52 \<Longrightarrow> \<bar>b\<bar> < 2 ^ 52 \<Longrightarrow> f_sub (Fin (of_int a)) (Fin (of_int b)) = Fin (of_int (a - b))"
  using fl_of_int [of "a - b"] by (simp add: f_sub_def)

lemma f_mul_int:
  "\<bar>a\<bar> < 2 ^ 26 \<Longrightarrow> \<bar>b\<bar> < 2 ^ 26 \<Longrightarrow> f_mul (Fin (of_int a)) (Fin (of_int b)) = Fin (of_int (a * b))"
proof -
  assume "\<bar>a\<bar> < 2 ^ 26" "\<bar>b\<bar> < 2 ^ 26"
  then have "\<bar>a * b\<bar> < 2 ^ 26 * 2 ^ 26" unfolding abs_mult by (intro mult_strict_mono') auto
  then have "fl (of_int (a * b)) = Fin (of_int (a * b))" by (intro fl_of_int) simp
  then show ?thesis by simp
qed

definition orient_int :: "int \<times> int \<Rightarrow> int \<times> int \<Rightarrow> int \<times> int \<Rightarrow> int" where
  "orient_int a b c = (fst b - fst a) * (snd c - snd a) - (snd b - snd a) * (fst c - fst a)"

lemma orient_int_of: "orient (pt_at a) (pt_at b) (pt_at c) = of_int (orient_int a b c)"
  by (simp add: orient_def orient_int_def pt_at_def)

lemma orientation_grid:
  assumes "grid a" "grid b" "grid c"
  shows "orientation (point_at a) (point_at b) (point_at c) = Fin (of_int (orient_int a b c))"
proof -
  have d: "\<bar>fst b - fst a\<bar> < 2 ^ 25" "\<bar>snd c - snd a\<bar> < 2 ^ 25" "\<bar>snd b - snd a\<bar> < 2 ^ 25" "\<bar>fst c - fst a\<bar> < 2 ^ 25"
    using assms by (auto simp: grid_def)
  have "\<bar>(fst b - fst a) * (snd c - snd a)\<bar> < 2 ^ 25 * 2 ^ 25" "\<bar>(snd b - snd a) * (fst c - fst a)\<bar> < 2 ^ 25 * 2 ^ 25"
    unfolding abs_mult using d by (intro mult_strict_mono'; simp)+
  then have p: "f_sub (Fin (of_int ((fst b - fst a) * (snd c - snd a)))) (Fin (of_int ((snd b - snd a) * (fst c - fst a)))) =
      Fin (of_int (orient_int a b c))"
    unfolding orient_int_def by (intro f_sub_int) auto
  have "f_sub (Fin (of_int u)) (Fin (of_int v)) = Fin (of_int (u - v))" if "\<bar>u\<bar> < 2 ^ 24" "\<bar>v\<bar> < 2 ^ 24" for u v
    using that by (intro f_sub_int) auto
  then show ?thesis
    using assms d p f_mul_int [of "fst b - fst a" "snd c - snd a"] f_mul_int [of "snd b - snd a" "fst c - fst a"]
    unfolding orientation_def point_at_def grid_def by (simp only: Point.simps) simp
qed

lemma sign_grid:
  "f_less epsilon (Fin (of_int n)) \<longleftrightarrow> 0 < n" "f_less (Fin (of_int n)) (f_neg epsilon) \<longleftrightarrow> n < 0"
  "f_le (vis_abs (Fin (of_int n))) epsilon \<longleftrightarrow> n = 0"
proof -
  obtain e where e: "epsilon = Fin e" "0 < e" "e < 1 / 2" using epsilon_Fin by blast
  have pos: "e < of_int k \<longleftrightarrow> 0 < k" for k
  proof
    assume "0 < k"
    then have "(1 :: rat) \<le> of_int k" by simp
    then show "e < of_int k" using e(3) by linarith
  qed (use e(2) in \<open>metis less_trans of_int_0_less_iff\<close>)
  show "f_less epsilon (Fin (of_int n)) \<longleftrightarrow> 0 < n" using pos [of n] by (simp add: e)
  show "f_less (Fin (of_int n)) (f_neg epsilon) \<longleftrightarrow> n < 0" using pos [of "- n"] by (simp add: e) linarith
  show "f_le (vis_abs (Fin (of_int n))) epsilon \<longleftrightarrow> n = 0"
    using pos [of n] pos [of "- n"] e(2) by (auto simp: vis_abs_def e not_less)
qed

lemma int_below_half: "of_int m \<le> r \<Longrightarrow> r \<le> of_int m + 1 / 2 \<Longrightarrow> of_int c \<le> r \<longleftrightarrow> c \<le> m" for r :: rat
proof
  assume r: "r \<le> of_int m + 1 / 2" "of_int c \<le> r"
  then have "of_int c < (of_int (m + 1) :: rat)" by simp
  then show "c \<le> m" by (simp only: of_int_less_iff)
next
  assume "of_int m \<le> r" "c \<le> m"
  then show "of_int c \<le> r" by (metis of_int_le_iff order_trans)
qed

lemma upper_grid:
  assumes "\<bar>m\<bar> < 2 ^ 24"
  shows "f_le (Fin (of_int c)) (f_add (Fin (of_int m)) epsilon) \<longleftrightarrow> c \<le> m"
proof -
  obtain e where e: "epsilon = Fin e" "0 < e" "e < 1 / 2" using epsilon_Fin by blast
  have m: "\<bar>of_int m :: rat\<bar> < 2 ^ 24" using assms by (metis of_int_abs of_int_less_iff of_int_numeral of_int_power)
  have "\<bar>of_int m + e\<bar> < 2 ^ 52" using m e by simp
  then obtain r where r: "fl (of_int m + e) = Fin r"
    and lo: "\<forall>k. of_int k / 2 \<le> of_int m + e \<longrightarrow> of_int k / 2 \<le> r"
    and hi: "\<forall>k. of_int m + e \<le> of_int k / 2 \<longrightarrow> r \<le> of_int k / 2"
    using fl_halves_ex by blast
  have "of_int m \<le> r" using lo [rule_format, of "2 * m"] e by simp
  moreover have "r \<le> of_int m + 1 / 2" using hi [rule_format, of "2 * m + 1"] e by simp
  ultimately have "of_int c \<le> r \<longleftrightarrow> c \<le> m" using int_below_half [of m r c] by blast
  then show ?thesis by (simp add: e r)
qed

lemma lower_grid:
  assumes "\<bar>m\<bar> < 2 ^ 24"
  shows "f_le (f_sub (Fin (of_int m)) epsilon) (Fin (of_int c)) \<longleftrightarrow> m \<le> c"
proof -
  obtain e where e: "epsilon = Fin e" "0 < e" "e < 1 / 2" using epsilon_Fin by blast
  have m: "\<bar>of_int m :: rat\<bar> < 2 ^ 24" using assms by (metis of_int_abs of_int_less_iff of_int_numeral of_int_power)
  have "\<bar>of_int m - e\<bar> < 2 ^ 52" using m e by simp
  then obtain r where r: "fl (of_int m - e) = Fin r"
    and lo: "\<forall>k. of_int k / 2 \<le> of_int m - e \<longrightarrow> of_int k / 2 \<le> r"
    and hi: "\<forall>k. of_int m - e \<le> of_int k / 2 \<longrightarrow> r \<le> of_int k / 2"
    using fl_halves_ex by blast
  have "r \<le> of_int m" using hi [rule_format, of "2 * m"] e by simp
  moreover have "of_int m - 1 / 2 \<le> r" using lo [rule_format, of "2 * m - 1"] e by simp
  ultimately have "of_int (- c) \<le> - r \<longleftrightarrow> - c \<le> - m" using int_below_half [of "- m" "- r" "- c"] by simp
  then show ?thesis by (simp add: e r f_sub_def)
qed

lemma vis_minmax:
  "vis_max (Fin (of_int a)) (Fin (of_int b)) = Fin (of_int (max a b))"
  "vis_min (Fin (of_int a)) (Fin (of_int b)) = Fin (of_int (min a b))"
  by (auto simp: vis_max_def vis_min_def max_def min_def)

lemma onSegment_grid:
  assumes "grid a" "grid b"
  shows "onSegment (point_at a) (point_at b) (point_at c) \<longleftrightarrow> in_box (pt_at a) (pt_at b) (pt_at c)"
proof -
  have "\<bar>max (fst a) (fst b)\<bar> < 2 ^ 24" "\<bar>min (fst a) (fst b)\<bar> < 2 ^ 24"
    "\<bar>max (snd a) (snd b)\<bar> < 2 ^ 24" "\<bar>min (snd a) (snd b)\<bar> < 2 ^ 24"
    using assms by (auto simp: grid_def max_def min_def)
  note bounds = this
  have "in_box (pt_at a) (pt_at b) (pt_at c) \<longleftrightarrow> min (fst a) (fst b) \<le> fst c \<and> fst c \<le> max (fst a) (fst b) \<and>
     min (snd a) (snd b) \<le> snd c \<and> snd c \<le> max (snd a) (snd b)"
    by (simp add: in_box_def pt_at_def min_le_iff_disj le_max_iff_disj)
  then show ?thesis
    unfolding onSegment_def point_at_def Point.simps vis_minmax upper_grid [OF bounds(1)] upper_grid [OF bounds(3)]
      lower_grid [OF bounds(2)] lower_grid [OF bounds(4)] by blast
qed

lemma Crosses_grid:
  assumes "grid a" "grid b" "grid c" "grid d"
  shows "Crosses \<lparr>seg_A = point_at a, seg_B = point_at b\<rparr> \<lparr>seg_A = point_at c, seg_B = point_at d\<rparr> \<longleftrightarrow>
    meets (pt_at a) (pt_at b) (pt_at c) (pt_at d)"
  unfolding crosses_exact_iff [symmetric] crosses_exact_def orient_int_of apart_def
  using assms
  by (simp add: Crosses_def Let_def opposite_def orientation_grid sign_grid onSegment_grid)

text \<open>For evaluation: on whole coordinates the test is computed exactly.\<close>

definition whole :: "Point \<Rightarrow> (int \<times> int) option" where
  "whole p =
     (case (pt_X p, pt_Y p) of
        (Fin x, Fin y) \<Rightarrow>
          (if of_int \<lfloor>x\<rfloor> = x \<and> of_int \<lfloor>y\<rfloor> = y \<and> grid (\<lfloor>x\<rfloor>, \<lfloor>y\<rfloor>) then Some (\<lfloor>x\<rfloor>, \<lfloor>y\<rfloor>) else None)
      | _ \<Rightarrow> None)"

lemma whole_Some: "whole p = Some a \<Longrightarrow> p = point_at a \<and> grid a"
  by (cases p) (auto simp: whole_def point_at_def split: f64.splits if_splits)

lemma Crosses_code [code]:
  "Crosses one other =
     (case (whole (seg_A one), whole (seg_B one), whole (seg_A other), whole (seg_B other)) of
        (Some a, Some b, Some c, Some d) \<Rightarrow> crosses_exact (pt_at a) (pt_at b) (pt_at c) (pt_at d)
      | _ \<Rightarrow> (let d1 = orientation (seg_A one) (seg_B one) (seg_A other);
          d2 = orientation (seg_A one) (seg_B one) (seg_B other);
          d3 = orientation (seg_A other) (seg_B other) (seg_A one);
          d4 = orientation (seg_A other) (seg_B other) (seg_B one)
      in if opposite d1 d2 \<and> opposite d3 d4 then True
         else if f_le (vis_abs d1) epsilon \<and> onSegment (seg_A one) (seg_B one) (seg_A other) then True
         else if f_le (vis_abs d2) epsilon \<and> onSegment (seg_A one) (seg_B one) (seg_B other) then True
         else if f_le (vis_abs d3) epsilon \<and> onSegment (seg_A other) (seg_B other) (seg_A one) then True
         else if f_le (vis_abs d4) epsilon \<and> onSegment (seg_A other) (seg_B other) (seg_B one) then True
         else False))"
proof (cases "\<exists>a b c d. whole (seg_A one) = Some a \<and> whole (seg_B one) = Some b \<and>
    whole (seg_A other) = Some c \<and> whole (seg_B other) = Some d")
  case True
  then obtain a b c d where w: "whole (seg_A one) = Some a" "whole (seg_B one) = Some b"
    "whole (seg_A other) = Some c" "whole (seg_B other) = Some d" by blast
  then have "one = \<lparr>seg_A = point_at a, seg_B = point_at b\<rparr>" "other = \<lparr>seg_A = point_at c, seg_B = point_at d\<rparr>"
    "grid a" "grid b" "grid c" "grid d"
    by (cases one; cases other; auto dest: whole_Some)+
  then show ?thesis using w Crosses_grid [of a b c d] crosses_exact_iff by simp
next
  case False
  then show ?thesis unfolding Crosses_def [of one other, symmetric] by (auto split: option.split)
qed

section \<open>The properties of vision\<close>

text \<open>
  C38: for whole coordinates below \<open>2 ^ 24\<close> the floating-point test is exact: a point sees
  another precisely when no wall has a point in common with the segment between them, end
  points and walls along the line included.
\<close>

theorem visible_grid_exact:
  assumes "grid from" "grid to" and "\<forall>(c, d) \<in> set walls. grid c \<and> grid d"
  shows "Visible (point_at from) (point_at to) (map (\<lambda>(c, d). \<lparr>seg_A = point_at c, seg_B = point_at d\<rparr>) walls) \<longleftrightarrow>
    \<not> (\<exists>(c, d) \<in> set walls. meets (pt_at from) (pt_at to) (pt_at c) (pt_at d))"
  using assms Crosses_grid [OF assms(1,2)] by (fastforce simp: Visible_def list_ex_iff)

theorem visible_grid_exact_witness:
  "Visible (point_at (0, 0)) (point_at (2, 0)) (map (\<lambda>(c, d). \<lparr>seg_A = point_at c, seg_B = point_at d\<rparr>) [((1, 1), (1, 5))]) \<longleftrightarrow>
     \<not> (\<exists>(c, d) \<in> set [((1, 1), (1, 5))]. meets (pt_at (0, 0)) (pt_at (2, 0)) (pt_at c) (pt_at d))"
  by (rule visible_grid_exact) (simp_all add: grid_def)

text \<open>
  A token that stands on a wall is seen from nowhere on the grid, not even from where it
  stands.
\<close>

theorem on_wall_unseen:
  assumes "grid from" "grid p" "grid c" "grid d" and "(c, d) \<in> set walls"
    and "orient_int c d p = 0" and "in_box (pt_at c) (pt_at d) (pt_at p)"
  shows "\<not> Visible (point_at from) (point_at p) (map (\<lambda>(c, d). \<lparr>seg_A = point_at c, seg_B = point_at d\<rparr>) walls)"
proof -
  have "meets (pt_at c) (pt_at d) (pt_at from) (pt_at p)"
    by (rule end_meets(2)) (use assms(6,7) in \<open>simp add: orient_int_of\<close>)
  then have "Crosses \<lparr>seg_A = point_at from, seg_B = point_at p\<rparr> \<lparr>seg_A = point_at c, seg_B = point_at d\<rparr>"
    using Crosses_grid [OF assms(1-4)] meets_sym by blast
  with assms(5) show ?thesis by (force simp: Visible_def list_ex_iff)
qed

theorem on_wall_unseen_witness:
  "\<not> Visible (point_at (1, 3)) (point_at (1, 3)) (map (\<lambda>(c, d). \<lparr>seg_A = point_at c, seg_B = point_at d\<rparr>) [((1, 1), (1, 5))])"
  by (rule on_wall_unseen [of _ _ "(1, 1)" "(1, 5)"]) (simp_all add: grid_def orient_int_def in_box_def pt_at_def)

end
