(* ===== verification/Perm.thy ===== *)
theory Perm
  imports StoragePort
begin

text \<open>
  Roles, ownership levels, grants and field-level redaction
  (\<open>internal/core/perm/perm.go\<close>, \<open>internal/core/perm/redact.go\<close>).  A \<open>FieldPolicy\<close> is its
  one method, a function from kind, subtype and path to a visibility.
\<close>

section \<open>Roles and levels\<close>

type_synonym Role = string

definition RoleGM :: Role where "RoleGM = ''gm''"
definition RoleAssistant :: Role where "RoleAssistant = ''assistant''"
definition RolePlayer :: Role where "RolePlayer = ''player''"
definition RoleObserver :: Role where "RoleObserver = ''observer''"

lemmas role_names = RoleGM_def RoleAssistant_def RolePlayer_def RoleObserver_def

definition Valid :: "Role \<Rightarrow> bool" where
  "Valid r \<longleftrightarrow> r = RoleGM \<or> r = RoleAssistant \<or> r = RolePlayer \<or> r = RoleObserver"

definition IsStaff :: "Role \<Rightarrow> bool" where
  "IsStaff r \<longleftrightarrow> r = RoleGM \<or> r = RoleAssistant"

lemma staff_not_observer: "IsStaff r \<Longrightarrow> r \<noteq> RoleObserver"
  by (auto simp: IsStaff_def role_names)

lemma staff_valid: "IsStaff r \<Longrightarrow> Valid r"
  by (auto simp: IsStaff_def Valid_def)

datatype Level = LevelNone | LevelLimited | LevelObserver | LevelOwner

fun level_rank :: "Level \<Rightarrow> nat" where
  "level_rank LevelNone = 0"
| "level_rank LevelLimited = 1"
| "level_rank LevelObserver = 2"
| "level_rank LevelOwner = 3"

lemma level_rank_inject [simp]: "level_rank a = level_rank b \<longleftrightarrow> a = b"
  by (cases a; cases b) auto

instantiation Level :: linorder
begin

definition less_eq_Level :: "Level \<Rightarrow> Level \<Rightarrow> bool" where
  "less_eq_Level a b \<longleftrightarrow> level_rank a \<le> level_rank b"

definition less_Level :: "Level \<Rightarrow> Level \<Rightarrow> bool" where
  "less_Level a b \<longleftrightarrow> level_rank a < level_rank b"

instance
  by standard (auto simp: less_eq_Level_def less_Level_def)

end

lemmas level_order = less_eq_Level_def less_Level_def

fun Level_String :: "Level \<Rightarrow> string" where
  "Level_String LevelLimited = ''limited''"
| "Level_String LevelObserver = ''observer''"
| "Level_String LevelOwner = ''owner''"
| "Level_String LevelNone = ''none''"

definition ParseLevel :: "string \<Rightarrow> Level res" where
  "ParseLevel s =
     (if s = ''none'' \<or> s = [] then Inr LevelNone
      else if s = ''limited'' then Inr LevelLimited
      else if s = ''observer'' then Inr LevelObserver
      else if s = ''owner'' then Inr LevelOwner
      else Inl ErrUnknownLevel)"

lemma ParseLevel_String [simp]: "ParseLevel (Level_String l) = Inr l"
  by (cases l) (simp_all add: ParseLevel_def)

type_synonym Visibility = string

definition VisibilityPublic :: Visibility where "VisibilityPublic = ''public''"
definition VisibilityObserver :: Visibility where "VisibilityObserver = ''observer''"
definition VisibilityOwner :: Visibility where "VisibilityOwner = ''owner''"
definition VisibilityGM :: Visibility where "VisibilityGM = ''gm''"

lemmas visibility_names =
  VisibilityPublic_def VisibilityObserver_def VisibilityOwner_def VisibilityGM_def

definition required :: "Visibility \<Rightarrow> Level" where
  "required v =
     (if v = VisibilityObserver then LevelObserver
      else if v = VisibilityOwner \<or> v = VisibilityGM then LevelOwner
      else LevelLimited)"

datatype Source =
  SourceRole | SourceExplicit | SourceDocument | SourceFolder | SourceWorld | SourceNone

record Grant =
  g_Role :: Role
  g_Level :: Level
  g_Source :: Source

definition CanRead :: "Grant \<Rightarrow> bool" where
  "CanRead g \<longleftrightarrow> g_Level g > LevelNone"

definition CanEdit :: "Grant \<Rightarrow> bool" where
  "CanEdit g \<longleftrightarrow> g_Role g \<noteq> RoleObserver \<and> g_Level g \<ge> LevelOwner"

definition CanSeeGMOnly :: "Grant \<Rightarrow> bool" where
  "CanSeeGMOnly g \<longleftrightarrow> IsStaff (g_Role g)"

definition Allows :: "Grant \<Rightarrow> Visibility \<Rightarrow> bool" where
  "Allows g v =
     (if v = VisibilityGM then IsStaff (g_Role g)
      else if IsStaff (g_Role g) then True
      else g_Level g \<ge> required v)"

section \<open>Access control lists and the effective grant\<close>

definition DefaultKey :: string where "DefaultKey = ''default''"

type_synonym ACL = "Level gomap"

fun parse_levels :: "(string \<times> string) list \<Rightarrow> (string \<times> Level) list res" where
  "parse_levels [] = Inr []"
| "parse_levels ((k, s) # m) =
     bind_res (ParseLevel s) (\<lambda>l. bind_res (parse_levels m) (\<lambda>a. Inr ((k, l) # a)))"

definition ParseACL :: "raw \<Rightarrow> ACL res" where
  "ParseACL raw =
     (if raw = RawNil then Inr []
      else bind_res (unmarshal_string_map raw) parse_levels)"

record Subject =
  sub_UserID :: ID
  sub_Role :: Role

record Inputs =
  in_Document :: ACL
  in_Folder :: ACL
  in_World :: Level

definition has :: "ACL \<Rightarrow> string \<Rightarrow> bool" where
  "has acl k \<longleftrightarrow> map_of acl k \<noteq> None"

definition acl_level :: "ACL \<Rightarrow> string \<Rightarrow> Level" where
  "acl_level acl k = (case map_of acl k of None \<Rightarrow> LevelNone | Some l \<Rightarrow> l)"

definition Effective :: "Subject \<Rightarrow> Inputs \<Rightarrow> Grant" where
  "Effective subject inputs =
     (if IsStaff (sub_Role subject)
      then \<lparr>g_Role = sub_Role subject, g_Level = LevelOwner, g_Source = SourceRole\<rparr>
      else
        let user = sub_UserID subject;
            (level, source) =
              (if has (in_Document inputs) user
               then (acl_level (in_Document inputs) user, SourceExplicit)
               else if has (in_Document inputs) DefaultKey
               then (acl_level (in_Document inputs) DefaultKey, SourceDocument)
               else if has (in_Folder inputs) user
               then (acl_level (in_Folder inputs) user, SourceFolder)
               else if has (in_Folder inputs) DefaultKey
               then (acl_level (in_Folder inputs) DefaultKey, SourceFolder)
               else if in_World inputs > LevelNone
               then (in_World inputs, SourceWorld)
               else (LevelNone, SourceNone));
            level' = (if sub_Role subject = RoleObserver \<and> level > LevelObserver
                      then LevelObserver else level);
            source' = (if level' = LevelNone then SourceNone else source)
        in \<lparr>g_Role = sub_Role subject, g_Level = level', g_Source = source'\<rparr>)"

section \<open>Field policies\<close>

type_synonym FieldPolicy = "string \<Rightarrow> string \<Rightarrow> string \<Rightarrow> Visibility"

type_synonym StaticPolicy = "Visibility gomap gomap"

definition NewStaticPolicy :: StaticPolicy where
  "NewStaticPolicy = []"

definition policy_Set :: "string \<Rightarrow> string \<Rightarrow> string \<Rightarrow> Visibility \<Rightarrow> StaticPolicy \<Rightarrow> StaticPolicy" where
  "policy_Set kind subtype path visibility p =
     (let key = kind @ ''/'' @ subtype;
          rules = (case map_of p key of None \<Rightarrow> [] | Some r \<Rightarrow> r)
      in map_put key (map_put path visibility rules) p)"

definition rule_of :: "StaticPolicy \<Rightarrow> string \<Rightarrow> string \<Rightarrow> Visibility option" where
  "rule_of p key path =
     (case map_of p key of None \<Rightarrow> None | Some rules \<Rightarrow> map_of rules path)"

definition static_VisibilityOf :: "StaticPolicy \<Rightarrow> FieldPolicy" where
  "static_VisibilityOf p kind subtype path =
     (case rule_of p (kind @ ''/'' @ subtype) path of
        Some v \<Rightarrow> v
      | None \<Rightarrow> (case rule_of p (kind @ ''/'') path of
          Some v \<Rightarrow> v
        | None \<Rightarrow> VisibilityPublic))"

definition OpenPolicy :: FieldPolicy where
  "OpenPolicy = (\<lambda>_ _ _. VisibilityPublic)"

section \<open>Redaction\<close>

definition sub_path :: "string \<Rightarrow> string \<Rightarrow> string" where
  "sub_path prefix key = (if prefix \<noteq> [] then prefix @ ''.'' @ key else key)"

fun pruneObject :: "json gomap \<Rightarrow> string \<Rightarrow> string \<Rightarrow> string \<Rightarrow> Grant \<Rightarrow> FieldPolicy \<Rightarrow> json gomap" where
  "pruneObject [] kind subtype prefix grant policy = []"
| "pruneObject ((key, value) # source) kind subtype prefix grant policy =
     (let path = sub_path prefix key;
          result = pruneObject source kind subtype prefix grant policy
      in if \<not> Allows grant (policy kind subtype path) then result
         else (case value of
             JObj nested \<Rightarrow> (key, JObj (pruneObject nested kind subtype path grant policy)) # result
           | _ \<Rightarrow> (key, value) # result))"

definition RedactPayload :: "raw \<Rightarrow> string \<Rightarrow> string \<Rightarrow> string \<Rightarrow> Grant \<Rightarrow> FieldPolicy \<Rightarrow> raw res" where
  "RedactPayload raw kind subtype prefix grant policy =
     (if raw = RawNil then Inr raw_empty_object
      else bind_res (unmarshal_map raw) (\<lambda>decoded.
        Inr (RawJson (JObj (pruneObject decoded kind subtype prefix grant policy)))))"

definition ownershipFor :: "Subject \<Rightarrow> Grant \<Rightarrow> raw \<Rightarrow> raw" where
  "ownershipFor subject grant raw =
     (if IsStaff (g_Role grant) then (if raw = RawNil then raw_empty_object else raw)
      else (case ParseACL raw of
          Inl _ \<Rightarrow> raw_empty_object
        | Inr acl \<Rightarrow>
            (case map_of acl (sub_UserID subject) of
               None \<Rightarrow> marshal_string_map []
             | Some level \<Rightarrow> marshal_string_map [(sub_UserID subject, Level_String level)])))"

text \<open>\<open>None\<close> is the \<open>send = false\<close> of the code: the subject gets nothing at all.\<close>

definition RedactDocument ::
  "Document \<Rightarrow> Subject \<Rightarrow> Grant \<Rightarrow> FieldPolicy \<Rightarrow> Document option res" where
  "RedactDocument doc subject grant policy =
     (if \<not> CanRead grant then Inr None
      else
        let visible = doc\<lparr>d_Data := raw_empty_object, d_Flags := raw_empty_object,
                          d_Ownership := ownershipFor subject grant (d_Ownership doc)\<rparr>
        in if g_Level grant = LevelLimited then Inr (Some visible)
           else
             bind_res (RedactPayload (d_Data doc) (d_Kind doc) (d_Subtype doc) [] grant policy) (\<lambda>data.
             let visible = visible\<lparr>d_Data := data\<rparr>
             in if g_Level grant \<ge> LevelObserver
                then bind_res (RedactPayload (d_Flags doc) (d_Kind doc) (d_Subtype doc) ''flags'' grant policy)
                  (\<lambda>flags. Inr (Some (visible\<lparr>d_Flags := flags\<rparr>)))
                else Inr (Some visible)))"

fun collectHidden :: "json gomap \<Rightarrow> string \<Rightarrow> string \<Rightarrow> string \<Rightarrow> Grant \<Rightarrow> FieldPolicy \<Rightarrow> string list" where
  "collectHidden [] kind subtype prefix grant policy = []"
| "collectHidden ((key, value) # source) kind subtype prefix grant policy =
     (let path = sub_path prefix key;
          more = collectHidden source kind subtype prefix grant policy
      in if \<not> Allows grant (policy kind subtype path) then path # more
         else (case value of
             JObj nested \<Rightarrow> collectHidden nested kind subtype path grant policy @ more
           | _ \<Rightarrow> more))"

definition HiddenPaths :: "raw \<Rightarrow> string \<Rightarrow> string \<Rightarrow> Grant \<Rightarrow> FieldPolicy \<Rightarrow> string list" where
  "HiddenPaths raw kind subtype grant policy =
     (if raw = RawNil then []
      else (case unmarshal_map raw of
          Inl _ \<Rightarrow> []
        | Inr decoded \<Rightarrow> collectHidden decoded kind subtype [] grant policy))"

fun walk :: "json gomap \<Rightarrow> string \<Rightarrow> string list" where
  "walk [] prefix = []"
| "walk ((key, value) # source) prefix =
     (let path = sub_path prefix key in
      path # (case value of JObj nested \<Rightarrow> walk nested path | _ \<Rightarrow> []) @ walk source prefix)"

definition PathsOf :: "raw \<Rightarrow> string list" where
  "PathsOf raw = (case unmarshal_map raw of Inl _ \<Rightarrow> [] | Inr decoded \<Rightarrow> walk decoded [])"

definition JoinPath :: "string list \<Rightarrow> string" where
  "JoinPath segments = join_with ''.'' segments"

section \<open>What the effective grant is\<close>

text \<open>The layers of ownership, most specific first, and the level the first defined one gives.\<close>

definition ownership_layers :: "Subject \<Rightarrow> Inputs \<Rightarrow> Level option list" where
  "ownership_layers subject inputs =
     [map_of (in_Document inputs) (sub_UserID subject),
      map_of (in_Document inputs) DefaultKey,
      map_of (in_Folder inputs) (sub_UserID subject),
      map_of (in_Folder inputs) DefaultKey,
      Some (in_World inputs)]"

definition resolved_level :: "Subject \<Rightarrow> Inputs \<Rightarrow> Level" where
  "resolved_level subject inputs =
     the (the (find (\<lambda>l. l \<noteq> None) (ownership_layers subject inputs)))"

definition role_cap :: "Role \<Rightarrow> Level" where
  "role_cap r = (if r = RoleObserver then LevelObserver else LevelOwner)"

lemma level_le_owner [simp]: "l \<le> LevelOwner"
  by (cases l) (simp_all add: level_order)

lemma level_none_le [simp]: "LevelNone \<le> l"
  by (cases l) (simp_all add: level_order)

lemma Effective_role [simp]: "g_Role (Effective subject inputs) = sub_Role subject"
  by (simp add: Effective_def Let_def split: prod.splits)

lemma Effective_staff: "IsStaff (sub_Role subject) \<Longrightarrow> g_Level (Effective subject inputs) = LevelOwner"
  by (simp add: Effective_def)

lemma owner_le_iff [simp]: "LevelOwner \<le> l \<longleftrightarrow> l = LevelOwner"
  by (cases l) (simp_all add: level_order)

lemma not_above_none [simp]: "\<not> LevelNone < l \<longleftrightarrow> l = LevelNone"
  by (cases l) (simp_all add: level_order)

lemma role_cap_min:
  "min (role_cap r) l = (if r = RoleObserver \<and> LevelObserver < l then LevelObserver else l)"
  by (auto simp: role_cap_def min_def)

lemma Effective_level:
  "g_Level (Effective subject inputs) =
     (if IsStaff (sub_Role subject) then LevelOwner
      else min (role_cap (sub_Role subject)) (resolved_level subject inputs))"
  by (auto simp: Effective_def resolved_level_def ownership_layers_def has_def acl_level_def
      role_cap_min Let_def split: option.splits)

text \<open>C10: the level of the effective grant is owner for staff, and otherwise the level of the
  most specific ownership layer that says anything (the user's entry of the document, its
  default, the user's entry of the folder, its default, the world's default), capped at
  observer for the observer role.\<close>

theorem effective_level_spec:
  "g_Level (Effective subject inputs) =
     (if IsStaff (sub_Role subject) then LevelOwner
      else min (role_cap (sub_Role subject)) (resolved_level subject inputs))"
  by (rule Effective_level)

lemma resolved_owner_capped:
  "min (role_cap r) l = LevelOwner \<longleftrightarrow> r \<noteq> RoleObserver \<and> l = LevelOwner"
  by (cases l) (auto simp: role_cap_def min_def level_order)

lemma CanEdit_Effective:
  "CanEdit (Effective subject inputs) \<longleftrightarrow>
     IsStaff (sub_Role subject) \<or>
     (sub_Role subject \<noteq> RoleObserver \<and> resolved_level subject inputs = LevelOwner)"
  by (auto simp: CanEdit_def Effective_level resolved_owner_capped dest: staff_not_observer)

text \<open>A subject may edit exactly when it is staff, or when it is not an observer and the
  ownership layers resolve to owner; in particular an observer can never edit, whatever the
  access control lists say.\<close>

theorem effective_edit_iff:
  "CanEdit (Effective subject inputs) \<longleftrightarrow>
     IsStaff (sub_Role subject) \<or>
     (sub_Role subject \<noteq> RoleObserver \<and> resolved_level subject inputs = LevelOwner)"
  by (rule CanEdit_Effective)

section \<open>What redaction keeps\<close>

text \<open>A path is open to a grant when the policy allows every prefix of it.\<close>

fun open_path :: "string \<Rightarrow> string \<Rightarrow> Grant \<Rightarrow> FieldPolicy \<Rightarrow> string \<Rightarrow> string list \<Rightarrow> bool" where
  "open_path kind subtype grant policy prefix [] = True"
| "open_path kind subtype grant policy prefix (k # ks) =
     (Allows grant (policy kind subtype (sub_path prefix k)) \<and>
      open_path kind subtype grant policy (sub_path prefix k) ks)"

definition prune_value :: "string \<Rightarrow> string \<Rightarrow> string \<Rightarrow> Grant \<Rightarrow> FieldPolicy \<Rightarrow> json \<Rightarrow> json" where
  "prune_value kind subtype path grant policy v =
     (case v of JObj m \<Rightarrow> JObj (pruneObject m kind subtype path grant policy) | _ \<Rightarrow> v)"

lemma prune_value_simps [simp]:
  "prune_value kind subtype path grant policy (JObj m) =
     JObj (pruneObject m kind subtype path grant policy)"
  "prune_value kind subtype path grant policy JNull = JNull"
  "prune_value kind subtype path grant policy (JBool b) = JBool b"
  "prune_value kind subtype path grant policy (JInt n) = JInt n"
  "prune_value kind subtype path grant policy (JReal r) = JReal r"
  "prune_value kind subtype path grant policy (JStr s) = JStr s"
  "prune_value kind subtype path grant policy (JArr vs) = JArr vs"
  by (simp_all add: prune_value_def)

lemma pruneObject_Cons:
  "pruneObject ((k, v) # m) kind subtype prefix grant policy =
     (if Allows grant (policy kind subtype (sub_path prefix k))
      then (k, prune_value kind subtype (sub_path prefix k) grant policy v) #
           pruneObject m kind subtype prefix grant policy
      else pruneObject m kind subtype prefix grant policy)"
  by (simp add: prune_value_def Let_def split: json.splits)

declare pruneObject.simps(2) [simp del]

lemma prune_keys:
  "fst ` set (pruneObject m kind subtype prefix grant policy) \<subseteq> fst ` set m"
  by (induction m) (force simp: pruneObject_Cons split: if_splits)+

lemma prune_gomap: "is_gomap m \<Longrightarrow> is_gomap (pruneObject m kind subtype prefix grant policy)"
proof (induction m)
  case (Cons e m)
  then have "\<forall>k \<in> fst ` set (pruneObject m kind subtype prefix grant policy). fst e < k"
    using prune_keys [of m kind subtype prefix grant policy] unfolding is_gomap_Cons by blast
  with Cons show ?case by (cases e) (simp add: pruneObject_Cons is_gomap_Cons)
qed simp

lemma prune_lookup:
  assumes "distinct (map fst m)"
  shows "map_of (pruneObject m kind subtype prefix grant policy) k =
    (if Allows grant (policy kind subtype (sub_path prefix k))
     then map_option (prune_value kind subtype (sub_path prefix k) grant policy) (map_of m k)
     else None)"
  using assms
proof (induction m)
  case (Cons e m)
  have "fst e \<notin> fst ` set (pruneObject m kind subtype prefix grant policy)"
    using Cons.prems prune_keys [of m kind subtype prefix grant policy] by auto
  then have "map_of (pruneObject m kind subtype prefix grant policy) (fst e) = None"
    by (simp add: map_of_eq_None_iff)
  with Cons show ?case by (cases e) (auto simp: pruneObject_Cons)
qed simp

lemma canonical_at:
  "canonical_members m \<Longrightarrow> map_of m k = Some v \<Longrightarrow> canonical v"
  by (force simp: canonical_members_iff dest: map_of_SomeD)

lemma canonical_nested:
  "canonical (JObj m) \<Longrightarrow> map_of m k = Some (JObj n) \<Longrightarrow> canonical (JObj n)"
  using canonical_at [of m k "JObj n"] by simp

lemma prune_at:
  assumes "canonical (JObj m)"
  shows "json_at (JObj (pruneObject m kind subtype prefix grant policy)) ks =
    (if open_path kind subtype grant policy prefix ks
     then map_option
       (prune_value kind subtype (fold (\<lambda>k p. sub_path p k) ks prefix) grant policy)
       (json_at (JObj m) ks)
     else None)"
  using assms
proof (induction ks arbitrary: m prefix)
  case Nil
  then show ?case by (simp add: prune_value_def)
next
  case (Cons k ks)
  from Cons.prems have dist: "distinct (map fst m)" by (simp add: is_gomap_distinct)
  show ?case
  proof (cases "map_of m k")
    case None
    then show ?thesis by (simp add: prune_lookup [OF dist])
  next
    case (Some v)
    with Cons.prems have v: "canonical v" by (auto intro: canonical_at)
    show ?thesis
    proof (cases v)
      case (JObj n)
      with v Some Cons.IH [of n "sub_path prefix k"] show ?thesis
        by (simp add: prune_lookup [OF dist])
    qed (use Some in \<open>cases ks; simp add: prune_lookup [OF dist]\<close>)+
  qed
qed

text \<open>C8: after redaction a path holds a value exactly when the policy allows every prefix of
  the path and the payload had a value there; a value that is not an object is unchanged, an
  object is the redaction of the original object.  Redaction removes paths, it never nulls
  them, and it invents nothing.\<close>

theorem prune_exact:
  assumes "canonical (JObj m)"
  shows "json_at (JObj (pruneObject m kind subtype prefix grant policy)) ks =
    (if open_path kind subtype grant policy prefix ks
     then map_option
       (prune_value kind subtype (fold (\<lambda>k p. sub_path p k) ks prefix) grant policy)
       (json_at (JObj m) ks)
     else None)"
  by (rule prune_at [OF assms])

theorem prune_exact_witness:
  "json_at (JObj (pruneObject [(''hp'', JInt 3), (''secret'', JStr ''x'')] ''actor'' [] []
      \<lparr>g_Role = ''player'', g_Level = LevelObserver, g_Source = SourceExplicit\<rparr>
      (\<lambda>_ _ p. if p = ''secret'' then VisibilityGM else VisibilityPublic))) [''secret''] = None"
proof -
  have canon: "canonical (JObj [(''hp'', JInt 3), (''secret'', JStr ''x'')])"
    by (simp add: is_gomap_def)
  show ?thesis
    unfolding prune_exact [OF canon]
    by (simp add: sub_path_def Allows_def IsStaff_def role_names visibility_names)
qed

text \<open>What an observer of the payload can tell apart: objects only by their presence.\<close>

definition outline :: "json \<Rightarrow> json" where
  "outline v = (case v of JObj _ \<Rightarrow> JObj [] | _ \<Rightarrow> v)"

lemma gomap_eqI:
  assumes "is_gomap m" and "is_gomap m'" and "\<And>k. map_of m k = map_of m' k"
  shows "m = m'"
proof -
  from assms have "set m = set m'"
    by (metis is_gomap_distinct map_of_inject_set ext)
  moreover have "sorted (map fst m)" "sorted (map fst m')"
    using assms(1,2) by (auto simp: is_gomap_def strict_sorted_iff)
  ultimately show ?thesis
    using assms(1,2) by (metis is_gomap_distinct map_sorted_distinct_set_unique
        distinct_map inj_on_Un sup.idem)
qed

lemma prune_value_outline:
  assumes "outline v = outline w"
    and "\<And>n n'. v = JObj n \<Longrightarrow> w = JObj n' \<Longrightarrow>
      pruneObject n kind subtype path grant policy = pruneObject n' kind subtype path grant policy"
  shows "prune_value kind subtype path grant policy v = prune_value kind subtype path grant policy w"
  using assms by (auto simp: prune_value_def outline_def split: json.splits)

text \<open>
  Two payloads that agree on the paths open to the grant (same values, same presence of
  objects) have identical redactions, however much they differ elsewhere.
\<close>

lemma prune_noninterference:
  assumes "canonical (JObj m)" and "canonical (JObj m')"
    and "\<And>ks. open_path kind subtype grant policy prefix ks \<Longrightarrow>
      map_option outline (json_at (JObj m) ks) = map_option outline (json_at (JObj m') ks)"
  shows "pruneObject m kind subtype prefix grant policy =
         pruneObject m' kind subtype prefix grant policy"
  using assms
proof (induction "size (JObj m)" arbitrary: m m' prefix rule: less_induct)
  case less
  have dist: "distinct (map fst m)" "distinct (map fst m')"
    using less.prems(1,2) by (auto simp: is_gomap_distinct)
  show ?case
  proof (rule gomap_eqI)
    show "is_gomap (pruneObject m kind subtype prefix grant policy)"
      "is_gomap (pruneObject m' kind subtype prefix grant policy)"
      using less.prems(1,2) by (auto intro: prune_gomap)
    fix k
    let ?p = "sub_path prefix k"
    show "map_of (pruneObject m kind subtype prefix grant policy) k =
          map_of (pruneObject m' kind subtype prefix grant policy) k"
    proof (cases "Allows grant (policy kind subtype ?p)")
      case True
      have agree: "map_option outline (map_of m k) = map_option outline (map_of m' k)"
        using less.prems(3) [of "[k]"] True by (simp split: option.splits)
      have "prune_value kind subtype ?p grant policy v = prune_value kind subtype ?p grant policy w"
        if v: "map_of m k = Some v" and w: "map_of m' k = Some w" for v w
      proof (rule prune_value_outline)
        show "outline v = outline w" using agree v w by simp
        fix n n' assume n: "v = JObj n" "w = JObj n'"
        have "size (JObj n) < size (JObj m)"
          using map_of_SomeD [OF v] n(1) by (intro member_size [of k]) simp
        then show "pruneObject n kind subtype ?p grant policy = pruneObject n' kind subtype ?p grant policy"
        proof (rule less.hyps)
          show "canonical (JObj n)" "canonical (JObj n')"
            using less.prems(1,2) v w n by (auto intro: canonical_nested simp del: canonical.simps)
          fix ks assume "open_path kind subtype grant policy ?p ks"
          then show "map_option outline (json_at (JObj n) ks) = map_option outline (json_at (JObj n') ks)"
            using less.prems(3) [of "k # ks"] v w n True by simp
        qed
      qed
      with agree have "map_option (prune_value kind subtype ?p grant policy) (map_of m k) =
          map_option (prune_value kind subtype ?p grant policy) (map_of m' k)"
        by (rule map_option_agree)
      then show ?thesis
        by (simp only: prune_lookup [OF dist(1)] prune_lookup [OF dist(2)])
    qed (simp add: prune_lookup [OF dist(1)] prune_lookup [OF dist(2)])
  qed
qed

text \<open>The payload as a map; an absent one counts as empty.\<close>

definition payload_map :: "raw \<Rightarrow> json gomap res" where
  "payload_map raw = (if raw = RawNil then Inr [] else unmarshal_map raw)"

lemma RedactPayload_map:
  "RedactPayload raw kind subtype prefix grant policy =
     bind_res (payload_map raw)
       (\<lambda>m. Inr (RawJson (JObj (pruneObject m kind subtype prefix grant policy))))"
  by (simp add: RedactPayload_def payload_map_def raw_empty_object_def)

lemma payload_map_canonical: "payload_map raw = Inr m \<Longrightarrow> canonical (JObj m)"
  by (auto simp: payload_map_def dest: unmarshal_map_canonical split: if_splits)

lemma RedactPayload_open:
  assumes "RedactPayload raw kind subtype prefix grant policy = Inr (RawJson v)"
    and "json_at v ks = Some x"
  shows "open_path kind subtype grant policy prefix ks"
proof -
  from assms(1) obtain m where "payload_map raw = Inr m"
    and v: "v = JObj (pruneObject m kind subtype prefix grant policy)"
    by (auto simp: RedactPayload_map res_simps)
  with assms(2) prune_at [OF payload_map_canonical] show ?thesis
    by (metis option.distinct(1))
qed

definition payloads_agree ::
  "string \<Rightarrow> string \<Rightarrow> Grant \<Rightarrow> FieldPolicy \<Rightarrow> string \<Rightarrow> raw \<Rightarrow> raw \<Rightarrow> bool" where
  "payloads_agree kind subtype grant policy prefix raw raw' \<longleftrightarrow>
     (case (payload_map raw, payload_map raw') of
        (Inl e, Inl e') \<Rightarrow> e = e'
      | (Inr m, Inr m') \<Rightarrow> (\<forall>ks. open_path kind subtype grant policy prefix ks \<longrightarrow>
          map_option outline (json_at (JObj m) ks) = map_option outline (json_at (JObj m') ks))
      | _ \<Rightarrow> False)"

lemma RedactPayload_agree:
  assumes "payloads_agree kind subtype grant policy prefix raw raw'"
  shows "RedactPayload raw kind subtype prefix grant policy =
         RedactPayload raw' kind subtype prefix grant policy"
proof (cases "payload_map raw")
  case (Inr m)
  with assms obtain m' where m': "payload_map raw' = Inr m'"
    by (auto simp: payloads_agree_def split: sum.splits)
  have "pruneObject m kind subtype prefix grant policy = pruneObject m' kind subtype prefix grant policy"
    by (rule prune_noninterference)
       (use assms Inr m' in \<open>auto simp: payloads_agree_def dest: payload_map_canonical
          simp del: canonical.simps\<close>)
  with Inr m' show ?thesis by (simp add: RedactPayload_map)
qed (use assms in \<open>auto simp: payloads_agree_def RedactPayload_map split: sum.splits\<close>)

text \<open>The subject's own entry of an ownership list, the only one it is shown.\<close>

definition own_entry :: "Subject \<Rightarrow> raw \<Rightarrow> Level option" where
  "own_entry subject raw =
     (case ParseACL raw of Inl _ \<Rightarrow> None | Inr acl \<Rightarrow> map_of acl (sub_UserID subject))"

lemma ownershipFor_own:
  "\<not> IsStaff (g_Role grant) \<Longrightarrow> ownershipFor subject grant raw =
     marshal_string_map (case own_entry subject raw of
       None \<Rightarrow> [] | Some l \<Rightarrow> [(sub_UserID subject, Level_String l)])"
  by (auto simp: ownershipFor_def own_entry_def raw_empty_object_def marshal_string_map_def
      split: sum.splits option.splits)

text \<open>C9: what a member who is not staff receives of a document depends only on what it may
  see.  Two documents with the same envelope, the same ownership entry for the member and,
  above the limited level, payloads and flags that agree on the open paths, are redacted to
  the same result (the same document, or nothing, or the same error), so hidden fields and
  other members' ownership entries cannot be inferred from it.\<close>

theorem redact_noninterference:
  assumes "doc' = doc\<lparr>d_Data := data', d_Flags := flags', d_Ownership := ownership'\<rparr>"
    and "\<not> IsStaff (g_Role grant)"
    and "own_entry subject ownership' = own_entry subject (d_Ownership doc)"
    and "g_Level grant > LevelLimited \<Longrightarrow>
      payloads_agree (d_Kind doc) (d_Subtype doc) grant policy [] (d_Data doc) data' \<and>
      payloads_agree (d_Kind doc) (d_Subtype doc) grant policy ''flags'' (d_Flags doc) flags'"
  shows "RedactDocument doc' subject grant policy = RedactDocument doc subject grant policy"
proof (cases "g_Level grant > LevelLimited")
  case True
  with assms(4) have agree:
    "RedactPayload data' (d_Kind doc) (d_Subtype doc) [] grant policy =
     RedactPayload (d_Data doc) (d_Kind doc) (d_Subtype doc) [] grant policy"
    "RedactPayload flags' (d_Kind doc) (d_Subtype doc) ''flags'' grant policy =
     RedactPayload (d_Flags doc) (d_Kind doc) (d_Subtype doc) ''flags'' grant policy"
    by (auto dest: RedactPayload_agree)
  from True have "CanRead grant" "g_Level grant \<noteq> LevelLimited" "LevelObserver \<le> g_Level grant"
    by (cases "g_Level grant"; simp add: CanRead_def level_order)+
  then show ?thesis
    using assms(2,3) agree
    by (cases doc) (simp add: assms(1) RedactDocument_def ownershipFor_own Let_def)
next
  case False
  then have "g_Level grant = LevelLimited \<or> \<not> CanRead grant"
    by (cases "g_Level grant") (auto simp: CanRead_def level_order)
  then show ?thesis
    using assms(2,3) by (auto simp: assms(1) RedactDocument_def ownershipFor_own Let_def)
qed

definition sample_document :: Document where
  "sample_document = zero_document\<lparr>d_ID := ''a1'', d_Kind := ''actor'',
     d_Data := RawJson (JObj [(''hp'', JStr ''3''), (''secret'', JStr ''x'')])\<rparr>"

definition sample_policy :: FieldPolicy where
  "sample_policy = (\<lambda>kind subtype path. if path = ''secret'' then VisibilityGM else VisibilityPublic)"

definition sample_grant :: Grant where
  "sample_grant = \<lparr>g_Role = ''player'', g_Level = LevelObserver, g_Source = SourceExplicit\<rparr>"

lemma sample_payloads_agree:
  "payloads_agree ''actor'' [] sample_grant sample_policy []
     (RawJson (JObj [(''hp'', JStr ''3''), (''secret'', JStr ''x'')]))
     (RawJson (JObj [(''hp'', JStr ''3''), (''secret'', JStr ''y'')]))"
proof -
  have "map_option outline (json_at (JObj [(''hp'', JStr ''3''), (''secret'', JStr ''x'')]) ks) =
        map_option outline (json_at (JObj [(''hp'', JStr ''3''), (''secret'', JStr ''y'')]) ks)"
    if "open_path ''actor'' [] sample_grant sample_policy [] ks" for ks
    using that by (cases ks) (auto simp: outline_def sub_path_def sample_grant_def sample_policy_def
        Allows_def IsStaff_def role_names visibility_names)
  then show ?thesis
    by (simp add: payloads_agree_def payload_map_def unmarshal_map_def map_from_def)
qed

theorem redact_noninterference_witness:
  "RedactDocument
     (sample_document\<lparr>d_Data := RawJson (JObj [(''hp'', JStr ''3''), (''secret'', JStr ''y'')]),
        d_Flags := RawNil, d_Ownership := RawJson (JObj [(''bob'', JStr ''owner'')])\<rparr>)
     \<lparr>sub_UserID = ''eve'', sub_Role = ''player''\<rparr> sample_grant sample_policy =
   RedactDocument sample_document \<lparr>sub_UserID = ''eve'', sub_Role = ''player''\<rparr> sample_grant sample_policy"
proof (rule redact_noninterference [OF refl])
  show "\<not> IsStaff (g_Role sample_grant)"
    by (simp add: sample_grant_def IsStaff_def role_names)
  show "own_entry \<lparr>sub_UserID = ''eve'', sub_Role = ''player''\<rparr> (RawJson (JObj [(''bob'', JStr ''owner'')])) =
    own_entry \<lparr>sub_UserID = ''eve'', sub_Role = ''player''\<rparr> (d_Ownership sample_document)"
    by (simp add: own_entry_def ParseACL_def unmarshal_string_map_def map_from_def
        sample_document_def zero_document_def ParseLevel_def)
  show "payloads_agree (d_Kind sample_document) (d_Subtype sample_document) sample_grant sample_policy []
      (d_Data sample_document) (RawJson (JObj [(''hp'', JStr ''3''), (''secret'', JStr ''y'')])) \<and>
    payloads_agree (d_Kind sample_document) (d_Subtype sample_document) sample_grant sample_policy ''flags''
      (d_Flags sample_document) RawNil"
    using sample_payloads_agree
    by (simp add: sample_document_def zero_document_def payloads_agree_def payload_map_def)
qed

section \<open>Hidden paths\<close>

definition hidden_below ::
  "string \<Rightarrow> string \<Rightarrow> string \<Rightarrow> Grant \<Rightarrow> FieldPolicy \<Rightarrow> json \<Rightarrow> string set" where
  "hidden_below kind subtype path grant policy v =
     (if Allows grant (policy kind subtype path)
      then (case v of JObj n \<Rightarrow> set (collectHidden n kind subtype path grant policy) | _ \<Rightarrow> {})
      else {path})"

lemma set_collectHidden_Cons:
  "set (collectHidden ((k, v) # m) kind subtype prefix grant policy) =
     hidden_below kind subtype (sub_path prefix k) grant policy v \<union>
     set (collectHidden m kind subtype prefix grant policy)"
  by (cases v) (simp_all add: hidden_below_def Let_def)

lemma set_collectHidden:
  "set (collectHidden m kind subtype prefix grant policy) =
     (\<Union>(k, v) \<in> set m. hidden_below kind subtype (sub_path prefix k) grant policy v)"
proof (induction m)
  case (Cons e m)
  then show ?case by (cases e) (simp only: set_collectHidden_Cons list.set UN_insert prod.case)
qed simp

lemma in_hidden_below:
  "p \<in> hidden_below kind subtype path grant policy v \<longleftrightarrow>
     (if Allows grant (policy kind subtype path)
      then \<exists>n. v = JObj n \<and> p \<in> set (collectHidden n kind subtype path grant policy)
      else p = path)"
  by (cases v) (simp_all add: hidden_below_def)

lemma collectHidden_iff:
  assumes "canonical (JObj m)"
  shows "p \<in> set (collectHidden m kind subtype prefix grant policy) \<longleftrightarrow>
     (\<exists>k v. map_of m k = Some v \<and>
        p \<in> hidden_below kind subtype (sub_path prefix k) grant policy v)"
proof -
  have mem: "map_of m k = Some v \<longleftrightarrow> (k, v) \<in> set m" for k v
    using assms by (simp add: is_gomap_distinct)
  show ?thesis unfolding mem set_collectHidden [of m] by auto
qed

text \<open>A root of what is hidden: an open path to a value, extended by one refused step.\<close>

definition hidden_root ::
  "string \<Rightarrow> string \<Rightarrow> Grant \<Rightarrow> FieldPolicy \<Rightarrow> string \<Rightarrow> json gomap \<Rightarrow> string \<Rightarrow> bool" where
  "hidden_root kind subtype grant policy prefix m p \<longleftrightarrow>
     (\<exists>ks k. open_path kind subtype grant policy prefix ks \<and>
        json_at (JObj m) (ks @ [k]) \<noteq> None \<and>
        p = sub_path (fold (\<lambda>k p. sub_path p k) ks prefix) k \<and>
        \<not> Allows grant (policy kind subtype p))"

lemma hidden_root_step:
  "hidden_root kind subtype grant policy prefix m p \<longleftrightarrow>
     (\<exists>k v. map_of m k = Some v \<and>
        (if Allows grant (policy kind subtype (sub_path prefix k))
         then \<exists>n. v = JObj n \<and> hidden_root kind subtype grant policy (sub_path prefix k) n p
         else p = sub_path prefix k))" (is "?lhs \<longleftrightarrow> ?rhs")
proof
  assume ?lhs
  then obtain ks j where h: "open_path kind subtype grant policy prefix ks"
    "json_at (JObj m) (ks @ [j]) \<noteq> None"
    "p = sub_path (fold (\<lambda>k p. sub_path p k) ks prefix) j"
    "\<not> Allows grant (policy kind subtype p)" unfolding hidden_root_def by blast
  show ?rhs
  proof (cases ks)
    case Nil
    with h show ?thesis by (intro exI [of _ j]) (auto split: option.splits)
  next
    case (Cons k ks')
    with h obtain v where v: "map_of m k = Some v" "json_at v (ks' @ [j]) \<noteq> None"
      by (auto split: option.splits)
    then obtain n where n: "v = JObj n" by (cases v; cases ks') auto
    with h v Cons have "hidden_root kind subtype grant policy (sub_path prefix k) n p"
      unfolding hidden_root_def by (intro exI [of _ ks'] exI [of _ j]) simp
    with h v n Cons show ?thesis by auto
  qed
next
  assume ?rhs
  then obtain k v where kv: "map_of m k = Some v"
    and c: "if Allows grant (policy kind subtype (sub_path prefix k))
      then \<exists>n. v = JObj n \<and> hidden_root kind subtype grant policy (sub_path prefix k) n p
      else p = sub_path prefix k" by blast
  show ?lhs
  proof (cases "Allows grant (policy kind subtype (sub_path prefix k))")
    case True
    with c obtain n ks j where "v = JObj n"
      "open_path kind subtype grant policy (sub_path prefix k) ks"
      "json_at (JObj n) (ks @ [j]) \<noteq> None"
      "p = sub_path (fold (\<lambda>k p. sub_path p k) ks (sub_path prefix k)) j"
      "\<not> Allows grant (policy kind subtype p)" unfolding hidden_root_def by auto
    with True kv show ?thesis
      unfolding hidden_root_def by (intro exI [of _ "k # ks"] exI [of _ j]) simp
  next
    case False
    with c kv show ?thesis
      unfolding hidden_root_def by (intro exI [of _ "[]"] exI [of _ k]) simp
  qed
qed

lemma collectHidden_roots:
  "canonical (JObj m) \<Longrightarrow>
     p \<in> set (collectHidden m kind subtype prefix grant policy) \<longleftrightarrow>
     hidden_root kind subtype grant policy prefix m p"
proof (induction "size (JObj m)" arbitrary: m prefix rule: less_induct)
  case less
  have "p \<in> set (collectHidden n kind subtype q grant policy) \<longleftrightarrow>
      hidden_root kind subtype grant policy q n p"
    if "map_of m k = Some (JObj n)" for k n q
    using less.hyps member_size [OF map_of_SomeD [OF that]] canonical_nested [OF less.prems that]
    by blast
  then have "map_of m k = Some v \<and> p \<in> hidden_below kind subtype q grant policy v \<longleftrightarrow>
      map_of m k = Some v \<and>
      (if Allows grant (policy kind subtype q)
       then \<exists>n. v = JObj n \<and> hidden_root kind subtype grant policy q n p
       else p = q)" for k v q
    by (auto simp: in_hidden_below)
  then show ?case
    unfolding collectHidden_iff [OF less.prems] hidden_root_step [of kind subtype grant policy prefix m]
    by simp
qed

text \<open>The hidden paths of a payload are exactly the roots of what redaction removes: the
  paths that hold a value, whose proper prefixes are all open and which the policy refuses.\<close>

theorem hidden_paths_exact:
  assumes "unmarshal_map raw = Inr m"
  shows "p \<in> set (HiddenPaths raw kind subtype grant policy) \<longleftrightarrow>
    (\<exists>ks k. open_path kind subtype grant policy [] ks \<and>
       json_at (JObj m) (ks @ [k]) \<noteq> None \<and>
       p = sub_path (fold (\<lambda>k p. sub_path p k) ks []) k \<and>
       \<not> Allows grant (policy kind subtype p))"
proof -
  from assms have "raw \<noteq> RawNil" by (auto simp: unmarshal_map_def)
  with assms have "HiddenPaths raw kind subtype grant policy =
      collectHidden m kind subtype [] grant policy" by (simp add: HiddenPaths_def)
  then show ?thesis
    using collectHidden_roots [of m p] unmarshal_map_canonical [OF assms]
    by (simp add: hidden_root_def)
qed

theorem hidden_paths_exact_witness:
  "''secret'' \<in> set (HiddenPaths (d_Data sample_document) ''actor'' [] sample_grant sample_policy)"
proof -
  have m: "unmarshal_map (d_Data sample_document) =
      Inr [(''hp'', JStr ''3''), (''secret'', JStr ''x'')]"
    by (simp add: sample_document_def unmarshal_map_def map_from_def)
  show ?thesis
    unfolding hidden_paths_exact [OF m]
    by (intro exI [of _ "[]"] exI [of _ "''secret''"])
       (simp add: sub_path_def sample_grant_def sample_policy_def Allows_def IsStaff_def
         role_names visibility_names)
qed

end
