(* ===== verification/Encoding.thy ===== *)
theory Encoding
  imports Prelude
begin

text \<open>
  The encodings of the Go standard library that tokens, identifiers and password hashes use:
  decimal numbers, base64 without padding (URL-safe and standard alphabet), base32 and hex.
\<close>

section \<open>Decimal numbers\<close>

fun digits_of :: "nat \<Rightarrow> string" where
  "digits_of n = (if n < 10 then [char_of (48 + n)] else digits_of (n div 10) @ [char_of (48 + n mod 10)])"

declare digits_of.simps [simp del]

lemma digit_char: "k < 10 \<Longrightarrow> is_digit (char_of (48 + k)) \<and> digit_val (char_of (48 + k)) = int k" for k :: nat
  using of_nat_of_char [of "char_of (48 + k)", where 'a = int]
  by (auto simp: is_digit_def digit_val_def less_eq_char_def simp del: of_nat_of_char)

lemma digits_of_digits: "c \<in> set (digits_of n) \<Longrightarrow> is_digit c"
proof (induction n rule: digits_of.induct)
  case (1 n)
  then show ?case using digit_char [of n] digit_char [of "n mod 10"]
    by (cases "n < 10") (auto simp: digits_of.simps [of n])
qed

lemma digits_of_nonempty: "digits_of n \<noteq> []"
  by (subst digits_of.simps) simp

lemma parse_digits_of: "parse_digits (digits_of n) = int n"
proof (induction n rule: digits_of.induct)
  case (1 n)
  have "10 * int (n div 10) + int (n mod 10) = int n" by presburger
  with 1 show ?case using digit_char [of n] digit_char [of "n mod 10"]
    by (cases "n < 10") (auto simp: digits_of.simps [of n] parse_digits_def)
qed

section \<open>Base64\<close>

definition byte :: "char \<Rightarrow> nat" where
  "byte c = of_char c"

definition b64_url :: string where
  "b64_url = ''ABCDEFGHIJKLMNOPQRSTUVWXYZabcdefghijklmnopqrstuvwxyz0123456789-_''"

definition b64_std :: string where
  "b64_std = ''ABCDEFGHIJKLMNOPQRSTUVWXYZabcdefghijklmnopqrstuvwxyz0123456789+/''"

text \<open>Groups of three bytes are four letters; a last group of one or two bytes has two or three.\<close>

fun base64 :: "string \<Rightarrow> string \<Rightarrow> string" where
  "base64 abc [] = []"
| "base64 abc [a] = [abc ! (byte a div 4), abc ! (byte a mod 4 * 16)]"
| "base64 abc [a, b] =
     [abc ! (byte a div 4), abc ! (byte a mod 4 * 16 + byte b div 16), abc ! (byte b mod 16 * 4)]"
| "base64 abc (a # b # c # r) =
     [abc ! (byte a div 4), abc ! (byte a mod 4 * 16 + byte b div 16),
      abc ! (byte b mod 16 * 4 + byte c div 64), abc ! (byte c mod 64)] @ base64 abc r"

fun index_of :: "'a list \<Rightarrow> 'a \<Rightarrow> nat option" where
  "index_of [] x = None"
| "index_of (y # ys) x = (if y = x then Some 0 else map_option Suc (index_of ys x))"

text \<open>
  Decoding skips line breaks and is not strict: the unused low bits of a last group are
  ignored.
\<close>

fun decode_groups :: "nat list \<Rightarrow> string option" where
  "decode_groups [] = Some []"
| "decode_groups [x] = None"
| "decode_groups [x, y] = Some [char_of (x * 4 + y div 16)]"
| "decode_groups [x, y, z] = Some [char_of (x * 4 + y div 16), char_of (y mod 16 * 16 + z div 4)]"
| "decode_groups (x # y # z # w # r) =
     map_option (\<lambda>s. [char_of (x * 4 + y div 16), char_of (y mod 16 * 16 + z div 4), char_of (z mod 4 * 64 + w)] @ s)
       (decode_groups r)"

definition base64_decode :: "string \<Rightarrow> string \<Rightarrow> string option" where
  "base64_decode abc s =
     (let s = filter (\<lambda>c. c \<noteq> char_of (10 :: nat) \<and> c \<noteq> char_of (13 :: nat)) s
      in if list_all (\<lambda>c. index_of abc c \<noteq> None) s then decode_groups (map (\<lambda>c. the (index_of abc c)) s)
         else None)"

definition base64_url :: "string \<Rightarrow> string" where
  "base64_url = base64 b64_url"

lemma index_of_nth: "distinct abc \<Longrightarrow> i < length abc \<Longrightarrow> index_of abc (abc ! i) = Some i"
proof (induction abc arbitrary: i)
  case (Cons y ys)
  then show ?case by (cases i) auto
qed simp

definition alphabet_ok :: "string \<Rightarrow> bool" where
  "alphabet_ok abc \<longleftrightarrow> distinct abc \<and> length abc = 64 \<and> char_of (10 :: nat) \<notin> set abc \<and> char_of (13 :: nat) \<notin> set abc"

lemma alphabets_ok: "alphabet_ok b64_url" "alphabet_ok b64_std"
  by (simp_all add: alphabet_ok_def b64_url_def b64_std_def) (code_simp+)

lemma byte_less: "byte c < 256"
  by (simp add: byte_def)

lemma char_of_byte [simp]: "char_of (byte c) = c"
  by (simp add: byte_def)

fun sextets :: "string \<Rightarrow> nat list" where
  "sextets [] = []"
| "sextets [a] = [byte a div 4, byte a mod 4 * 16]"
| "sextets [a, b] = [byte a div 4, byte a mod 4 * 16 + byte b div 16, byte b mod 16 * 4]"
| "sextets (a # b # c # r) =
     [byte a div 4, byte a mod 4 * 16 + byte b div 16, byte b mod 16 * 4 + byte c div 64, byte c mod 64] @ sextets r"

lemma base64_sextets: "base64 abc s = map (nth abc) (sextets s)"
  by (induction s rule: sextets.induct) simp_all

lemma byte_parts: "byte c div 4 < 64" "byte c div 16 < 16" "byte c div 64 < 4"
  using byte_less [of c] by linarith+

lemma sextets_less: "x \<in> set (sextets s) \<Longrightarrow> x < 64"
proof (induction s rule: sextets.induct)
  case (4 a b c r)
  have "byte a mod 4 * 16 + byte b div 16 < 64"
    using byte_parts(2) [of b] mod_less_divisor [of 4 "byte a"] by linarith
  moreover have "byte b mod 16 * 4 + byte c div 64 < 64"
    using byte_parts(3) [of c] mod_less_divisor [of 16 "byte b"] by linarith
  ultimately show ?case using 4 byte_parts(1) [of a] by auto
next
  case (3 a b)
  have "byte a mod 4 * 16 + byte b div 16 < 64"
    using byte_parts(2) [of b] mod_less_divisor [of 4 "byte a"] by linarith
  moreover have "byte b mod 16 * 4 < 64" using mod_less_divisor [of 16 "byte b"] by linarith
  ultimately show ?case using 3 byte_parts(1) [of a] by auto
next
  case (2 a)
  have "byte a mod 4 * 16 < 64" using mod_less_divisor [of 4 "byte a"] by linarith
  then show ?case using 2 byte_parts(1) [of a] by auto
qed simp

lemma digit_split: "x < k \<Longrightarrow> (p * k + x) div k = p" "x < k \<Longrightarrow> (p * k + x) mod k = x" for k p x :: nat
  by simp_all

lemma rejoin: "n div k * k + n mod k = n" for n k :: nat
  by (simp add: mult.commute)

lemma decode_sextets: "decode_groups (sextets s) = Some s"
proof (induction s rule: sextets.induct)
  case (4 a b c r)
  have 1: "(byte a mod 4 * 16 + byte b div 16) div 16 = byte a mod 4"
    "(byte a mod 4 * 16 + byte b div 16) mod 16 = byte b div 16"
    by (rule digit_split; rule byte_parts)+
  have 2: "(byte b mod 16 * 4 + byte c div 64) div 4 = byte b mod 16"
    "(byte b mod 16 * 4 + byte c div 64) mod 4 = byte c div 64"
    by (rule digit_split; rule byte_parts)+
  show ?case by (simp only: sextets.simps append.simps decode_groups.simps 1 2 rejoin 4 char_of_byte option.map)
next
  case (3 a b)
  have 1: "(byte a mod 4 * 16 + byte b div 16) div 16 = byte a mod 4"
    "(byte a mod 4 * 16 + byte b div 16) mod 16 = byte b div 16"
    by (rule digit_split; rule byte_parts)+
  show ?case by (simp only: sextets.simps decode_groups.simps 1 rejoin char_of_byte) (simp add: rejoin)
next
  case (2 a)
  show ?case by (simp add: rejoin)
qed simp

lemma base64_letters: "length abc = 64 \<Longrightarrow> set (base64 abc s) \<subseteq> set abc"
  using sextets_less by (auto simp: base64_sextets)

lemma base64_roundtrip:
  assumes "alphabet_ok abc"
  shows "base64_decode abc (base64 abc s) = Some s"
proof -
  have abc: "distinct abc" "length abc = 64" using assms by (simp_all add: alphabet_ok_def)
  have mem: "c \<in> set abc" if "c \<in> set (base64 abc s)" for c
    using that base64_letters [OF abc(2)] by blast
  then have keep: "filter (\<lambda>c. c \<noteq> char_of (10 :: nat) \<and> c \<noteq> char_of (13 :: nat)) (base64 abc s) = base64 abc s"
    using assms by (auto simp: alphabet_ok_def intro!: filter_True)
  have "map (\<lambda>c. the (index_of abc c)) (base64 abc s) = sextets s"
    unfolding base64_sextets map_map o_def
    by (rule map_idI) (use sextets_less [of _ s] abc in \<open>simp add: index_of_nth\<close>)
  moreover have "list_all (\<lambda>c. index_of abc c \<noteq> None) (base64 abc s)"
    using sextets_less abc by (auto simp: list_all_iff base64_sextets index_of_nth)
  ultimately show ?thesis by (simp add: base64_decode_def keep decode_sextets)
qed

lemma base64_url_inject: "base64_url r = base64_url s \<Longrightarrow> r = s"
  using base64_roundtrip [OF alphabets_ok(1)] unfolding base64_url_def by (metis option.inject)

section \<open>Base32 and hex\<close>

definition b32_lower :: string where
  "b32_lower = ''abcdefghijklmnopqrstuvwxyz234567''"

text \<open>
  \<open>strings.ToLower\<close> of the unpadded base32 encoding, for whole groups of five bytes, the only
  ones the server encodes.
\<close>

fun base32_lower :: "string \<Rightarrow> string" where
  "base32_lower (a # b # c # d # e # r) =
     map (nth b32_lower)
       [byte a div 8, byte a mod 8 * 4 + byte b div 64, byte b div 2 mod 32, byte b mod 2 * 16 + byte c div 16,
        byte c mod 16 * 2 + byte d div 128, byte d div 4 mod 32, byte d mod 4 * 8 + byte e div 32, byte e mod 32]
     @ base32_lower r"
| "base32_lower _ = []"

definition hex_digit :: "nat \<Rightarrow> char" where
  "hex_digit n = ''0123456789abcdef'' ! n"

definition hex_encode :: "string \<Rightarrow> string" where
  "hex_encode s = concat (map (\<lambda>c. [hex_digit (byte c div 16), hex_digit (byte c mod 16)]) s)"

end
