(* ===== verification/SqlStore.thy ===== *)
theory SqlStore
  imports StoragePort Encoding "HOL-Library.Product_Lexorder" "HOL-Library.Multiset"
begin

text \<open>
  The shared SQL implementation of the storage port (\<open>internal/storage/sqlstore\<close>).  The
  database is a record of tables; every method is the effect of the statements it sends,
  with the constraints of the schema (\<open>internal/storage/sqlite/sqlite.go\<close>): primary keys,
  unique columns and foreign keys.  A \<open>Conn\<close> says whether the connection is a writable
  transaction, what the clock shows and for which methods the driver reports an error;
  \<open>c_json_set\<close> and \<open>c_json_remove\<close> are the database's own JSON functions
  (\<open>jsonb_set\<close>, \<open>jsonb_remove\<close> or \<open>#-\<close>).  A column holding NULL for an absent id is the empty
  id.  Text columns are ordered bytewise.
\<close>

record DB =
  t_worlds :: "World list"
  t_documents :: "Document list"
  t_events :: "Event list"
  t_members :: "Member list"
  t_users :: "User list"
  t_sessions :: "UserSession list"
  t_invites :: "Invite list"
  t_assets :: "Asset list"

definition empty_db :: DB where
  "empty_db = \<lparr>t_worlds = [], t_documents = [], t_events = [], t_members = [], t_users = [],
     t_sessions = [], t_invites = [], t_assets = []\<rparr>"

record Conn =
  c_writable :: bool
  c_fails :: "string \<Rightarrow> bool"
  c_now :: time
  c_json_set :: "json \<Rightarrow> string list \<Rightarrow> json \<Rightarrow> json"
  c_json_remove :: "json \<Rightarrow> string list list \<Rightarrow> json"

definition stmt :: "Conn \<Rightarrow> string \<Rightarrow> 'a res \<Rightarrow> 'a res" where
  "stmt c op r = (if c_fails c op then Inl (ErrDriver op) else r)"

lemma stmt_Inr [simp]: "stmt c op r = Inr x \<longleftrightarrow> \<not> c_fails c op \<and> r = Inr x"
  by (simp add: stmt_def)

definition requireWritable :: "Conn \<Rightarrow> 'a res \<Rightarrow> 'a res" where
  "requireWritable c r = (if \<not> c_writable c then Inl ErrReadOnly else r)"

lemma requireWritable_Inr [simp]: "requireWritable c r = Inr x \<longleftrightarrow> c_writable c \<and> r = Inr x"
  by (simp add: requireWritable_def)

section \<open>Transactions\<close>

definition store_ReadOnly :: "Conn \<Rightarrow> (Conn \<Rightarrow> DB \<Rightarrow> 'a res) \<Rightarrow> DB \<Rightarrow> 'a res" where
  "store_ReadOnly c fn db = fn (c\<lparr>c_writable := False\<rparr>) db"

definition store_Tx :: "Conn \<Rightarrow> (Conn \<Rightarrow> DB \<Rightarrow> ('a \<times> DB) res) \<Rightarrow> DB \<Rightarrow> 'a res \<times> DB" where
  "store_Tx c fn db =
     (if c_fails c ''begin'' then (Inl (ErrDriver ''begin''), db)
      else case fn (c\<lparr>c_writable := True\<rparr>) db of
          Inl e \<Rightarrow> (Inl e, db)
        | Inr (x, db') \<Rightarrow>
            if c_fails c ''commit'' then (Inl (ErrDriver ''commit''), db) else (Inr x, db'))"

lemma store_Tx_error: "store_Tx c fn db = (Inl e, db') \<Longrightarrow> db' = db"
  by (auto simp: store_Tx_def split: if_splits sum.splits)

lemma store_Tx_ok:
  "store_Tx c fn db = (Inr x, db') \<longleftrightarrow>
     \<not> c_fails c ''begin'' \<and> \<not> c_fails c ''commit'' \<and> fn (c\<lparr>c_writable := True\<rparr>) db = Inr (x, db')"
  by (auto simp: store_Tx_def split: sum.splits)

text \<open>\<open>jsonArg\<close>: an absent value is stored as the fallback; malformed JSON is a driver error.\<close>

definition jsonArg :: "raw \<Rightarrow> raw \<Rightarrow> string \<Rightarrow> raw res" where
  "jsonArg raw fallback op =
     (case raw of RawNil \<Rightarrow> Inr fallback | RawBad \<Rightarrow> Inl (ErrDriver op) | RawJson v \<Rightarrow> Inr raw)"

section \<open>Worlds\<close>

definition merge_world :: "World \<Rightarrow> World \<Rightarrow> World" where
  "merge_world old new = new\<lparr>w_EventSeq := w_EventSeq old, w_CreatedAt := w_CreatedAt old\<rparr>"

definition GetWorld :: "Conn \<Rightarrow> DB \<Rightarrow> ID \<Rightarrow> World res" where
  "GetWorld c db wid = stmt c ''GetWorld''
     (case row_get w_ID wid (t_worlds db) of None \<Rightarrow> Inl ErrNotFound | Some w \<Rightarrow> Inr w)"

definition stored_world :: "Conn \<Rightarrow> World \<Rightarrow> World res" where
  "stored_world c world =
     bind_res (jsonArg (w_Settings world) raw_empty_object ''PutWorld'') (\<lambda>settings.
     Inr (world\<lparr>w_CreatedAt := (if w_CreatedAt world = 0 then c_now c else w_CreatedAt world),
       w_DefaultLocale := (if w_DefaultLocale world = [] then ''en'' else w_DefaultLocale world),
       w_Settings := settings\<rparr>))"

definition PutWorld :: "Conn \<Rightarrow> World \<Rightarrow> DB \<Rightarrow> DB res" where
  "PutWorld c world db = requireWritable c (stmt c ''PutWorld''
     (bind_res (stored_world c world) (\<lambda>world.
      if list_ex (\<lambda>w. w_ID w \<noteq> w_ID world \<and> w_Slug w = w_Slug world) (t_worlds db)
      then Inl ErrAlreadyExists
      else Inr (db\<lparr>t_worlds := row_upsert w_ID merge_world world (t_worlds db)\<rparr>))))"

definition ListWorlds :: "Conn \<Rightarrow> DB \<Rightarrow> World list res" where
  "ListWorlds c db = stmt c ''ListWorlds'' (Inr (sort_key w_Title (t_worlds db)))"

definition ListWorldsForUser :: "Conn \<Rightarrow> DB \<Rightarrow> ID \<Rightarrow> World list res" where
  "ListWorldsForUser c db uid = stmt c ''ListWorldsForUser''
     (Inr (sort_key w_Title (filter (\<lambda>w. list_ex (\<lambda>m. m_UserID m = uid \<and> m_WorldID m = w_ID w)
        (t_members db)) (t_worlds db))))"

definition world_exists :: "DB \<Rightarrow> ID \<Rightarrow> bool" where
  "world_exists db wid \<longleftrightarrow> list_ex (\<lambda>w. w_ID w = wid) (t_worlds db)"

section \<open>Members\<close>

definition member_key :: "Member \<Rightarrow> ID \<times> ID" where
  "member_key m = (m_WorldID m, m_UserID m)"

definition merge_member :: "Member \<Rightarrow> Member \<Rightarrow> Member" where
  "merge_member old new = old\<lparr>m_Role := m_Role new\<rparr>"

definition GetMember :: "Conn \<Rightarrow> DB \<Rightarrow> ID \<Rightarrow> ID \<Rightarrow> Member res" where
  "GetMember c db wid uid = stmt c ''GetMember''
     (case row_get member_key (wid, uid) (t_members db) of None \<Rightarrow> Inl ErrNotFound | Some m \<Rightarrow> Inr m)"

definition ListMembers :: "Conn \<Rightarrow> DB \<Rightarrow> ID \<Rightarrow> Member list res" where
  "ListMembers c db wid = stmt c ''ListMembers''
     (Inr (sort_key m_UserID (filter (\<lambda>m. m_WorldID m = wid) (t_members db))))"

definition stored_member :: "Conn \<Rightarrow> Member \<Rightarrow> Member" where
  "stored_member c m = m\<lparr>m_JoinedAt := (if m_JoinedAt m = 0 then c_now c else m_JoinedAt m)\<rparr>"

definition PutMember :: "Conn \<Rightarrow> Member \<Rightarrow> DB \<Rightarrow> DB res" where
  "PutMember c m db = requireWritable c (stmt c ''PutMember''
     (if \<not> world_exists db (m_WorldID m) then Inl (ErrDriver ''PutMember'')
      else Inr (db\<lparr>t_members :=
        row_upsert member_key merge_member (stored_member c m) (t_members db)\<rparr>)))"

definition DeleteMember :: "Conn \<Rightarrow> ID \<Rightarrow> ID \<Rightarrow> DB \<Rightarrow> DB res" where
  "DeleteMember c wid uid db = requireWritable c (stmt c ''DeleteMember''
     (if \<not> list_ex (\<lambda>m. member_key m = (wid, uid)) (t_members db) then Inl ErrNotFound
      else Inr (db\<lparr>t_members := row_delete (\<lambda>m. member_key m = (wid, uid)) (t_members db)\<rparr>)))"

section \<open>Documents\<close>

definition doc_key :: "Document \<Rightarrow> ID \<times> ID" where
  "doc_key d = (d_WorldID d, d_ID d)"

definition merge_document :: "Document \<Rightarrow> Document \<Rightarrow> Document" where
  "merge_document old new = new\<lparr>d_CreatedAt := d_CreatedAt old\<rparr>"

definition GetDocument :: "Conn \<Rightarrow> DB \<Rightarrow> ID \<Rightarrow> ID \<Rightarrow> Document res" where
  "GetDocument c db wid did = stmt c ''GetDocument''
     (case row_get doc_key (wid, did) (t_documents db) of None \<Rightarrow> Inl ErrNotFound | Some d \<Rightarrow> Inr d)"

definition defaultLimit :: int where "defaultLimit = 1000"

text \<open>\<open>parent_id = ?\<close> is never true of a NULL column, so an empty id selects nothing.\<close>

definition column_is :: "ID option \<Rightarrow> ID \<Rightarrow> bool" where
  "column_is wanted v = (case wanted of None \<Rightarrow> True | Some x \<Rightarrow> v = x \<and> v \<noteq> [])"

definition filter_matches :: "DocumentFilter \<Rightarrow> Document \<Rightarrow> bool" where
  "filter_matches f d \<longleftrightarrow>
     (f_Kind f \<noteq> [] \<longrightarrow> d_Kind d = f_Kind f) \<and>
     (f_Subtype f \<noteq> [] \<longrightarrow> d_Subtype d = f_Subtype f) \<and>
     column_is (f_ParentID f) (d_ParentID d) \<and>
     column_is (f_FolderID f) (d_FolderID d) \<and>
     (\<not> f_IncludeDeleted f \<longrightarrow> d_DeletedAt d = None) \<and>
     (f_UpdatedSince f > 0 \<longrightarrow> d_UpdatedSeq d > f_UpdatedSince f)"

definition ListDocuments :: "Conn \<Rightarrow> DB \<Rightarrow> ID \<Rightarrow> DocumentFilter \<Rightarrow> Document list res" where
  "ListDocuments c db wid f = stmt c ''ListDocuments''
     (let limit = (if f_Limit f \<le> 0 then defaultLimit else f_Limit f)
      in Inr (take (nat limit) (sort_key (\<lambda>d. (d_Sort d, d_ID d))
           (filter (\<lambda>d. d_WorldID d = wid \<and> filter_matches f d) (t_documents db)))))"

definition stored_document :: "Conn \<Rightarrow> Document \<Rightarrow> Document res" where
  "stored_document c doc =
     bind_res (jsonArg (d_Data doc) raw_empty_object ''PutDocument'') (\<lambda>data.
     bind_res (jsonArg (d_Flags doc) raw_empty_object ''PutDocument'') (\<lambda>flags.
     bind_res (jsonArg (d_Ownership doc) raw_empty_object ''PutDocument'') (\<lambda>ownership.
     Inr (doc\<lparr>d_Data := data, d_Flags := flags, d_Ownership := ownership,
       d_CreatedAt := (if d_CreatedAt doc = 0 then c_now c else d_CreatedAt doc),
       d_UpdatedAt := c_now c\<rparr>))))"

definition PutDocument :: "Conn \<Rightarrow> Document \<Rightarrow> DB \<Rightarrow> DB res" where
  "PutDocument c doc db = requireWritable c (stmt c ''PutDocument''
     (bind_res (stored_document c doc) (\<lambda>doc.
      if \<not> world_exists db (d_WorldID doc) then Inl (ErrDriver ''PutDocument'')
      else Inr (db\<lparr>t_documents := row_upsert doc_key merge_document doc (t_documents db)\<rparr>))))"

text \<open>\<open>segmentPattern\<close> and the path functions of \<open>dialect.go\<close>.\<close>

definition segment_char :: "char \<Rightarrow> bool" where
  "segment_char ch \<longleftrightarrow>
     (CHR ''A'' \<le> ch \<and> ch \<le> CHR ''Z'') \<or> (CHR ''a'' \<le> ch \<and> ch \<le> CHR ''z'') \<or>
     is_digit ch \<or> ch = CHR ''_'' \<or> ch = CHR ''-''"

definition segmentPattern :: "string \<Rightarrow> bool" where
  "segmentPattern s \<longleftrightarrow> s \<noteq> [] \<and> list_all segment_char s"

definition splitPath :: "string \<Rightarrow> string list res" where
  "splitPath path =
     (if path = [] then Inl ErrInvalidPath
      else let segments = split_on (CHR ''.'') path
           in if list_all segmentPattern segments then Inr segments else Inl ErrInvalidPath)"

fun splitPaths :: "string list \<Rightarrow> string list list res" where
  "splitPaths [] = Inr []"
| "splitPaths (p # ps) =
     bind_res (splitPath p) (\<lambda>segments. bind_res (splitPaths ps) (\<lambda>rest. Inr (segments # rest)))"

text \<open>
  \<open>sortedKeys\<close> is an insertion sort by adjacent swaps: key \<open>i\<close> moves left while it is smaller
  than its neighbour.  \<open>sink\<close> moves the last key of a reversed prefix.
\<close>

fun sink :: "'a::linorder \<Rightarrow> 'a list \<Rightarrow> 'a list" where
  "sink k [] = [k]"
| "sink k (p # ps) = (if k < p then p # sink k ps else k # p # ps)"

definition insertion_sort :: "'a::linorder list \<Rightarrow> 'a list" where
  "insertion_sort ks = rev (fold sink ks [])"

definition sortedKeys :: "(string \<times> 'v) list \<Rightarrow> string list" where
  "sortedKeys m = insertion_sort (map fst m)"

fun apply_sets :: "Conn \<Rightarrow> (string \<times> json) list \<Rightarrow> json \<Rightarrow> json res" where
  "apply_sets c [] data = Inr data"
| "apply_sets c ((k, v) # kvs) data =
     bind_res (splitPath k) (\<lambda>path. apply_sets c kvs (c_json_set c data path v))"

definition with_data :: "(json \<Rightarrow> json res) \<Rightarrow> Document \<Rightarrow> Document res" where
  "with_data f d =
     (case d_Data d of
        RawJson v \<Rightarrow> bind_res (f v) (\<lambda>w. Inr (d\<lparr>d_Data := RawJson w\<rparr>))
      | _ \<Rightarrow> Inr d)"

definition patched_document :: "Conn \<Rightarrow> Patch \<Rightarrow> raw \<Rightarrow> Document \<Rightarrow> Document" where
  "patched_document c patch ownership d =
     d\<lparr>d_UpdatedAt := c_now c, d_UpdatedSeq := p_Seq patch,
       d_Name := (case p_Name patch of None \<Rightarrow> d_Name d | Some n \<Rightarrow> n),
       d_Sort := (case p_Sort patch of None \<Rightarrow> d_Sort d | Some n \<Rightarrow> n),
       d_Img := (case p_Img patch of None \<Rightarrow> d_Img d | Some i \<Rightarrow> i),
       d_FolderID := (case p_FolderID patch of None \<Rightarrow> d_FolderID d | Some f \<Rightarrow> f),
       d_Ownership := (case p_Ownership patch of None \<Rightarrow> d_Ownership d | Some _ \<Rightarrow> ownership)\<rparr>"

definition patch_ownership :: "Patch \<Rightarrow> raw res" where
  "patch_ownership patch =
     (case p_Ownership patch of
        None \<Rightarrow> Inr RawNil
      | Some raw \<Rightarrow> jsonArg raw raw_empty_object ''PatchDocument'')"

text \<open>
  The order of the errors is the order of the code: paths to remove, paths to set, then the
  statement itself, which may find no row.
\<close>

definition PatchDocument :: "Conn \<Rightarrow> ID \<Rightarrow> ID \<Rightarrow> Patch \<Rightarrow> DB \<Rightarrow> (Document \<times> DB) res" where
  "PatchDocument c wid did patch db = requireWritable c
     (if IsEmpty patch then bind_res (GetDocument c db wid did) (\<lambda>d. Inr (d, db))
      else
        bind_res (splitPaths (p_Unset patch)) (\<lambda>unset.
        bind_res (splitPaths (sortedKeys (p_Set patch))) (\<lambda>_.
        stmt c ''PatchDocument''
          (bind_res (patch_ownership patch) (\<lambda>ownership.
           case row_get doc_key (wid, did) (t_documents db) of
             None \<Rightarrow> Inl ErrNotFound
           | Some d \<Rightarrow>
               bind_res (with_data (\<lambda>v.
                   apply_sets c (map (\<lambda>k. (k, the (map_of (p_Set patch) k))) (sortedKeys (p_Set patch)))
                     (if p_Unset patch = [] then v else c_json_remove c v unset)) d) (\<lambda>d'.
               let d'' = patched_document c patch ownership d'
               in Inr (d'', db\<lparr>t_documents :=
                    row_update (\<lambda>r. doc_key r = (wid, did)) (\<lambda>_. d'') (t_documents db)\<rparr>)))))))"

definition family :: "ID \<Rightarrow> ID \<Rightarrow> Document \<Rightarrow> bool" where
  "family wid did d \<longleftrightarrow> d_WorldID d = wid \<and> (d_ID d = did \<or> (d_ParentID d = did \<and> did \<noteq> []))"

definition DeleteDocument :: "Conn \<Rightarrow> ID \<Rightarrow> ID \<Rightarrow> DeleteMode \<Rightarrow> DB \<Rightarrow> DB res" where
  "DeleteDocument c wid did mode db = requireWritable c (stmt c ''DeleteDocument''
     (case mode of
        DeleteHard \<Rightarrow>
          (if \<not> list_ex (family wid did) (t_documents db) then Inl ErrNotFound
           else Inr (db\<lparr>t_documents := row_delete (family wid did) (t_documents db)\<rparr>))
      | DeleteSoft \<Rightarrow>
          (let hit = (\<lambda>d. family wid did d \<and> d_DeletedAt d = None)
           in if \<not> list_ex hit (t_documents db) then Inl ErrNotFound
              else Inr (db\<lparr>t_documents :=
                row_update hit (\<lambda>d. d\<lparr>d_DeletedAt := Some (c_now c)\<rparr>) (t_documents db)\<rparr>))))"

section \<open>Events\<close>

definition event_key :: "Event \<Rightarrow> ID \<times> int" where
  "event_key e = (e_WorldID e, e_Seq e)"

definition stored_event :: "Conn \<Rightarrow> int \<Rightarrow> Event \<Rightarrow> Event res" where
  "stored_event c seq event =
     bind_res (jsonArg (e_Payload event) raw_empty_object ''AppendEvent'') (\<lambda>payload.
     bind_res (jsonArg (e_Audience event) raw_empty_array ''AppendEvent'') (\<lambda>audience.
     bind_res (jsonArg (e_Undo event) (RawJson JNull) ''AppendEvent'') (\<lambda>undo.
     Inr (event\<lparr>e_Seq := seq,
       e_Timestamp := (if e_Timestamp event = 0 then c_now c else e_Timestamp event),
       e_Payload := payload, e_Audience := audience, e_Undo := undo\<rparr>))))"

definition AppendEvent :: "Conn \<Rightarrow> Event \<Rightarrow> DB \<Rightarrow> (int \<times> DB) res" where
  "AppendEvent c event db = requireWritable c (stmt c ''AppendEvent''
     (case row_get w_ID (e_WorldID event) (t_worlds db) of
        None \<Rightarrow> Inl ErrNotFound
      | Some w \<Rightarrow>
          bind_res (stored_event c (w_EventSeq w + 1) event) (\<lambda>e.
          if list_ex (\<lambda>x. event_key x = event_key e) (t_events db)
          then Inl (ErrDriver ''AppendEvent'')
          else Inr (w_EventSeq w + 1, db\<lparr>
            t_worlds := row_update (\<lambda>w. w_ID w = e_WorldID event)
              (\<lambda>w. w\<lparr>w_EventSeq := w_EventSeq w + 1\<rparr>) (t_worlds db),
            t_events := t_events db @ [e]\<rparr>))))"

definition EventsSince :: "Conn \<Rightarrow> DB \<Rightarrow> ID \<Rightarrow> int \<Rightarrow> int \<Rightarrow> Event list res" where
  "EventsSince c db wid seq limit = stmt c ''EventsSince''
     (let limit = (if limit \<le> 0 then defaultLimit else limit)
      in Inr (take (nat limit) (sort_key e_Seq
           (filter (\<lambda>e. e_WorldID e = wid \<and> e_Seq e > seq) (t_events db)))))"

text \<open>For evaluation: a limit that is not reached takes everything.\<close>

lemma take_limit: "take (nat k) xs = (if int (length xs) \<le> k then xs else take (nat k) xs)"
  by auto

lemma ListDocuments_code [code]:
  "ListDocuments c db wid f = stmt c ''ListDocuments''
     (let limit = (if f_Limit f \<le> 0 then defaultLimit else f_Limit f);
          rows = sort_key (\<lambda>d. (d_Sort d, d_ID d)) (filter (\<lambda>d. d_WorldID d = wid \<and> filter_matches f d) (t_documents db))
      in Inr (if int (length rows) \<le> limit then rows else take (nat limit) rows))"
  unfolding ListDocuments_def Let_def by (subst take_limit) (rule refl)

lemma EventsSince_code [code]:
  "EventsSince c db wid seq limit = stmt c ''EventsSince''
     (let limit = (if limit \<le> 0 then defaultLimit else limit);
          rows = sort_key e_Seq (filter (\<lambda>e. e_WorldID e = wid \<and> e_Seq e > seq) (t_events db))
      in Inr (if int (length rows) \<le> limit then rows else take (nat limit) rows))"
  unfolding EventsSince_def Let_def by (subst take_limit) (rule refl)

section \<open>Users and sessions\<close>

definition merge_user :: "User \<Rightarrow> User \<Rightarrow> User" where
  "merge_user old new = new\<lparr>u_CreatedAt := u_CreatedAt old\<rparr>"

definition GetUser :: "Conn \<Rightarrow> DB \<Rightarrow> ID \<Rightarrow> User res" where
  "GetUser c db uid = stmt c ''GetUser''
     (case row_get u_ID uid (t_users db) of None \<Rightarrow> Inl ErrNotFound | Some u \<Rightarrow> Inr u)"

definition GetUserByUsername :: "Conn \<Rightarrow> DB \<Rightarrow> string \<Rightarrow> User res" where
  "GetUserByUsername c db name = stmt c ''GetUserByUsername''
     (case row_get u_Username name (t_users db) of None \<Rightarrow> Inl ErrNotFound | Some u \<Rightarrow> Inr u)"

definition CountUsers :: "Conn \<Rightarrow> DB \<Rightarrow> int res" where
  "CountUsers c db = stmt c ''CountUsers'' (Inr (int (length (t_users db))))"

definition user_clash :: "User \<Rightarrow> User \<Rightarrow> bool" where
  "user_clash new u \<longleftrightarrow> u_ID u \<noteq> u_ID new \<and>
     (u_Username u = u_Username new \<or> (u_Email new \<noteq> [] \<and> u_Email u = u_Email new))"

definition stored_user :: "Conn \<Rightarrow> User \<Rightarrow> User" where
  "stored_user c user = user\<lparr>u_CreatedAt := (if u_CreatedAt user = 0 then c_now c else u_CreatedAt user)\<rparr>"

definition PutUser :: "Conn \<Rightarrow> User \<Rightarrow> DB \<Rightarrow> DB res" where
  "PutUser c user db = requireWritable c (stmt c ''PutUser''
     (if list_ex (user_clash user) (t_users db) then Inl ErrAlreadyExists
      else Inr (db\<lparr>t_users := row_upsert u_ID merge_user (stored_user c user) (t_users db)\<rparr>)))"

definition merge_session :: "UserSession \<Rightarrow> UserSession \<Rightarrow> UserSession" where
  "merge_session old new = old\<lparr>s_ExpiresAt := s_ExpiresAt new, s_LastSeenAt := s_LastSeenAt new\<rparr>"

definition GetUserSession :: "Conn \<Rightarrow> DB \<Rightarrow> string \<Rightarrow> UserSession res" where
  "GetUserSession c db h = stmt c ''GetUserSession''
     (case row_get s_TokenHash h (t_sessions db) of None \<Rightarrow> Inl ErrNotFound | Some s \<Rightarrow> Inr s)"

definition stored_session :: "Conn \<Rightarrow> UserSession \<Rightarrow> UserSession" where
  "stored_session c session = session\<lparr>
     s_CreatedAt := (if s_CreatedAt session = 0 then c_now c else s_CreatedAt session),
     s_LastSeenAt := (if s_LastSeenAt session = 0 then c_now c else s_LastSeenAt session)\<rparr>"

definition PutUserSession :: "Conn \<Rightarrow> UserSession \<Rightarrow> DB \<Rightarrow> DB res" where
  "PutUserSession c session db = requireWritable c (stmt c ''PutUserSession''
     (if \<not> list_ex (\<lambda>u. u_ID u = s_UserID session) (t_users db) then Inl (ErrDriver ''PutUserSession'')
      else Inr (db\<lparr>t_sessions :=
        row_upsert s_TokenHash merge_session (stored_session c session) (t_sessions db)\<rparr>)))"

definition TouchUserSession :: "Conn \<Rightarrow> string \<Rightarrow> time \<Rightarrow> DB \<Rightarrow> DB res" where
  "TouchUserSession c h seenAt db = requireWritable c (stmt c ''TouchUserSession''
     (Inr (db\<lparr>t_sessions := row_update (\<lambda>s. s_TokenHash s = h)
        (\<lambda>s. s\<lparr>s_LastSeenAt := seenAt\<rparr>) (t_sessions db)\<rparr>)))"

definition DeleteUserSession :: "Conn \<Rightarrow> string \<Rightarrow> DB \<Rightarrow> DB res" where
  "DeleteUserSession c h db = requireWritable c (stmt c ''DeleteUserSession''
     (Inr (db\<lparr>t_sessions := row_delete (\<lambda>s. s_TokenHash s = h) (t_sessions db)\<rparr>)))"

definition DeleteUserSessionsOf :: "Conn \<Rightarrow> ID \<Rightarrow> DB \<Rightarrow> DB res" where
  "DeleteUserSessionsOf c uid db = requireWritable c (stmt c ''DeleteUserSessionsOf''
     (Inr (db\<lparr>t_sessions := row_delete (\<lambda>s. s_UserID s = uid) (t_sessions db)\<rparr>)))"

section \<open>Invites\<close>

definition merge_invite :: "Invite \<Rightarrow> Invite \<Rightarrow> Invite" where
  "merge_invite old new = old\<lparr>i_Role := i_Role new, i_ExpiresAt := i_ExpiresAt new,
     i_MaxUses := i_MaxUses new, i_RevokedAt := i_RevokedAt new\<rparr>"

definition GetInviteByTokenHash :: "Conn \<Rightarrow> DB \<Rightarrow> string \<Rightarrow> Invite res" where
  "GetInviteByTokenHash c db h = stmt c ''GetInviteByTokenHash''
     (case row_get i_TokenHash h (t_invites db) of None \<Rightarrow> Inl ErrNotFound | Some i \<Rightarrow> Inr i)"

definition ListInvites :: "Conn \<Rightarrow> DB \<Rightarrow> ID \<Rightarrow> Invite list res" where
  "ListInvites c db wid = stmt c ''ListInvites''
     (Inr (sort_key (\<lambda>i. - i_CreatedAt i) (filter (\<lambda>i. i_WorldID i = wid) (t_invites db))))"

definition stored_invite :: "Conn \<Rightarrow> Invite \<Rightarrow> Invite" where
  "stored_invite c invite =
     invite\<lparr>i_CreatedAt := (if i_CreatedAt invite = 0 then c_now c else i_CreatedAt invite)\<rparr>"

definition PutInvite :: "Conn \<Rightarrow> Invite \<Rightarrow> DB \<Rightarrow> DB res" where
  "PutInvite c invite db = requireWritable c (stmt c ''PutInvite''
     (if \<not> world_exists db (i_WorldID invite) \<or>
         list_ex (\<lambda>i. i_ID i \<noteq> i_ID invite \<and> i_TokenHash i = i_TokenHash invite) (t_invites db)
      then Inl (ErrDriver ''PutInvite'')
      else Inr (db\<lparr>t_invites := row_upsert i_ID merge_invite (stored_invite c invite) (t_invites db)\<rparr>)))"

definition consumable :: "ID \<Rightarrow> ID \<Rightarrow> Invite \<Rightarrow> bool" where
  "consumable wid iid i \<longleftrightarrow> i_WorldID i = wid \<and> i_ID i = iid \<and> i_RevokedAt i = None \<and>
     (i_MaxUses i = 0 \<or> i_Uses i < i_MaxUses i)"

definition ConsumeInvite :: "Conn \<Rightarrow> ID \<Rightarrow> ID \<Rightarrow> DB \<Rightarrow> DB res" where
  "ConsumeInvite c wid iid db = requireWritable c (stmt c ''ConsumeInvite''
     (if \<not> list_ex (consumable wid iid) (t_invites db) then Inl ErrNotFound
      else Inr (db\<lparr>t_invites := row_update (consumable wid iid)
        (\<lambda>i. i\<lparr>i_Uses := i_Uses i + 1\<rparr>) (t_invites db)\<rparr>)))"

definition RevokeInvite :: "Conn \<Rightarrow> ID \<Rightarrow> ID \<Rightarrow> DB \<Rightarrow> DB res" where
  "RevokeInvite c wid iid db = requireWritable c (stmt c ''RevokeInvite''
     (let hit = (\<lambda>i. i_WorldID i = wid \<and> i_ID i = iid \<and> i_RevokedAt i = None)
      in if \<not> list_ex hit (t_invites db) then Inl ErrNotFound
         else Inr (db\<lparr>t_invites := row_update hit
           (\<lambda>i. i\<lparr>i_RevokedAt := Some (c_now c)\<rparr>) (t_invites db)\<rparr>)))"

section \<open>Assets\<close>

definition defaultAssetLimit :: int where "defaultAssetLimit = 200"

definition merge_asset :: "Asset \<Rightarrow> Asset \<Rightarrow> Asset" where
  "merge_asset old new = old\<lparr>a_Mime := a_Mime new, a_Bytes := a_Bytes new, a_Width := a_Width new,
     a_Height := a_Height new, a_DurationMS := a_DurationMS new, a_Variants := a_Variants new\<rparr>"

definition GetAsset :: "Conn \<Rightarrow> DB \<Rightarrow> ID \<Rightarrow> ID \<Rightarrow> Asset res" where
  "GetAsset c db wid aid = stmt c ''GetAsset''
     (case find (\<lambda>a. a_WorldID a = wid \<and> a_ID a = aid) (t_assets db) of
        None \<Rightarrow> Inl ErrNotFound | Some a \<Rightarrow> Inr a)"

definition GetAssetBySHA256 :: "Conn \<Rightarrow> DB \<Rightarrow> ID \<Rightarrow> string \<Rightarrow> Asset res" where
  "GetAssetBySHA256 c db wid sha = stmt c ''GetAssetBySHA256''
     (case find (\<lambda>a. a_WorldID a = wid \<and> a_SHA256 a = sha) (t_assets db) of
        None \<Rightarrow> Inl ErrNotFound | Some a \<Rightarrow> Inr a)"

definition ListAssets :: "Conn \<Rightarrow> DB \<Rightarrow> ID \<Rightarrow> int \<Rightarrow> Asset list res" where
  "ListAssets c db wid limit = stmt c ''ListAssets''
     (let limit = (if limit \<le> 0 \<or> limit > defaultAssetLimit then defaultAssetLimit else limit)
      in Inr (take (nat limit) (rev (sort_key (\<lambda>a. (a_CreatedAt a, a_ID a))
           (filter (\<lambda>a. a_WorldID a = wid) (t_assets db))))))"

definition SumAssetBytes :: "Conn \<Rightarrow> DB \<Rightarrow> ID \<Rightarrow> int res" where
  "SumAssetBytes c db wid = stmt c ''SumAssetBytes''
     (Inr (sum_list (map a_Bytes (filter (\<lambda>a. a_WorldID a = wid) (t_assets db)))))"

definition stored_asset :: "Conn \<Rightarrow> Asset \<Rightarrow> Asset res" where
  "stored_asset c asset =
     bind_res (jsonArg (a_Variants asset) raw_empty_object ''PutAsset'') (\<lambda>variants.
     Inr (asset\<lparr>a_Variants := variants,
       a_CreatedAt := (if a_CreatedAt asset = 0 then c_now c else a_CreatedAt asset)\<rparr>))"

definition PutAsset :: "Conn \<Rightarrow> Asset \<Rightarrow> DB \<Rightarrow> DB res" where
  "PutAsset c asset db = requireWritable c (stmt c ''PutAsset''
     (bind_res (stored_asset c asset) (\<lambda>asset.
      if \<not> world_exists db (a_WorldID asset) then Inl (ErrDriver ''PutAsset'')
      else if list_ex (\<lambda>a. a_ID a \<noteq> a_ID asset \<and> a_WorldID a = a_WorldID asset \<and>
           a_SHA256 a = a_SHA256 asset) (t_assets db)
      then Inl ErrAlreadyExists
      else Inr (db\<lparr>t_assets := row_upsert a_ID merge_asset asset (t_assets db)\<rparr>))))"

definition DeleteAsset :: "Conn \<Rightarrow> ID \<Rightarrow> ID \<Rightarrow> DB \<Rightarrow> DB res" where
  "DeleteAsset c wid aid db = requireWritable c (stmt c ''DeleteAsset''
     (let hit = (\<lambda>a. a_WorldID a = wid \<and> a_ID a = aid)
      in if \<not> list_ex hit (t_assets db) then Inl ErrNotFound
         else Inr (db\<lparr>t_assets := row_delete hit (t_assets db)\<rparr>)))"

section \<open>Placeholders\<close>

text \<open>\<open>RebindDollar\<close> numbers the question marks of a query for PostgreSQL.\<close>

fun rebind_from :: "nat \<Rightarrow> string \<Rightarrow> string" where
  "rebind_from index [] = []"
| "rebind_from index (ch # query) =
     (if ch \<noteq> CHR ''?'' then ch # rebind_from index query
      else CHR ''$'' # digits_of (Suc index) @ rebind_from (Suc index) query)"

definition RebindDollar :: "string \<Rightarrow> string" where
  "RebindDollar query = rebind_from 0 query"

section \<open>The tables as keyed tables\<close>

interpretation worlds: keyed_table w_ID merge_world
  by unfold_locales (simp add: merge_world_def)

interpretation members: keyed_table member_key merge_member
  by unfold_locales (simp add: merge_member_def member_key_def)

interpretation documents: keyed_table doc_key merge_document
  by unfold_locales (simp add: merge_document_def doc_key_def)

interpretation users: keyed_table u_ID merge_user
  by unfold_locales (simp add: merge_user_def)

interpretation sessions: keyed_table s_TokenHash merge_session
  by unfold_locales (simp add: merge_session_def)

interpretation invites: keyed_table i_ID merge_invite
  by unfold_locales (simp add: merge_invite_def)

interpretation assets: keyed_table a_ID merge_asset
  by unfold_locales (simp add: merge_asset_def)

section \<open>The invariant of the database\<close>

text \<open>
  Primary keys and unique columns are unique, every reference has its row, and the events of
  a world are stored in order, numbered without a gap up to the world's counter.
\<close>

definition world_log :: "DB \<Rightarrow> ID \<Rightarrow> Event list" where
  "world_log db wid = filter (\<lambda>e. e_WorldID e = wid) (t_events db)"

definition refers :: "('r \<Rightarrow> 'k) \<Rightarrow> 'r list \<Rightarrow> ('s \<Rightarrow> 'k) \<Rightarrow> 's list \<Rightarrow> bool" where
  "refers fk rows key targets \<longleftrightarrow> (\<forall>r \<in> set rows. fk r \<in> key ` set targets)"

definition gapless :: "DB \<Rightarrow> bool" where
  "gapless db \<longleftrightarrow> (\<forall>w \<in> set (t_worlds db).
     map e_Seq (world_log db (w_ID w)) =
       [w_EventSeq w - int (length (world_log db (w_ID w))) + 1 .. w_EventSeq w])"

definition emails_unique :: "User list \<Rightarrow> bool" where
  "emails_unique us \<longleftrightarrow> keys_unique u_Email (filter (\<lambda>u. u_Email u \<noteq> []) us)"

definition db_ok :: "DB \<Rightarrow> bool" where
  "db_ok db \<longleftrightarrow>
     keys_unique w_ID (t_worlds db) \<and> keys_unique w_Slug (t_worlds db) \<and>
     keys_unique doc_key (t_documents db) \<and> refers d_WorldID (t_documents db) w_ID (t_worlds db) \<and>
     refers e_WorldID (t_events db) w_ID (t_worlds db) \<and> gapless db \<and>
     keys_unique member_key (t_members db) \<and> refers m_WorldID (t_members db) w_ID (t_worlds db) \<and>
     keys_unique u_ID (t_users db) \<and> keys_unique u_Username (t_users db) \<and> emails_unique (t_users db) \<and>
     keys_unique s_TokenHash (t_sessions db) \<and> refers s_UserID (t_sessions db) u_ID (t_users db) \<and>
     keys_unique i_ID (t_invites db) \<and> keys_unique i_TokenHash (t_invites db) \<and>
     refers i_WorldID (t_invites db) w_ID (t_worlds db) \<and>
     keys_unique a_ID (t_assets db) \<and> keys_unique (\<lambda>a. (a_WorldID a, a_SHA256 a)) (t_assets db) \<and>
     refers a_WorldID (t_assets db) w_ID (t_worlds db)"

lemma world_exists_iff: "world_exists db wid \<longleftrightarrow> wid \<in> w_ID ` set (t_worlds db)"
  by (simp add: world_exists_def has_key_iff)

lemma refers_mono:
  "refers fk rows key ts \<Longrightarrow> key ` set ts \<subseteq> key ` set ts' \<Longrightarrow> refers fk rows key ts'"
  by (auto simp: refers_def)

lemma refers_delete [simp, intro]: "refers fk rows key ts \<Longrightarrow> refers fk (row_delete P rows) key ts"
  by (auto simp: refers_def row_delete_def)

lemma refers_update [simp, intro]:
  "(\<And>r. fk (f r) = fk r) \<Longrightarrow> refers fk rows key ts \<Longrightarrow> refers fk (row_update P f rows) key ts"
  by (auto simp: refers_def row_update_def)

lemma refers_upsert:
  assumes "refers fk rows key ts" and "fk row \<in> key ` set ts"
    and "\<And>old. fk (merge old row) = fk old \<or> fk (merge old row) = fk row"
  shows "refers fk (row_upsert k merge row rows) key ts"
proof -
  have "fk r \<in> key ` set ts" if r: "r \<in> set (row_upsert k merge row rows)" for r
  proof (cases "r \<in> set rows \<or> r = row")
    case False
    with r obtain old where "old \<in> set rows" "r = merge old row"
      by (auto simp: row_upsert_def split: if_splits)
    with assms show ?thesis by (metis refers_def)
  qed (use assms in \<open>auto simp: refers_def\<close>)
  then show ?thesis by (simp add: refers_def)
qed

text \<open>A second unique column stays unique when no other row has the value.\<close>

lemma keys_unique_Cons:
  "keys_unique k (r # rows) \<longleftrightarrow> (\<forall>x \<in> set rows. k x \<noteq> k r) \<and> keys_unique k rows"
  by (auto simp: keys_unique_def image_iff)

lemma unique_map_if:
  assumes "keys_unique k rows" and "keys_unique col rows"
    and "\<And>r. r \<in> set rows \<Longrightarrow> k r = k row \<Longrightarrow> col (merge r row) = col row \<or> col (merge r row) = col r"
    and "\<And>r. r \<in> set rows \<Longrightarrow> k r \<noteq> k row \<Longrightarrow> col r \<noteq> col row"
  shows "keys_unique col (map (\<lambda>r. if k r = k row then merge r row else r) rows)"
  using assms
proof (induction rows)
  case (Cons r rows)
  have rest: "keys_unique col (map (\<lambda>r. if k r = k row then merge r row else r) rows)"
    using Cons by (auto simp: keys_unique_def)
  have "col (if k r = k row then merge r row else r) \<noteq> col (if k x = k row then merge x row else x)"
    if "x \<in> set rows" for x
  proof -
    have "k x \<noteq> k r" using Cons.prems(1) that by (simp add: keys_unique_Cons)
    moreover have "col x \<noteq> col r" using Cons.prems(2) that by (simp add: keys_unique_Cons)
    ultimately show ?thesis
      using Cons.prems(3) [of r] Cons.prems(3) [of x] Cons.prems(4) [of r] Cons.prems(4) [of x] that
      by auto
  qed
  then show ?case using rest by (simp only: list.map keys_unique_Cons set_map ball_simps) metis
qed (simp add: keys_unique_def)

lemma unique_upsert:
  assumes "keys_unique k rows" and "keys_unique col rows"
    and "\<And>r. r \<in> set rows \<Longrightarrow> k r = k row \<Longrightarrow> col (merge r row) = col row \<or> col (merge r row) = col r"
    and "\<not> list_ex (\<lambda>r. k r \<noteq> k row \<and> col r = col row) rows"
  shows "keys_unique col (row_upsert k merge row rows)"
proof (cases "list_ex (\<lambda>r. k r = k row) rows")
  case True
  have "keys_unique col (map (\<lambda>r. if k r = k row then merge r row else r) rows)"
    by (rule unique_map_if) (use assms in \<open>auto simp: list_ex_iff\<close>)
  with True show ?thesis by (simp add: row_upsert_def)
next
  case False
  with assms show ?thesis by (auto simp: row_upsert_def keys_unique_def list_ex_iff)
qed

section \<open>Every operation keeps the invariant\<close>

lemma db_ok_empty: "db_ok empty_db"
  by (simp add: db_ok_def empty_db_def keys_unique_def refers_def gapless_def emails_unique_def)

text \<open>Operations that leave \<open>worlds\<close> and \<open>world_events\<close> alone leave the log alone.\<close>

lemma gapless_same:
  "t_worlds db' = t_worlds db \<Longrightarrow> t_events db' = t_events db \<Longrightarrow> gapless db' \<longleftrightarrow> gapless db"
  by (simp add: gapless_def world_log_def)

lemmas op_cases = res_simps Let_def

lemmas invariant_parts = db_ok_def gapless_def world_log_def world_exists_iff

lemma stored_fields [simp]:
  "m_WorldID (stored_member c m) = m_WorldID m"
  "u_ID (stored_user c u) = u_ID u" "u_Username (stored_user c u) = u_Username u"
  "u_Email (stored_user c u) = u_Email u"
  "s_UserID (stored_session c s) = s_UserID s"
  "i_ID (stored_invite c i) = i_ID i" "i_WorldID (stored_invite c i) = i_WorldID i"
  "i_TokenHash (stored_invite c i) = i_TokenHash i"
  by (simp_all add: stored_member_def stored_user_def stored_session_def stored_invite_def)

lemma PutMember_ok:
  assumes "PutMember c m db = Inr db'" and "db_ok db"
  shows "db_ok db'"
proof -
  from assms(1) have ex: "world_exists db (m_WorldID m)"
    and db': "db' = db\<lparr>t_members := row_upsert member_key merge_member (stored_member c m) (t_members db)\<rparr>"
    by (auto simp: PutMember_def split: if_splits)
  have "refers m_WorldID (row_upsert member_key merge_member (stored_member c m) (t_members db)) w_ID (t_worlds db)"
    by (rule refers_upsert) (use assms(2) ex in \<open>auto simp: invariant_parts merge_member_def\<close>)
  with assms(2) show ?thesis by (simp add: db' invariant_parts members.upsert_unique)
qed

lemma DeleteMember_ok: "DeleteMember c wid uid db = Inr db' \<Longrightarrow> db_ok db \<Longrightarrow> db_ok db'"
  by (auto simp: DeleteMember_def invariant_parts split: if_splits)

lemma PutDocument_ok:
  assumes "PutDocument c doc db = Inr db'" and "db_ok db"
  shows "db_ok db'"
proof -
  from assms(1) obtain doc' where ex: "world_exists db (d_WorldID doc')"
    and db': "db' = db\<lparr>t_documents := row_upsert doc_key merge_document doc' (t_documents db)\<rparr>"
    by (auto simp: PutDocument_def op_cases split: if_splits)
  have "refers d_WorldID (row_upsert doc_key merge_document doc' (t_documents db)) w_ID (t_worlds db)"
    by (rule refers_upsert) (use assms(2) ex in \<open>auto simp: invariant_parts merge_document_def\<close>)
  with assms(2) show ?thesis by (simp add: db' invariant_parts documents.upsert_unique)
qed

lemma with_data_fields:
  "with_data f d = Inr d' \<Longrightarrow> doc_key d' = doc_key d \<and> d_Name d' = d_Name d \<and> d_Sort d' = d_Sort d \<and>
     d_Img d' = d_Img d \<and> d_FolderID d' = d_FolderID d \<and> d_Ownership d' = d_Ownership d \<and>
     d_Kind d' = d_Kind d \<and> d_ParentID d' = d_ParentID d \<and> d_DeletedAt d' = d_DeletedAt d"
  by (auto simp: with_data_def doc_key_def op_cases split: raw.splits)

lemma with_data_id: "with_data Inr d = Inr d'  \<Longrightarrow> d' = d"
  by (cases d) (auto simp: with_data_def split: raw.splits)

lemma PatchDocument_cases:
  assumes "PatchDocument c wid did patch db = Inr (d, db')"
  obtains "IsEmpty patch" and "db' = db" and "row_get doc_key (wid, did) (t_documents db) = Some d"
  | old where "\<not> IsEmpty patch" and "row_get doc_key (wid, did) (t_documents db) = Some old"
    and "doc_key d = (wid, did)" and "d_UpdatedSeq d = p_Seq patch"
    and "db' = db\<lparr>t_documents := row_update (\<lambda>r. doc_key r = (wid, did)) (\<lambda>_. d) (t_documents db)\<rparr>"
proof (cases "IsEmpty patch")
  case True
  with assms that(1) show ?thesis
    by (auto simp: PatchDocument_def op_cases GetDocument_def split: option.splits)
next
  case False
  with assms obtain unset ownership old d' where old: "row_get doc_key (wid, did) (t_documents db) = Some old"
    and d': "with_data (\<lambda>v. apply_sets c
        (map (\<lambda>k. (k, the (map_of (p_Set patch) k))) (sortedKeys (p_Set patch)))
        (if p_Unset patch = [] then v else c_json_remove c v unset)) old = Inr d'"
    and d: "d = patched_document c patch ownership d'"
    and db': "db' = db\<lparr>t_documents := row_update (\<lambda>r. doc_key r = (wid, did)) (\<lambda>_. d) (t_documents db)\<rparr>"
    by (auto simp: PatchDocument_def op_cases split: option.splits)
  from d' have "doc_key d' = doc_key old" by (simp add: with_data_fields)
  with old have "doc_key d = (wid, did)"
    by (auto simp: d patched_document_def doc_key_def dest: row_get_SomeD)
  then show ?thesis by (rule that(2) [OF False old]) (simp_all add: d patched_document_def db')
qed

lemma map_key_row_update:
  "(\<And>r. r \<in> set rows \<Longrightarrow> P r \<Longrightarrow> key (f r) = key r) \<Longrightarrow> map key (row_update P f rows) = map key rows"
  by (auto simp: row_update_def)

lemma PatchDocument_ok:
  assumes "PatchDocument c wid did patch db = Inr (d, db')" and "db_ok db"
  shows "db_ok db'"
  using assms(1)
proof (cases rule: PatchDocument_cases)
  case (2 old)
  let ?rows = "row_update (\<lambda>r. doc_key r = (wid, did)) (\<lambda>_. d) (t_documents db)"
  have "map doc_key ?rows = map doc_key (t_documents db)"
    by (rule map_key_row_update) (use 2 in auto)
  moreover have "map d_WorldID ?rows = map d_WorldID (t_documents db)"
    by (rule map_key_row_update) (use 2 in \<open>auto simp: doc_key_def\<close>)
  ultimately show ?thesis using assms(2)
    by (simp add: 2 invariant_parts keys_unique_def refers_def)
       (metis (no_types, lifting) image_eqI image_iff list.set_map)
qed (use assms(2) in simp)

lemma DeleteDocument_ok:
  assumes "DeleteDocument c wid did mode db = Inr db'" and "db_ok db"
  shows "db_ok db'"
proof (cases mode)
  case DeleteSoft
  have "keys_unique doc_key (row_update P (\<lambda>d. d\<lparr>d_DeletedAt := t\<rparr>) (t_documents db))" for P t
    using assms(2) by (simp add: invariant_parts doc_key_def)
  moreover have "refers d_WorldID (row_update P (\<lambda>d. d\<lparr>d_DeletedAt := t\<rparr>) (t_documents db)) w_ID (t_worlds db)" for P t
    using assms(2) by (simp add: invariant_parts)
  ultimately show ?thesis using assms DeleteSoft
    by (auto simp: DeleteDocument_def invariant_parts Let_def split: if_splits)
qed (use assms in \<open>auto simp: DeleteDocument_def invariant_parts split: if_splits\<close>)

lemma log_of_appended:
  "world_log (db\<lparr>t_worlds := ws, t_events := t_events db @ [e]\<rparr>) wid =
     world_log db wid @ (if e_WorldID e = wid then [e] else [])"
  by (simp add: world_log_def)

lemma stored_event_fields:
  "stored_event c seq event = Inr e \<Longrightarrow> e_WorldID e = e_WorldID event \<and> e_Seq e = seq \<and>
     e_Kind e = e_Kind event \<and> e_TargetID e = e_TargetID event"
  by (auto simp: stored_event_def op_cases)

lemma AppendEvent_cases:
  assumes "AppendEvent c event db = Inr (seq, db')"
  obtains w e where "row_get w_ID (e_WorldID event) (t_worlds db) = Some w"
    and "seq = w_EventSeq w + 1" and "stored_event c seq event = Inr e"
    and "e_WorldID e = e_WorldID event" and "e_Seq e = seq"
    and "db' = db\<lparr>t_worlds := row_update (\<lambda>w. w_ID w = e_WorldID event)
          (\<lambda>w. w\<lparr>w_EventSeq := w_EventSeq w + 1\<rparr>) (t_worlds db), t_events := t_events db @ [e]\<rparr>"
  using assms that
  by (auto simp: AppendEvent_def op_cases split: option.splits if_splits dest: stored_event_fields)

lemma AppendEvent_gapless:
  assumes db': "db' = db\<lparr>t_worlds := row_update (\<lambda>w. w_ID w = wid)
          (\<lambda>w. w\<lparr>w_EventSeq := w_EventSeq w + 1\<rparr>) (t_worlds db), t_events := t_events db @ [e]\<rparr>"
    and w: "row_get w_ID wid (t_worlds db) = Some w" and e: "e_WorldID e = wid" "e_Seq e = w_EventSeq w + 1"
    and ok: "keys_unique w_ID (t_worlds db)" "gapless db"
  shows "gapless db'"
  unfolding gapless_def
proof
  fix v' assume "v' \<in> set (t_worlds db')"
  then obtain v where v: "v \<in> set (t_worlds db)"
    and v': "v' = (if w_ID v = wid then v\<lparr>w_EventSeq := w_EventSeq v + 1\<rparr> else v)"
    by (auto simp: db' row_update_def)
  have ih: "map e_Seq (world_log db (w_ID v)) =
      [w_EventSeq v - int (length (world_log db (w_ID v))) + 1 .. w_EventSeq v]"
    using ok(2) v by (simp add: gapless_def)
  show "map e_Seq (world_log db' (w_ID v')) =
      [w_EventSeq v' - int (length (world_log db' (w_ID v'))) + 1 .. w_EventSeq v']"
  proof (cases "w_ID v = wid")
    case True
    have "v = w" using row_get_unique [OF ok(1) v] w True by simp
    with True ih e show ?thesis
      by (simp add: v' db' log_of_appended upto_rec2)
  next
    case False
    with ih e show ?thesis by (simp add: v' db' log_of_appended)
  qed
qed

lemma AppendEvent_ok:
  assumes "AppendEvent c event db = Inr (seq, db')" and "db_ok db"
  shows "db_ok db'"
  using assms(1)
proof (cases rule: AppendEvent_cases)
  case (1 w e)
  let ?ws = "row_update (\<lambda>w. w_ID w = e_WorldID event)
    (\<lambda>w. w\<lparr>w_EventSeq := w_EventSeq w + 1\<rparr>) (t_worlds db)"
  have ids: "w_ID ` set ?ws = w_ID ` set (t_worlds db)"
    using map_key_row_update [where key = w_ID] by (metis (no_types, lifting) World.select_convs(1)
      World.surjective World.update_convs(9) list.set_map)
  have "keys_unique w_ID ?ws" "keys_unique w_Slug ?ws" using assms(2) by (simp_all add: db_ok_def)
  moreover have "gapless db'"
    by (rule AppendEvent_gapless [OF 1(6)]) (use 1 assms(2) in \<open>simp_all add: db_ok_def\<close>)
  moreover have "refers e_WorldID (t_events db @ [e]) w_ID ?ws"
    using assms(2) 1(4) ids row_get_SomeD [OF 1(1)] by (auto simp: db_ok_def refers_def) (metis image_eqI)
  ultimately show ?thesis using assms(2) 1(6) ids
    by (simp add: db_ok_def refers_def)
qed

lemma gapless_put_world:
  assumes "gapless db" and "refers e_WorldID (t_events db) w_ID (t_worlds db)"
    and ws: "t_worlds db' = row_upsert w_ID merge_world world (t_worlds db)" and "t_events db' = t_events db"
  shows "gapless db'"
  unfolding gapless_def
proof
  fix v assume "v \<in> set (t_worlds db')"
  then consider (old) u where "u \<in> set (t_worlds db)" "w_ID v = w_ID u" "w_EventSeq v = w_EventSeq u"
    | (new) "v = world" "w_ID world \<notin> w_ID ` set (t_worlds db)"
    by (auto simp: ws row_upsert_def has_key_iff merge_world_def split: if_splits)
  then show "map e_Seq (world_log db' (w_ID v)) =
      [w_EventSeq v - int (length (world_log db' (w_ID v))) + 1 .. w_EventSeq v]"
  proof cases
    case old
    with assms show ?thesis by (simp add: gapless_def world_log_def)
  next
    case new
    with assms have "world_log db' (w_ID v) = []"
      by (auto simp: refers_def world_log_def filter_empty_conv) (metis)
    then show ?thesis by simp
  qed
qed

lemma PutWorld_ok:
  assumes "PutWorld c world db = Inr db'" and "db_ok db"
  shows "db_ok db'"
proof -
  from assms(1) obtain w where
    fresh: "\<not> list_ex (\<lambda>v. w_ID v \<noteq> w_ID w \<and> w_Slug v = w_Slug w) (t_worlds db)"
    and db': "db' = db\<lparr>t_worlds := row_upsert w_ID merge_world w (t_worlds db)\<rparr>"
    by (auto simp: PutWorld_def op_cases split: if_splits)
  have "gapless db'"
    by (rule gapless_put_world [of db]) (use assms(2) db' in \<open>simp_all add: db_ok_def\<close>)
  moreover have "keys_unique w_Slug (row_upsert w_ID merge_world w (t_worlds db))"
    by (rule unique_upsert) (use assms(2) fresh in \<open>auto simp: db_ok_def merge_world_def\<close>)
  ultimately show ?thesis using assms(2)
    by (auto simp: db' db_ok_def worlds.upsert_unique worlds.upsert_keys intro: refers_mono)
qed

lemma emails_unique_upsert:
  assumes "keys_unique u_ID us" and "emails_unique us"
    and "\<And>u. u \<in> set us \<Longrightarrow> u_ID u \<noteq> u_ID user \<Longrightarrow> u_Email user \<noteq> [] \<Longrightarrow> u_Email u \<noteq> u_Email user"
  shows "emails_unique (row_upsert u_ID merge_user user us)"
proof -
  have other: "\<forall>u \<in> set us. u_ID u \<noteq> u_ID user \<longrightarrow> u_Email user \<noteq> [] \<longrightarrow> u_Email u \<noteq> u_Email user"
    using assms(3) by blast
  have one: "emails_unique (map (\<lambda>u. if u_ID u = u_ID user then merge_user u user else u) us)"
    using assms
  proof (induction us)
    case (Cons u us)
    then have "emails_unique (map (\<lambda>u. if u_ID u = u_ID user then merge_user u user else u) us)"
      by (simp add: keys_unique_Cons emails_unique_def split: if_splits)
    moreover have "\<forall>x \<in> set (u # us). u_ID x \<noteq> u_ID user \<longrightarrow> u_Email user \<noteq> [] \<longrightarrow> u_Email x \<noteq> u_Email user"
      using Cons.prems(3) by blast
    ultimately show ?case using Cons.prems(1,2)
      by (auto simp: emails_unique_def keys_unique_Cons merge_user_def split: if_splits)
  qed (simp add: emails_unique_def keys_unique_def)
  show ?thesis
  proof (cases "list_ex (\<lambda>u. u_ID u = u_ID user) us")
    case False
    with assms(2) other show ?thesis
      by (auto simp: row_upsert_def emails_unique_def keys_unique_def list_ex_iff)
  qed (simp add: row_upsert_def one)
qed

lemma PutUser_ok:
  assumes "PutUser c user db = Inr db'" and "db_ok db"
  shows "db_ok db'"
proof -
  let ?u = "stored_user c user"
  from assms(1) have clash: "\<not> list_ex (user_clash user) (t_users db)"
    and db': "db' = db\<lparr>t_users := row_upsert u_ID merge_user ?u (t_users db)\<rparr>"
    by (auto simp: PutUser_def split: if_splits)
  have "emails_unique (row_upsert u_ID merge_user ?u (t_users db))"
    by (rule emails_unique_upsert)
       (use assms(2) clash in \<open>auto simp: db_ok_def list_ex_iff user_clash_def\<close>)
  moreover have "keys_unique u_Username (row_upsert u_ID merge_user ?u (t_users db))"
    by (rule unique_upsert)
       (use assms(2) clash in \<open>auto simp: db_ok_def list_ex_iff user_clash_def merge_user_def\<close>)
  moreover have "refers s_UserID (t_sessions db) u_ID (row_upsert u_ID merge_user ?u (t_users db))"
    by (rule refers_mono [of _ _ _ "t_users db"])
       (use assms(2) in \<open>auto simp: db_ok_def users.upsert_keys\<close>)
  ultimately show ?thesis using assms(2)
    by (simp add: db' invariant_parts users.upsert_unique)
qed

lemma PutUserSession_ok:
  assumes "PutUserSession c session db = Inr db'" and "db_ok db"
  shows "db_ok db'"
proof -
  let ?s = "stored_session c session"
  from assms(1) have ex: "list_ex (\<lambda>u. u_ID u = s_UserID session) (t_users db)"
    and db': "db' = db\<lparr>t_sessions := row_upsert s_TokenHash merge_session ?s (t_sessions db)\<rparr>"
    by (auto simp: PutUserSession_def split: if_splits)
  have "refers s_UserID (row_upsert s_TokenHash merge_session ?s (t_sessions db)) u_ID (t_users db)"
    by (rule refers_upsert)
       (use assms(2) ex in \<open>auto simp: db_ok_def has_key_iff merge_session_def\<close>)
  with assms(2) show ?thesis by (simp add: db' invariant_parts sessions.upsert_unique)
qed

lemma TouchUserSession_ok: "TouchUserSession c h t db = Inr db' \<Longrightarrow> db_ok db \<Longrightarrow> db_ok db'"
  by (auto simp: TouchUserSession_def invariant_parts)

lemma DeleteUserSession_ok: "DeleteUserSession c h db = Inr db' \<Longrightarrow> db_ok db \<Longrightarrow> db_ok db'"
  by (auto simp: DeleteUserSession_def invariant_parts)

lemma DeleteUserSessionsOf_ok: "DeleteUserSessionsOf c uid db = Inr db' \<Longrightarrow> db_ok db \<Longrightarrow> db_ok db'"
  by (auto simp: DeleteUserSessionsOf_def invariant_parts)

lemma PutInvite_ok:
  assumes "PutInvite c invite db = Inr db'" and "db_ok db"
  shows "db_ok db'"
proof -
  let ?i = "stored_invite c invite"
  from assms(1) have ex: "world_exists db (i_WorldID invite)"
    and fresh: "\<not> list_ex (\<lambda>i. i_ID i \<noteq> i_ID invite \<and> i_TokenHash i = i_TokenHash invite) (t_invites db)"
    and db': "db' = db\<lparr>t_invites := row_upsert i_ID merge_invite ?i (t_invites db)\<rparr>"
    by (auto simp: PutInvite_def split: if_splits)
  have "refers i_WorldID (row_upsert i_ID merge_invite ?i (t_invites db)) w_ID (t_worlds db)"
    by (rule refers_upsert) (use assms(2) ex in \<open>auto simp: invariant_parts merge_invite_def\<close>)
  moreover have "keys_unique i_TokenHash (row_upsert i_ID merge_invite ?i (t_invites db))"
    by (rule unique_upsert) (use assms(2) fresh in \<open>auto simp: db_ok_def merge_invite_def\<close>)
  ultimately show ?thesis using assms(2) by (simp add: db' invariant_parts invites.upsert_unique)
qed

lemma ConsumeInvite_ok: "ConsumeInvite c wid iid db = Inr db' \<Longrightarrow> db_ok db \<Longrightarrow> db_ok db'"
  by (auto simp: ConsumeInvite_def invariant_parts split: if_splits)

lemma RevokeInvite_ok: "RevokeInvite c wid iid db = Inr db' \<Longrightarrow> db_ok db \<Longrightarrow> db_ok db'"
  by (auto simp: RevokeInvite_def invariant_parts Let_def split: if_splits)

lemma PutAsset_ok:
  assumes "PutAsset c asset db = Inr db'" and "db_ok db"
  shows "db_ok db'"
proof -
  from assms(1) obtain a where ex: "world_exists db (a_WorldID a)"
    and fresh: "\<not> list_ex (\<lambda>x. a_ID x \<noteq> a_ID a \<and> a_WorldID x = a_WorldID a \<and> a_SHA256 x = a_SHA256 a)
      (t_assets db)"
    and db': "db' = db\<lparr>t_assets := row_upsert a_ID merge_asset a (t_assets db)\<rparr>"
    by (auto simp: PutAsset_def op_cases split: if_splits)
  have "refers a_WorldID (row_upsert a_ID merge_asset a (t_assets db)) w_ID (t_worlds db)"
    by (rule refers_upsert) (use assms(2) ex in \<open>auto simp: invariant_parts merge_asset_def\<close>)
  moreover have "keys_unique (\<lambda>a. (a_WorldID a, a_SHA256 a)) (row_upsert a_ID merge_asset a (t_assets db))"
    by (rule unique_upsert) (use assms(2) fresh in \<open>auto simp: db_ok_def merge_asset_def\<close>)
  ultimately show ?thesis using assms(2) by (simp add: db' invariant_parts assets.upsert_unique)
qed

lemma DeleteAsset_ok: "DeleteAsset c wid aid db = Inr db' \<Longrightarrow> db_ok db \<Longrightarrow> db_ok db'"
  by (auto simp: DeleteAsset_def invariant_parts Let_def split: if_splits)

lemmas operation_ok =
  PutWorld_ok PutMember_ok DeleteMember_ok PutDocument_ok PatchDocument_ok DeleteDocument_ok
  AppendEvent_ok PutUser_ok PutUserSession_ok TouchUserSession_ok DeleteUserSession_ok
  DeleteUserSessionsOf_ok PutInvite_ok ConsumeInvite_ok RevokeInvite_ok PutAsset_ok DeleteAsset_ok

text \<open>What a client of the port can do to the database, one statement at a time.\<close>

inductive store_step :: "DB \<Rightarrow> DB \<Rightarrow> bool" where
  "PutWorld c world db = Inr db' \<Longrightarrow> store_step db db'"
| "PutMember c m db = Inr db' \<Longrightarrow> store_step db db'"
| "DeleteMember c wid uid db = Inr db' \<Longrightarrow> store_step db db'"
| "PutDocument c doc db = Inr db' \<Longrightarrow> store_step db db'"
| "PatchDocument c wid did patch db = Inr (d, db') \<Longrightarrow> store_step db db'"
| "DeleteDocument c wid did mode db = Inr db' \<Longrightarrow> store_step db db'"
| "AppendEvent c event db = Inr (seq, db') \<Longrightarrow> store_step db db'"
| "PutUser c user db = Inr db' \<Longrightarrow> store_step db db'"
| "PutUserSession c session db = Inr db' \<Longrightarrow> store_step db db'"
| "TouchUserSession c h t db = Inr db' \<Longrightarrow> store_step db db'"
| "DeleteUserSession c h db = Inr db' \<Longrightarrow> store_step db db'"
| "DeleteUserSessionsOf c uid db = Inr db' \<Longrightarrow> store_step db db'"
| "PutInvite c invite db = Inr db' \<Longrightarrow> store_step db db'"
| "ConsumeInvite c wid iid db = Inr db' \<Longrightarrow> store_step db db'"
| "RevokeInvite c wid iid db = Inr db' \<Longrightarrow> store_step db db'"
| "PutAsset c asset db = Inr db' \<Longrightarrow> store_step db db'"
| "DeleteAsset c wid aid db = Inr db' \<Longrightarrow> store_step db db'"

lemma store_step_ok: "store_step db db' \<Longrightarrow> db_ok db \<Longrightarrow> db_ok db'"
  by (induction rule: store_step.induct) (erule (1) operation_ok)+

lemma store_steps_ok: "store_step\<^sup>*\<^sup>* db db' \<Longrightarrow> db_ok db \<Longrightarrow> db_ok db'"
  by (induction rule: rtranclp_induct) (auto intro: store_step_ok)

section \<open>Sorting, paths and placeholders\<close>

lemma mset_sink [simp]: "mset (sink k ps) = add_mset k (mset ps)"
  by (induction ps) auto

lemma set_sink [simp]: "set (sink k ps) = insert k (set ps)"
  by (induction ps) auto

lemma sorted_rev_sink: "sorted (rev ps) \<Longrightarrow> sorted (rev (sink k ps))"
  by (induction ps) (auto simp: sorted_append)

lemma sink_fold:
  "sorted (rev acc) \<Longrightarrow> sorted (rev (fold sink ks acc)) \<and> mset (fold sink ks acc) = mset ks + mset acc"
  by (induction ks arbitrary: acc) (auto simp: sorted_rev_sink)

lemma insertion_sort_sort: "insertion_sort ks = sort ks"
  unfolding insertion_sort_def
  by (rule properties_for_sort [symmetric]) (use sink_fold [of "[]" ks] in simp_all)

lemma sortedKeys_gomap: "is_gomap m \<Longrightarrow> sortedKeys m = map fst m"
  by (simp add: sortedKeys_def insertion_sort_sort is_gomap_def sorted_sort_id strict_sorted_imp_sorted)

lemma segment_char_not_dot: "segment_char ch \<Longrightarrow> ch \<noteq> CHR ''.''"
  by (auto simp: segment_char_def is_digit_def less_eq_char_def)

lemma segment_no_dot: "segmentPattern s \<Longrightarrow> CHR ''.'' \<notin> set s"
  using segment_char_not_dot by (auto simp: segmentPattern_def list_all_iff)

lemma splitPath_iff:
  "splitPath path = Inr segments \<longleftrightarrow>
     segments \<noteq> [] \<and> (\<forall>s \<in> set segments. segmentPattern s) \<and> path = join_with ''.'' segments"
proof
  assume split: "splitPath path = Inr segments"
  then have "segments = split_on CHR ''.'' path" "list_all segmentPattern segments"
    by (auto simp: splitPath_def Let_def split: if_splits)
  then show "segments \<noteq> [] \<and> (\<forall>s \<in> set segments. segmentPattern s) \<and> path = join_with ''.'' segments"
    using split_on_nonempty join_split by (simp add: list_all_iff)
next
  assume r: "segments \<noteq> [] \<and> (\<forall>s \<in> set segments. segmentPattern s) \<and> path = join_with ''.'' segments"
  then have "split_on CHR ''.'' path = segments"
    by (auto intro: split_join dest: segment_no_dot)
  moreover have "path \<noteq> []"
    using r by (cases "(''.'', segments)" rule: join_with.cases) (auto simp: segmentPattern_def)
  ultimately show "splitPath path = Inr segments"
    using r by (auto simp: splitPath_def list_all_iff)
qed

text \<open>No character of an accepted path can end a quoted SQL or JSON path literal.\<close>

lemma splitPath_chars:
  assumes "splitPath path = Inr segments" and "ch \<in> set path"
  shows "segment_char ch \<or> ch = CHR ''.''"
proof -
  have "set (join_with d ws) \<subseteq> set d \<union> \<Union> (set ` set ws)" for d and ws :: "string list"
    by (induction d ws rule: join_with.induct) auto
  with assms show ?thesis
    by (fastforce simp: splitPath_iff segmentPattern_def list_all_iff)
qed

lemma rebind_no_question: "CHR ''?'' \<notin> set (rebind_from n query)"
  by (induction query arbitrary: n) (auto dest!: digits_of_digits simp: is_digit_def less_eq_char_def)

section \<open>Reading what was written\<close>

lemma filter_above_upto: "filter (\<lambda>s. k < s) [a..b] = [max a (k + 1)..b]" for k a b :: int
proof (induction a b rule: upto.induct)
  case (1 a b)
  show ?case
  proof (cases "a \<le> b")
    case True
    consider "a = k + 1" | "k + 1 < a" | "a < k + 1" by linarith
    then show ?thesis using 1 True upto_rec1 [of a b] by cases (auto simp: max_def)
  qed simp
qed

lemma take_upto: "take n [a..b] = [a..min b (a + int n - 1)]" for a b :: int
proof (induction n arbitrary: a)
  case (Suc n)
  show ?case
  proof (cases "a \<le> b")
    case True
    then show ?thesis
      using Suc [of "a + 1"] upto_rec1 [of a b] upto_rec1 [of a "min b (a + int (Suc n) - 1)"]
      by (simp add: algebra_simps)
  qed simp
qed simp

lemma sorted_upto: "sorted [a..b]" for a b :: int
  by (induction a b rule: upto.induct) (subst upto.simps, auto)

lemma events_after:
  assumes "gapless db" and "w \<in> set (t_worlds db)"
    and "w_EventSeq w - int (length (world_log db (w_ID w))) \<le> seq"
  shows "map e_Seq (take n (sort_key e_Seq (filter (\<lambda>e. seq < e_Seq e) (world_log db (w_ID w))))) =
    [seq + 1 .. min (w_EventSeq w) (seq + int n)]"
proof -
  let ?l = "world_log db (w_ID w)"
  have "map e_Seq (filter (\<lambda>e. seq < e_Seq e) ?l) = filter (\<lambda>s. seq < s) (map e_Seq ?l)"
    by (simp add: filter_map o_def)
  also have "\<dots> = [seq + 1 .. w_EventSeq w]"
    using assms by (simp add: gapless_def filter_above_upto max_def)
  finally have seqs: "map e_Seq (filter (\<lambda>e. seq < e_Seq e) ?l) = [seq + 1 .. w_EventSeq w]" .
  then have "sort_key e_Seq (filter (\<lambda>e. seq < e_Seq e) ?l) = filter (\<lambda>e. seq < e_Seq e) ?l"
    by (intro sort_key_id_if_sorted) (simp add: sorted_upto)
  with seqs show ?thesis by (simp add: take_map [symmetric] take_upto)
qed

lemma EventsSince_eq:
  "EventsSince c db wid seq limit = Inr es \<Longrightarrow>
     es = take (nat (if limit \<le> 0 then defaultLimit else limit))
       (sort_key e_Seq (filter (\<lambda>e. seq < e_Seq e) (world_log db wid)))"
  by (auto simp: EventsSince_def world_log_def Let_def conj_commute)

lemma listed_documents:
  assumes "ListDocuments c db wid f = Inr ds" and "d \<in> set ds"
  shows "d \<in> set (t_documents db) \<and> d_WorldID d = wid \<and> (\<not> f_IncludeDeleted f \<longrightarrow> d_DeletedAt d = None)"
  using assms by (auto simp: ListDocuments_def Let_def filter_matches_def dest: in_set_takeD)

lemma family_deleted: "family wid did (d\<lparr>d_DeletedAt := t\<rparr>) = family wid did d"
  unfolding family_def by simp

lemma get_after_put_document:
  assumes "PutDocument c doc db = Inr db'" and "stored_document c doc = Inr doc'"
  shows "row_get doc_key k (t_documents db') =
    (if k = doc_key doc then Some (case row_get doc_key k (t_documents db) of
        None \<Rightarrow> doc' | Some old \<Rightarrow> merge_document old doc')
     else row_get doc_key k (t_documents db))"
proof -
  from assms have db': "db' = db\<lparr>t_documents := row_upsert doc_key merge_document doc' (t_documents db)\<rparr>"
    by (auto simp: PutDocument_def op_cases split: if_splits)
  from assms(2) have "doc_key doc' = doc_key doc"
    by (auto simp: stored_document_def op_cases doc_key_def)
  then show ?thesis
    using documents.get_upsert_same [of doc' "t_documents db"]
      documents.get_upsert_other [of k doc' "t_documents db"] by (simp add: db')
qed

lemma get_after_patch:
  assumes "PatchDocument c wid did patch db = Inr (d, db')"
  shows "row_get doc_key k (t_documents db') =
    (if k = (wid, did) then Some d else row_get doc_key k (t_documents db))"
  using assms
proof (cases rule: PatchDocument_cases)
  case (2 old)
  have "row_get doc_key k (row_update (\<lambda>r. doc_key r = (wid, did)) (\<lambda>_. d) (t_documents db)) =
    map_option (\<lambda>r. if doc_key r = (wid, did) then d else r) (row_get doc_key k (t_documents db))"
    unfolding row_update_def by (rule row_get_map) (use 2 in auto)
  also have "\<dots> = (if k = (wid, did) then Some d else row_get doc_key k (t_documents db))"
    using 2(2) by (cases "row_get doc_key k (t_documents db)") (auto dest: row_get_SomeD)
  finally show ?thesis using 2 by simp
qed simp

lemma get_after_consume:
  assumes "ConsumeInvite c wid iid db = Inr db'"
  shows "row_get i_ID k (t_invites db') =
    map_option (\<lambda>i. if consumable wid iid i then i\<lparr>i_Uses := i_Uses i + 1\<rparr> else i)
      (row_get i_ID k (t_invites db))"
  using assms by (auto simp: ConsumeInvite_def row_simps split: if_splits)

section \<open>The properties of the store\<close>

definition sample_conn :: Conn where
  "sample_conn = \<lparr>c_writable = True, c_fails = (\<lambda>_. False), c_now = 5,
     c_json_set = (\<lambda>d p v. v), c_json_remove = (\<lambda>d ps. JNull)\<rparr>"

definition sample_world :: World where
  "sample_world = \<lparr>w_ID = ''w'', w_Slug = ''w'', w_Title = ''W'', w_SystemID = [],
     w_SystemVersion = [], w_DefaultLocale = [], w_ActiveScene = [], w_Settings = RawNil,
     w_EventSeq = 0, w_CreatedAt = 0, w_ArchivedAt = None\<rparr>"

definition sample_event :: "string \<Rightarrow> Event" where
  "sample_event kind = zero_event\<lparr>e_WorldID := ''w'', e_Kind := kind\<rparr>"

definition sample_doc :: "ID \<Rightarrow> ID \<Rightarrow> Document" where
  "sample_doc did parent = zero_document\<lparr>d_WorldID := ''w'', d_ID := did, d_ParentID := parent\<rparr>"

definition sample_invite :: Invite where
  "sample_invite = \<lparr>i_ID = ''i'', i_TokenHash = ''h'', i_WorldID = ''w'', i_Role = ''player'',
     i_CreatedBy = ''u'', i_CreatedAt = 1, i_ExpiresAt = 9, i_MaxUses = 2, i_Uses = 1,
     i_RevokedAt = None\<rparr>"

text \<open>A small database: a world with two events, a scene with a token, an invite used once.\<close>

definition sample_db :: DB where
  "sample_db = empty_db\<lparr>t_worlds := [sample_world\<lparr>w_EventSeq := 2\<rparr>],
     t_events := [sample_event ''a''\<lparr>e_Seq := 1\<rparr>, sample_event ''b''\<lparr>e_Seq := 2\<rparr>],
     t_documents := [sample_doc ''s'' [], sample_doc ''t'' ''s'', sample_doc ''x'' []],
     t_invites := [sample_invite]\<rparr>"

lemmas sample_defs = sample_conn_def sample_world_def sample_event_def sample_doc_def
  sample_invite_def sample_db_def empty_db_def zero_event_def zero_document_def

lemma sample_db_ok: "db_ok sample_db"
proof -
  have "[1..2::int] = [1, 2]" by (simp add: upto.simps)
  then show ?thesis
    by (simp add: sample_defs db_ok_def keys_unique_def refers_def gapless_def world_log_def
        emails_unique_def doc_key_def numeral_2_eq_2)
qed



text \<open>
  catching up from a sequence number the log still covers returns exactly the following
  events, in order and without a gap, up to the world's counter or the limit.
\<close>

theorem events_since_complete:
  assumes "db_ok db" and "GetWorld c db wid = Inr w"
    and "w_EventSeq w - int (length (world_log db wid)) \<le> seq"
    and "EventsSince c db wid seq limit = Inr es"
  shows "map e_Seq es =
      [seq + 1 .. min (w_EventSeq w) (seq + (if limit \<le> 0 then defaultLimit else limit))] \<and>
    set es \<subseteq> set (world_log db wid)"
proof -
  from assms(2) have w: "w \<in> set (t_worlds db)" "w_ID w = wid"
    by (auto simp: GetWorld_def split: option.splits dest: row_get_SomeD)
  have "set es \<subseteq> set (world_log db wid)"
    using EventsSince_eq [OF assms(4)] by (auto dest: in_set_takeD)
  with w show ?thesis
    using assms events_after [of db w seq "nat (if limit \<le> 0 then defaultLimit else limit)"]
      EventsSince_eq [OF assms(4)] by (auto simp: db_ok_def defaultLimit_def)
qed

theorem events_since_complete_witness:
  "\<exists>es. EventsSince sample_conn sample_db ''w'' 0 1 = Inr es \<and> map e_Seq es = [1]"
proof -
  have w: "GetWorld sample_conn sample_db ''w'' = Inr (sample_world\<lparr>w_EventSeq := 2\<rparr>)"
    by (simp add: GetWorld_def stmt_def sample_defs row_get_def)
  obtain es where es: "EventsSince sample_conn sample_db ''w'' 0 1 = Inr es"
    by (simp add: EventsSince_def stmt_def sample_conn_def Let_def)
  have "w_EventSeq (sample_world\<lparr>w_EventSeq := 2\<rparr>) - int (length (world_log sample_db ''w'')) \<le> 0"
    by (simp add: world_log_def sample_defs)
  from events_since_complete [OF sample_db_ok w this es] es show ?thesis by simp
qed



text \<open>
  deleting a document, softly or for good, takes it and its children out of every later
  listing that does not ask for deleted documents, and leaves every other document as it was.
\<close>

theorem delete_document_spec:
  assumes "DeleteDocument c wid did mode db = Inr db'"
  shows "(\<forall>f ds. ListDocuments c' db' v f = Inr ds \<longrightarrow> \<not> f_IncludeDeleted f \<longrightarrow>
      (\<forall>d \<in> set ds. \<not> family wid did d)) \<and>
    filter (\<lambda>d. \<not> family wid did d) (t_documents db') = filter (\<lambda>d. \<not> family wid did d) (t_documents db)"
proof (cases mode)
  case DeleteSoft
  let ?hit = "\<lambda>d. family wid did d \<and> d_DeletedAt d = None"
  have db': "t_documents db' =
      row_update ?hit (\<lambda>d. d\<lparr>d_DeletedAt := Some (c_now c)\<rparr>) (t_documents db)"
    using assms DeleteSoft by (auto simp: DeleteDocument_def Let_def split: if_splits)
  have hidden: "family wid did d \<longrightarrow> d_DeletedAt d \<noteq> None" if "d \<in> set (t_documents db')" for d
    using that unfolding db' row_update_def by auto
  have rest: "filter (\<lambda>d. \<not> family wid did d) (row_update ?hit (\<lambda>d. d\<lparr>d_DeletedAt := t\<rparr>) ds) =
      filter (\<lambda>d. \<not> family wid did d) ds" for t ds
    by (induction ds) (simp_all add: row_update_def family_deleted)
  have "\<not> family wid did d" if "ListDocuments c' db' v f = Inr ds" "\<not> f_IncludeDeleted f" "d \<in> set ds" for f ds d
    using listed_documents [OF that(1,3)] that(2) hidden by blast
  moreover have "filter (\<lambda>d. \<not> family wid did d) (t_documents db') = filter (\<lambda>d. \<not> family wid did d) (t_documents db)"
    unfolding db' by (rule rest)
  ultimately show ?thesis by blast
next
  case DeleteHard
  then have "t_documents db' = row_delete (family wid did) (t_documents db)"
    using assms by (auto simp: DeleteDocument_def split: if_splits)
  then show ?thesis using listed_documents [of c' db' v] by (fastforce simp: row_delete_def)
qed

theorem delete_document_spec_witness:
  "\<exists>db' ds. DeleteDocument sample_conn ''w'' ''s'' DeleteSoft sample_db = Inr db' \<and>
     ListDocuments sample_conn db' ''w'' zero_filter = Inr ds \<and> (\<forall>d \<in> set ds. \<not> family ''w'' ''s'' d)"
proof -
  obtain db' where e: "DeleteDocument sample_conn ''w'' ''s'' DeleteSoft sample_db = Inr db'"
    by (simp add: DeleteDocument_def requireWritable_def stmt_def sample_defs family_def Let_def)
  obtain ds where l: "ListDocuments sample_conn db' ''w'' zero_filter = Inr ds"
    by (simp add: ListDocuments_def stmt_def sample_conn_def Let_def)
  have "\<not> f_IncludeDeleted zero_filter" by (simp add: zero_filter_def)
  with delete_document_spec [OF e, of sample_conn "''w''"] e l show ?thesis by blast
qed

text \<open>
  An invite is consumed exactly when it is of this world, not revoked and has a use
  left; its counter goes up by one and never above the maximum, and no other invite changes.
\<close>

theorem consume_invite_spec:
  assumes "db_ok db" and "c_writable c" and "\<not> c_fails c ''ConsumeInvite''"
  shows "case ConsumeInvite c wid iid db of
      Inl e \<Rightarrow> e = ErrNotFound \<and> (\<forall>i. row_get i_ID iid (t_invites db) = Some i \<longrightarrow> \<not> consumable wid iid i)
    | Inr db' \<Rightarrow> \<exists>i. row_get i_ID iid (t_invites db) = Some i \<and> consumable wid iid i \<and>
        row_get i_ID iid (t_invites db') = Some (i\<lparr>i_Uses := i_Uses i + 1\<rparr>) \<and>
        (i_MaxUses i \<noteq> 0 \<longrightarrow> i_Uses i + 1 \<le> i_MaxUses i) \<and>
        (\<forall>k. k \<noteq> iid \<longrightarrow> row_get i_ID k (t_invites db') = row_get i_ID k (t_invites db))"
proof (cases "list_ex (consumable wid iid) (t_invites db)")
  case True
  then obtain i where i: "i \<in> set (t_invites db)" "consumable wid iid i" by (auto simp: list_ex_iff)
  have "i_ID i = iid" using i(2) by (simp add: consumable_def)
  then have get: "row_get i_ID iid (t_invites db) = Some i"
    using row_get_unique [of i_ID "t_invites db" i] i(1) assms(1) by (simp add: db_ok_def)
  obtain db' where db': "ConsumeInvite c wid iid db = Inr db'"
    using True assms by (simp add: ConsumeInvite_def requireWritable_def stmt_def)
  have "row_get i_ID k (t_invites db') = row_get i_ID k (t_invites db)" if "k \<noteq> iid" for k
    using get_after_consume [OF db', of k] that
    by (cases "row_get i_ID k (t_invites db)") (auto simp: consumable_def dest: row_get_SomeD)
  moreover have "i_MaxUses i \<noteq> 0 \<longrightarrow> i_Uses i + 1 \<le> i_MaxUses i"
    using i(2) by (auto simp: consumable_def)
  ultimately show ?thesis using get i(2) get_after_consume [OF db', of iid] by (simp add: db')
next
  case False
  then show ?thesis using assms(2,3)
    by (auto simp: ConsumeInvite_def requireWritable_def stmt_def list_ex_iff dest: row_get_SomeD)
qed

theorem consume_invite_spec_witness:
  "\<exists>db'. ConsumeInvite sample_conn ''w'' ''i'' sample_db = Inr db' \<and>
     (\<exists>i. row_get i_ID ''i'' (t_invites sample_db) = Some i \<and> i_Uses i + 1 \<le> i_MaxUses i)"
proof -
  obtain db' where e: "ConsumeInvite sample_conn ''w'' ''i'' sample_db = Inr db'"
    by (simp add: ConsumeInvite_def requireWritable_def stmt_def sample_defs consumable_def)
  have c: "c_writable sample_conn" "\<not> c_fails sample_conn ''ConsumeInvite''"
    by (simp_all add: sample_conn_def)
  have m: "row_get i_ID ''i'' (t_invites sample_db) = Some i \<Longrightarrow> i_MaxUses i = 2" for i
    by (auto simp: sample_defs row_get_def)
  from consume_invite_spec [OF sample_db_ok c, where wid = "''w''" and iid = "''i''"] e m
  show ?thesis by fastforce
qed

text \<open>
  \<open>splitPath\<close> accepts exactly the dotted joins of non-empty segments of letters, digits,
  underscores and hyphens, and returns those segments; nothing else can reach the SQL text of
  a patch.
\<close>

theorem split_path_exact:
  "splitPath path = Inr segments \<longleftrightarrow>
     segments \<noteq> [] \<and> (\<forall>s \<in> set segments. segmentPattern s) \<and> path = join_with ''.'' segments"
  by (rule splitPath_iff)

theorem split_path_exact_witness:
  "splitPath ''hp.max'' = Inr [''hp'', ''max''] \<longleftrightarrow>
     [''hp'', ''max''] \<noteq> [] \<and> (\<forall>s \<in> set [''hp'', ''max'']. segmentPattern s) \<and>
     ''hp.max'' = join_with ''.'' [''hp'', ''max'']"
  by (rule split_path_exact)

text \<open>
  \<open>sortedKeys\<close>, an insertion sort by adjacent swaps, returns the keys of the map in
  ascending order, so a patch always applies its paths in the same order.
\<close>

theorem sorted_keys_sorts: "sortedKeys m = sort (map fst m)"
  by (simp add: sortedKeys_def insertion_sort_sort)

end
