(* ===== verification/Access.thy ===== *)
theory Access
  imports Perm SqlStore
begin

text \<open>
  Who may do what with a document (\<open>internal/core/access/access.go\<close>): the role of a member,
  the grant from the document's, its folder's and its world's ownership, the per-member
  projection of a document, and authorization.  The resolver's store is the connection and
  the database of the query; its policy is a parameter.
\<close>

definition NewResolver :: "FieldPolicy option \<Rightarrow> FieldPolicy" where
  "NewResolver policy = (case policy of None \<Rightarrow> OpenPolicy | Some p \<Rightarrow> p)"

definition RoleOf :: "Conn \<Rightarrow> DB \<Rightarrow> ID \<Rightarrow> ID \<Rightarrow> Role res" where
  "RoleOf c db worldID userID =
     bind_res (GetMember c db worldID userID) (\<lambda>member.
     if \<not> Valid (m_Role member) then Inl ErrUnknownRole else Inr (m_Role member))"

definition folderACL :: "Conn \<Rightarrow> DB \<Rightarrow> Document \<Rightarrow> ACL res" where
  "folderACL c db doc =
     (if d_FolderID doc \<noteq> [] then
        (case GetDocument c db (d_WorldID doc) (d_FolderID doc) of
           Inl e \<Rightarrow> if e = ErrNotFound then Inr [] else Inl e
         | Inr folder \<Rightarrow> ParseACL (d_Ownership folder))
      else Inr [])"

definition worldDefault :: "Conn \<Rightarrow> DB \<Rightarrow> Document \<Rightarrow> Level res" where
  "worldDefault c db doc =
     bind_res (GetWorld c db (d_WorldID doc)) (\<lambda>world.
     if w_Settings world = RawNil then Inr LevelNone
     else if \<not> struct_shape (w_Settings world) \<or>
        \<not> field_ok dec_string_map ''defaultOwnership'' (w_Settings world) then Inr LevelNone
     else
       let ownership = field_map dec_string_map ''defaultOwnership'' (w_Settings world)
       in case map_of ownership (d_Kind doc @ ''/'' @ d_Subtype doc) of
            Some raw \<Rightarrow> ParseLevel raw
          | None \<Rightarrow>
              (case map_of ownership (d_Kind doc) of
                 Some raw \<Rightarrow> ParseLevel raw
               | None \<Rightarrow> Inr LevelNone))"

text \<open>The three layers \<open>Grant\<close> resolves, in the order it reads them.\<close>

definition grant_inputs :: "Conn \<Rightarrow> DB \<Rightarrow> Document \<Rightarrow> Inputs res" where
  "grant_inputs c db doc =
     bind_res (ParseACL (d_Ownership doc)) (\<lambda>document.
     bind_res (folderACL c db doc) (\<lambda>folder.
     bind_res (worldDefault c db doc) (\<lambda>world.
     Inr \<lparr>in_Document = document, in_Folder = folder, in_World = world\<rparr>)))"

definition resolver_Grant :: "Conn \<Rightarrow> DB \<Rightarrow> Subject \<Rightarrow> Document \<Rightarrow> Grant res" where
  "resolver_Grant c db subject doc =
     bind_res (grant_inputs c db doc) (\<lambda>inputs. Inr (Effective subject inputs))"

record View =
  v_Subject :: Subject
  v_Grant :: Grant
  v_Document :: Document

definition project_member :: "Conn \<Rightarrow> DB \<Rightarrow> FieldPolicy \<Rightarrow> Document \<Rightarrow> Member \<Rightarrow> (ID \<times> View) option res" where
  "project_member c db policy doc member =
     (if \<not> Valid (m_Role member) then Inr None
      else
        let subject = \<lparr>sub_UserID = m_UserID member, sub_Role = m_Role member\<rparr>
        in bind_res (resolver_Grant c db subject doc) (\<lambda>grant.
           bind_res (RedactDocument doc subject grant policy) (\<lambda>visible.
           Inr (case visible of
              None \<Rightarrow> None
            | Some document \<Rightarrow>
                Some (m_UserID member, \<lparr>v_Subject = subject, v_Grant = grant, v_Document = document\<rparr>)))))"

definition ProjectForMembers :: "Conn \<Rightarrow> DB \<Rightarrow> FieldPolicy \<Rightarrow> Document \<Rightarrow> View gomap res" where
  "ProjectForMembers c db policy doc =
     bind_res (ListMembers c db (d_WorldID doc)) (\<lambda>members.
     bind_res (collect_res (project_member c db policy doc) members) (\<lambda>views. Inr (map_from views)))"

definition Authorize :: "Conn \<Rightarrow> DB \<Rightarrow> ID \<Rightarrow> ID \<Rightarrow> Document \<Rightarrow> bool \<Rightarrow> Grant res" where
  "Authorize c db worldID userID doc write =
     bind_res (RoleOf c db worldID userID) (\<lambda>role.
     bind_res (resolver_Grant c db \<lparr>sub_UserID = userID, sub_Role = role\<rparr> doc) (\<lambda>grant.
     if write \<and> \<not> CanEdit grant then Inl ErrForbidden
     else if \<not> write \<and> \<not> CanRead grant then Inl ErrForbidden
     else Inr grant))"

section \<open>Authorization\<close>

lemma RoleOf_Inr:
  "RoleOf c db wid uid = Inr role \<longleftrightarrow>
     \<not> c_fails c ''GetMember'' \<and>
     (\<exists>m. row_get member_key (wid, uid) (t_members db) = Some m \<and> m_Role m = role \<and> Valid role)"
  by (auto simp: RoleOf_def GetMember_def op_cases split: option.splits if_splits)

lemma Authorize_Inr:
  "Authorize c db wid uid doc write = Inr g \<longleftrightarrow>
     (\<exists>role inputs. RoleOf c db wid uid = Inr role \<and> grant_inputs c db doc = Inr inputs \<and>
        g = Effective \<lparr>sub_UserID = uid, sub_Role = role\<rparr> inputs \<and>
        (if write then CanEdit g else CanRead g))"
  by (auto simp: Authorize_def resolver_Grant_def op_cases split: if_splits)

lemma staff_can_edit: "IsStaff (sub_Role subject) \<Longrightarrow> CanEdit (Effective subject inputs)"
  by (simp add: CanEdit_def Effective_staff staff_not_observer)

section \<open>Projection\<close>

lemma RedactDocument_data:
  assumes "RedactDocument doc subject grant policy = Inr (Some d)" and "d_Data d = RawJson v"
    and "json_at v ks = Some x"
  shows "open_path (d_Kind doc) (d_Subtype doc) grant policy [] ks"
proof (cases "g_Level grant = LevelLimited")
  case True
  with assms have "v = JObj []"
    by (auto simp: RedactDocument_def raw_empty_object_def split: if_splits)
  with assms(3) show ?thesis by (cases ks) auto
next
  case False
  with assms have "RedactPayload (d_Data doc) (d_Kind doc) (d_Subtype doc) [] grant policy = Inr (RawJson v)"
    by (auto simp: RedactDocument_def op_cases split: if_splits)
  with assms(3) show ?thesis by (rule RedactPayload_open [rotated])
qed

lemma project_member_Some:
  "project_member c db policy doc m = Inr (Some (uid, v)) \<longleftrightarrow>
     Valid (m_Role m) \<and> uid = m_UserID m \<and>
     (\<exists>grant d. resolver_Grant c db \<lparr>sub_UserID = uid, sub_Role = m_Role m\<rparr> doc = Inr grant \<and>
        RedactDocument doc \<lparr>sub_UserID = uid, sub_Role = m_Role m\<rparr> grant policy = Inr (Some d) \<and>
        v = \<lparr>v_Subject = \<lparr>sub_UserID = uid, sub_Role = m_Role m\<rparr>, v_Grant = grant, v_Document = d\<rparr>)"
  by (auto simp: project_member_def op_cases split: option.splits if_splits)

lemma ListMembers_iff:
  assumes "db_ok db" and "ListMembers c db wid = Inr ms"
  shows "m \<in> set ms \<and> m_UserID m = uid \<longleftrightarrow> row_get member_key (wid, uid) (t_members db) = Some m"
proof -
  have "keys_unique member_key (t_members db)" using assms(1) by (simp add: db_ok_def)
  then show ?thesis using assms(2) row_get_unique [of member_key "t_members db" m]
    by (auto simp: ListMembers_def member_key_def dest!: row_get_SomeD)
qed

lemma members_distinct:
  assumes "db_ok db" and "ListMembers c db wid = Inr ms"
  shows "distinct (map m_UserID ms)"
proof -
  let ?xs = "filter (\<lambda>m. m_WorldID m = wid) (t_members db)"
  have "distinct (map member_key (t_members db))"
    using assms(1) by (simp add: db_ok_def keys_unique_def)
  then have "distinct (map member_key ?xs)" by (rule distinct_map_filter)
  then have "distinct (map m_UserID ?xs)"
    by (auto simp: distinct_map inj_on_def member_key_def)
  with assms(2) show ?thesis by (auto simp: ListMembers_def distinct_map)
qed

lemma collected_keys:
  "collect_res (project_member c db policy doc) ms = Inr vs \<Longrightarrow> distinct (map m_UserID ms) \<Longrightarrow>
     distinct (map fst vs) \<and> fst ` set vs \<subseteq> m_UserID ` set ms"
proof (induction ms arbitrary: vs)
  case (Cons m ms)
  from Cons.prems(1) obtain r ws where r: "project_member c db policy doc m = Inr r"
    and ws: "collect_res (project_member c db policy doc) ms = Inr ws"
    and vs: "vs = (case r of None \<Rightarrow> ws | Some z \<Rightarrow> z # ws)"
    by (auto simp: res_simps)
  have "distinct (map fst ws) \<and> fst ` set ws \<subseteq> m_UserID ` set ms"
    using Cons ws by simp
  moreover have "fst z = m_UserID m" if "r = Some z" for z
    using r that by (cases z) (simp add: project_member_Some)
  ultimately show ?case using vs Cons.prems(2) by (cases r) auto
qed simp

lemma ProjectForMembers_lookup:
  assumes "db_ok db" and "ProjectForMembers c db policy doc = Inr views"
  shows "map_of views uid = Some v \<longleftrightarrow>
    (\<exists>m. row_get member_key (d_WorldID doc, uid) (t_members db) = Some m \<and>
       project_member c db policy doc m = Inr (Some (uid, v)))"
proof -
  from assms(2) obtain ms vs where ms: "ListMembers c db (d_WorldID doc) = Inr ms"
    and vs: "collect_res (project_member c db policy doc) ms = Inr vs" and views: "views = map_from vs"
    by (auto simp: ProjectForMembers_def res_simps)
  have dist: "distinct (map fst vs)"
    using collected_keys [OF vs members_distinct [OF assms(1) ms]] by simp
  have "map_of views uid = Some v \<longleftrightarrow> (uid, v) \<in> set vs"
    by (simp add: views map_of_from_distinct [OF dist] map_of_eq_Some_iff [OF dist])
  also have "\<dots> \<longleftrightarrow> (\<exists>m \<in> set ms. project_member c db policy doc m = Inr (Some (uid, v)))"
    using collect_res_set [OF vs] by auto
  also have "\<dots> \<longleftrightarrow> (\<exists>m. row_get member_key (d_WorldID doc, uid) (t_members db) = Some m \<and>
       project_member c db policy doc m = Inr (Some (uid, v)))"
    using ListMembers_iff [OF assms(1) ms] by (auto simp: project_member_Some)
  finally show ?thesis .
qed

section \<open>The properties of access\<close>

definition sample_members_db :: DB where
  "sample_members_db = sample_db\<lparr>t_members :=
     [\<lparr>m_WorldID = ''w'', m_UserID = ''g'', m_Role = ''gm'', m_JoinedAt = 1\<rparr>,
      \<lparr>m_WorldID = ''w'', m_UserID = ''p'', m_Role = ''player'', m_JoinedAt = 1\<rparr>]\<rparr>"

definition sample_owned :: Document where
  "sample_owned = (sample_doc ''t'' ''s'')\<lparr>d_Kind := ''token'', d_Data := RawJson (JObj [(''name'', JStr ''orc'')]),
     d_Ownership := RawJson (JObj [(''p'', JStr ''owner'')])\<rparr>"

lemma sample_members_db_ok: "db_ok sample_members_db"
  using sample_db_ok
  by (simp add: db_ok_def sample_members_db_def gapless_def world_log_def keys_unique_def refers_def
      member_key_def) (simp add: sample_defs)


text \<open>
  projecting a document for the members of its world gives a view to exactly those
  members whose role is known and whose grant lets them read it, and the view is the
  redaction of the document for that member.
\<close>

theorem project_views_exact:
  assumes "db_ok db" and "ProjectForMembers c db policy doc = Inr views"
  shows "map_of views uid = Some v \<longleftrightarrow>
    (\<exists>m grant d. row_get member_key (d_WorldID doc, uid) (t_members db) = Some m \<and> Valid (m_Role m) \<and>
       resolver_Grant c db \<lparr>sub_UserID = uid, sub_Role = m_Role m\<rparr> doc = Inr grant \<and>
       RedactDocument doc \<lparr>sub_UserID = uid, sub_Role = m_Role m\<rparr> grant policy = Inr (Some d) \<and>
       v = \<lparr>v_Subject = \<lparr>sub_UserID = uid, sub_Role = m_Role m\<rparr>, v_Grant = grant, v_Document = d\<rparr>)"
proof -
  have "project_member c db policy doc m = Inr (Some (uid, v)) \<longleftrightarrow> Valid (m_Role m) \<and>
      (\<exists>grant d. resolver_Grant c db \<lparr>sub_UserID = uid, sub_Role = m_Role m\<rparr> doc = Inr grant \<and>
       RedactDocument doc \<lparr>sub_UserID = uid, sub_Role = m_Role m\<rparr> grant policy = Inr (Some d) \<and>
       v = \<lparr>v_Subject = \<lparr>sub_UserID = uid, sub_Role = m_Role m\<rparr>, v_Grant = grant, v_Document = d\<rparr>)"
    if "row_get member_key (d_WorldID doc, uid) (t_members db) = Some m" for m
    using row_get_SomeD [OF that] by (auto simp: project_member_Some member_key_def)
  then show ?thesis unfolding ProjectForMembers_lookup [OF assms] by blast
qed

lemma sample_views:
  obtains views v where
    "ProjectForMembers sample_conn sample_members_db OpenPolicy sample_owned = Inr views"
    and "map_of views ''p'' = Some v" and "\<not> IsStaff (sub_Role (v_Subject v))"
    and "d_Data (v_Document v) = RawJson (JObj [(''name'', JStr ''orc'')])"
proof -
  have "case ProjectForMembers sample_conn sample_members_db OpenPolicy sample_owned of
      Inl _ \<Rightarrow> False
    | Inr views \<Rightarrow> (case map_of views ''p'' of None \<Rightarrow> False
        | Some v \<Rightarrow> \<not> IsStaff (sub_Role (v_Subject v)) \<and>
            d_Data (v_Document v) = RawJson (JObj [(''name'', JStr ''orc'')]))"
    by code_simp
  then show ?thesis using that by (auto split: sum.splits option.splits)
qed

theorem project_views_exact_witness:
  "\<exists>views. ProjectForMembers sample_conn sample_members_db OpenPolicy sample_owned = Inr views \<and>
     map_of views ''x'' = None"
proof -
  obtain views where e: "ProjectForMembers sample_conn sample_members_db OpenPolicy sample_owned = Inr views"
    by (rule sample_views)
  have "row_get member_key (d_WorldID sample_owned, ''x'') (t_members sample_members_db) = None"
    by (simp add: sample_members_db_def row_get_def member_key_def)
  then have "map_of views ''x'' = Some v \<Longrightarrow> False" for v
    using project_views_exact [OF sample_members_db_ok e, of "''x''" v] by simp
  with e show ?thesis by (cases "map_of views ''x''") auto
qed



end
