(* ===== verification/Sight.thy ===== *)
theory Sight
  imports Vision Access
begin

text \<open>
  What a member's tokens can see (\<open>internal/core/sight/sight.go\<close>): the walls of a scene that
  block sight, the points a subject looks from, and the three questions asked of them.  The
  resolver is the connection and the database, as in the access component.
\<close>

record wallGeometry =
  wg_X1 :: f64
  wg_Y1 :: f64
  wg_X2 :: f64
  wg_Y2 :: f64
  wg_BlocksSight :: bool
  wg_Door :: bool
  wg_DoorOpen :: bool

text \<open>\<open>json.Unmarshal\<close> into the struct; \<open>None\<close> is an error.\<close>

definition wall_geometry :: "raw \<Rightarrow> wallGeometry option" where
  "wall_geometry raw =
     (if struct_shape raw \<and> field_ok dec_float ''x1'' raw \<and> field_ok dec_float ''y1'' raw \<and>
         field_ok dec_float ''x2'' raw \<and> field_ok dec_float ''y2'' raw \<and>
         field_ok dec_bool ''blocksSight'' raw \<and> field_ok dec_bool ''door'' raw \<and> field_ok dec_bool ''doorOpen'' raw
      then Some \<lparr>wg_X1 = field_val dec_float (Fin 0) ''x1'' raw, wg_Y1 = field_val dec_float (Fin 0) ''y1'' raw,
        wg_X2 = field_val dec_float (Fin 0) ''x2'' raw, wg_Y2 = field_val dec_float (Fin 0) ''y2'' raw,
        wg_BlocksSight = field_val dec_bool False ''blocksSight'' raw,
        wg_Door = field_val dec_bool False ''door'' raw, wg_DoorOpen = field_val dec_bool False ''doorOpen'' raw\<rparr>
      else None)"

definition children_filter :: "string \<Rightarrow> ID \<Rightarrow> DocumentFilter" where
  "children_filter kind sceneID = zero_filter\<lparr>f_Kind := kind, f_ParentID := Some sceneID\<rparr>"

definition blocker_of :: "Document \<Rightarrow> Segment option" where
  "blocker_of wall =
     (case wall_geometry (d_Data wall) of
        None \<Rightarrow> None
      | Some data \<Rightarrow>
          if \<not> wg_BlocksSight data \<or> (wg_Door data \<and> wg_DoorOpen data) then None
          else Some \<lparr>seg_A = \<lparr>pt_X = wg_X1 data, pt_Y = wg_Y1 data\<rparr>, seg_B = \<lparr>pt_X = wg_X2 data, pt_Y = wg_Y2 data\<rparr>\<rparr>)"

definition BlockersOf :: "Conn \<Rightarrow> DB \<Rightarrow> ID \<Rightarrow> ID \<Rightarrow> Segment list res" where
  "BlockersOf c db worldID sceneID =
     bind_res (ListDocuments c db worldID (children_filter ''wall'' sceneID)) (\<lambda>walls.
     Inr (List.map_filter blocker_of walls))"

definition pointOf :: "Document \<Rightarrow> Point option" where
  "pointOf token =
     (let raw = d_Data token
      in if struct_shape raw \<and> field_ok dec_float ''x'' raw \<and> field_ok dec_float ''y'' raw
         then Some \<lparr>pt_X = field_val dec_float (Fin 0) ''x'' raw, pt_Y = field_val dec_float (Fin 0) ''y'' raw\<rparr>
         else None)"

definition viewpoint_of :: "Conn \<Rightarrow> DB \<Rightarrow> Subject \<Rightarrow> Document \<Rightarrow> Point option res" where
  "viewpoint_of c db subject token =
     bind_res (resolver_Grant c db subject token) (\<lambda>grant.
     Inr (if g_Level grant < LevelOwner then None else pointOf token))"

definition ViewpointsOf :: "Conn \<Rightarrow> DB \<Rightarrow> Subject \<Rightarrow> ID \<Rightarrow> ID \<Rightarrow> Point list res" where
  "ViewpointsOf c db subject worldID sceneID =
     bind_res (ListDocuments c db worldID (children_filter ''token'' sceneID)) (\<lambda>tokens.
     collect_res (viewpoint_of c db subject) tokens)"

definition filter_view ::
  "Conn \<Rightarrow> DB \<Rightarrow> ID \<Rightarrow> Document \<Rightarrow> Point \<Rightarrow> Segment list \<Rightarrow> ID \<times> View \<Rightarrow> (ID \<times> View) option res" where
  "filter_view c db worldID token target blockers = (\<lambda>(userID, view).
     if IsStaff (sub_Role (v_Subject view)) then Inr (Some (userID, view))
     else bind_res (ViewpointsOf c db (v_Subject view) worldID (d_ParentID token)) (\<lambda>points.
       Inr (if VisibleFromAny points target blockers then Some (userID, view) else None)))"

definition sight_Filter :: "Conn \<Rightarrow> DB \<Rightarrow> ID \<Rightarrow> Document \<Rightarrow> View gomap \<Rightarrow> View gomap res" where
  "sight_Filter c db worldID token views =
     (if d_Kind token \<noteq> ''token'' \<or> d_ParentID token = [] then Inr views
      else case pointOf token of
          None \<Rightarrow> Inr views
        | Some target \<Rightarrow>
            bind_res (BlockersOf c db worldID (d_ParentID token)) (\<lambda>blockers.
            if blockers = [] then Inr views
            else collect_res (filter_view c db worldID token target blockers) views))"

definition VisibleTokens :: "Conn \<Rightarrow> DB \<Rightarrow> Subject \<Rightarrow> ID \<Rightarrow> ID \<Rightarrow> Document list \<Rightarrow> Document list res" where
  "VisibleTokens c db subject worldID sceneID tokens =
     bind_res (BlockersOf c db worldID sceneID) (\<lambda>blockers.
     if blockers = [] \<or> IsStaff (sub_Role subject) then Inr tokens
     else bind_res (ViewpointsOf c db subject worldID sceneID) (\<lambda>points.
       if points = [] then Inr tokens
       else Inr (filter (\<lambda>token. case pointOf token of
            None \<Rightarrow> False | Some target \<Rightarrow> VisibleFromAny points target blockers) tokens)))"

definition CanSee :: "Conn \<Rightarrow> DB \<Rightarrow> Subject \<Rightarrow> ID \<Rightarrow> Document \<Rightarrow> bool res" where
  "CanSee c db subject worldID token =
     (if d_Kind token \<noteq> ''token'' \<or> d_ParentID token = [] \<or> IsStaff (sub_Role subject) then Inr True
      else case pointOf token of
          None \<Rightarrow> Inr True
        | Some target \<Rightarrow>
            bind_res (BlockersOf c db worldID (d_ParentID token)) (\<lambda>blockers.
            if blockers = [] then Inr True
            else bind_res (ViewpointsOf c db subject worldID (d_ParentID token)) (\<lambda>points.
              Inr (VisibleFromAny points target blockers))))"

section \<open>The three questions agree\<close>

lemma filter_view_CanSee:
  assumes "d_Kind token = ''token''" "d_ParentID token \<noteq> []" "pointOf token = Some target"
    and "BlockersOf c db worldID (d_ParentID token) = Inr blockers" "blockers \<noteq> []"
  shows "filter_view c db worldID token target blockers (uid, v) =
    bind_res (CanSee c db (v_Subject v) worldID token) (\<lambda>seen. Inr (if seen then Some (uid, v) else None))"
  using assms by (cases "ViewpointsOf c db (v_Subject v) worldID (d_ParentID token)")
    (auto simp: filter_view_def CanSee_def)

lemma collect_res_filter:
  "(\<And>x y. x \<in> set xs \<Longrightarrow> f x = Inr y \<Longrightarrow> y = (if P x then Some x else None)) \<Longrightarrow> collect_res f xs = Inr ys \<Longrightarrow>
     ys = filter P xs"
proof (induction xs arbitrary: ys)
  case (Cons x xs)
  from Cons.prems(2) obtain r zs where r: "f x = Inr r" and zs: "collect_res f xs = Inr zs"
    and ys: "ys = (case r of None \<Rightarrow> zs | Some z \<Rightarrow> z # zs)"
    by (auto simp: res_simps)
  have "r = (if P x then Some x else None)" using Cons.prems(1) [OF _ r] by simp
  moreover have "zs = filter P xs" using Cons zs by simp
  ultimately show ?case by (simp add: ys)
qed simp

lemma Filter_eq:
  assumes "sight_Filter c db worldID token views = Inr filtered"
  shows "filtered = filter (\<lambda>(uid, v). CanSee c db (v_Subject v) worldID token = Inr True) views"
proof (cases "d_Kind token \<noteq> ''token'' \<or> d_ParentID token = [] \<or> pointOf token = None")
  case True
  then have "CanSee c db s worldID token = Inr True" for s by (auto simp: CanSee_def)
  with True assms show ?thesis by (auto simp: sight_Filter_def split_def split: if_splits)
next
  case False
  then obtain target where t: "pointOf token = Some target" by blast
  with False assms obtain blockers where b: "BlockersOf c db worldID (d_ParentID token) = Inr blockers"
    by (auto simp: sight_Filter_def res_simps)
  show ?thesis
  proof (cases "blockers = []")
    case True
    then have "CanSee c db s worldID token = Inr True" for s using b t by (auto simp: CanSee_def)
    with True False assms t b show ?thesis by (auto simp: sight_Filter_def split_def)
  next
    case ne: False
    have c: "collect_res (filter_view c db worldID token target blockers) views = Inr filtered"
      using assms False t b ne by (auto simp: sight_Filter_def)
    show ?thesis
    proof (rule collect_res_filter [OF _ c])
      fix e r
      assume "filter_view c db worldID token target blockers e = Inr r"
      then show "r = (if case e of (uid, v) \<Rightarrow> CanSee c db (v_Subject v) worldID token = Inr True then Some e else None)"
        using filter_view_CanSee [OF _ _ t b ne, of "fst e" "snd e"] False
        by (cases "CanSee c db (v_Subject (snd e)) worldID token") (auto simp: split_def)
    qed
  qed
qed

lemma VisibleTokens_eq:
  assumes "VisibleTokens c db subject worldID sceneID tokens = Inr out" and "sceneID \<noteq> []"
    and "\<forall>token \<in> set tokens. d_Kind token = ''token'' \<and> d_ParentID token = sceneID \<and> pointOf token \<noteq> None"
  shows "out = filter (\<lambda>token. CanSee c db subject worldID token = Inr True) tokens"
proof -
  obtain blockers where b: "BlockersOf c db worldID sceneID = Inr blockers"
    using assms(1) by (auto simp: VisibleTokens_def res_simps)
  have see: "CanSee c db subject worldID token = (if IsStaff (sub_Role subject) \<or> blockers = [] then Inr True
      else bind_res (ViewpointsOf c db subject worldID sceneID) (\<lambda>points.
        Inr (VisibleFromAny points (the (pointOf token)) blockers)))" if "token \<in> set tokens" for token
    using assms(2,3) that b by (auto simp: CanSee_def)
  show ?thesis
  proof (cases "IsStaff (sub_Role subject) \<or> blockers = []")
    case True
    then have "filter (\<lambda>token. CanSee c db subject worldID token = Inr True) tokens = tokens"
      using see by (simp add: filter_id_conv)
    with True assms(1) b show ?thesis by (auto simp: VisibleTokens_def)
  next
    case False
    then obtain points where p: "ViewpointsOf c db subject worldID sceneID = Inr points"
      using assms(1) b by (auto simp: VisibleTokens_def res_simps)
    have "filter (\<lambda>token. CanSee c db subject worldID token = Inr True) tokens =
        filter (\<lambda>token. VisibleFromAny points (the (pointOf token)) blockers) tokens"
      by (rule filter_cong) (use see False p in auto)
    moreover have "filter (\<lambda>token. VisibleFromAny points (the (pointOf token)) blockers) tokens =
        filter (\<lambda>token. case pointOf token of None \<Rightarrow> False | Some target \<Rightarrow> VisibleFromAny points target blockers) tokens"
      by (rule filter_cong) (use assms(3) in auto)
    ultimately show ?thesis using assms(1) b p False
      by (cases "points = []") (auto simp: VisibleTokens_def VisibleFromAny_def)
  qed
qed

section \<open>A scene\<close>

definition sample_wall :: Document where
  "sample_wall = (sample_doc ''wall1'' ''s'')\<lparr>d_Kind := ''wall'', d_Data := RawJson (JObj
     [(''x1'', JInt 1), (''y1'', JInt 0), (''x2'', JInt 1), (''y2'', JInt 2), (''blocksSight'', JBool True)])\<rparr>"

definition sample_token :: "ID \<Rightarrow> json \<Rightarrow> raw \<Rightarrow> Document" where
  "sample_token did x ownership = (sample_doc did ''s'')\<lparr>d_Kind := ''token'',
     d_Data := RawJson (JObj [(''x'', x), (''y'', JInt 1)]), d_Ownership := ownership\<rparr>"

text \<open>A wall between the token of player \<open>p\<close> and an orc, and a token without coordinates.\<close>

definition sample_orc :: Document where "sample_orc = sample_token ''orc'' (JInt 2) RawNil"
definition sample_broken :: Document where "sample_broken = sample_token ''broken'' (JStr ''?'') RawNil"

definition sample_scene_db :: DB where
  "sample_scene_db = sample_members_db\<lparr>t_documents :=
     [sample_wall, sample_token ''hero'' (JInt 0) (RawJson (JObj [(''p'', JStr ''owner'')])), sample_orc, sample_broken]\<rparr>"

definition sample_player :: Subject where
  "sample_player = \<lparr>sub_UserID = ''p'', sub_Role = RolePlayer\<rparr>"

definition sample_hero :: Document where
  "sample_hero = sample_token ''hero'' (JInt 0) (RawJson (JObj [(''p'', JStr ''owner'')]))"

lemma sample_listed:
  assumes "sort_key (\<lambda>d. (d_Sort d, d_ID d))
      (filter (\<lambda>d. d_WorldID d = ''w'' \<and> filter_matches (children_filter kind ''s'') d) (t_documents sample_scene_db)) = ds"
    and "length ds \<le> 1000"
  shows "ListDocuments sample_conn sample_scene_db ''w'' (children_filter kind ''s'') = Inr ds"
  using assms by (simp add: ListDocuments_def sample_conn_def stmt_def children_filter_def zero_filter_def
      defaultLimit_def Let_def)

lemma sample_walls: "ListDocuments sample_conn sample_scene_db ''w'' (children_filter ''wall'' ''s'') = Inr [sample_wall]"
  by (rule sample_listed) code_simp+

lemma sample_tokens:
  "ListDocuments sample_conn sample_scene_db ''w'' (children_filter ''token'' ''s'') = Inr [sample_broken, sample_hero, sample_orc]"
  by (rule sample_listed) code_simp+

definition sample_blocker :: Segment where
  "sample_blocker = \<lparr>seg_A = point_at (1, 0), seg_B = point_at (1, 2)\<rparr>"

lemma sample_blockers: "BlockersOf sample_conn sample_scene_db ''w'' ''s'' = Inr [sample_blocker]"
proof -
  have "blocker_of sample_wall = Some sample_blocker" by code_simp
  then show ?thesis by (simp add: BlockersOf_def sample_walls List.map_filter_simps)
qed

lemma sample_points: "ViewpointsOf sample_conn sample_scene_db sample_player ''w'' ''s'' = Inr [point_at (0, 1)]"
proof -
  have "viewpoint_of sample_conn sample_scene_db sample_player sample_broken = Inr None"
    "viewpoint_of sample_conn sample_scene_db sample_player sample_orc = Inr None"
    "viewpoint_of sample_conn sample_scene_db sample_player sample_hero = Inr (Some (point_at (0, 1)))"
    by code_simp+
  then show ?thesis by (simp add: ViewpointsOf_def sample_tokens)
qed

lemma sample_player_staff: "\<not> IsStaff (sub_Role sample_player)"
  by code_simp

lemma sample_orc_place: "pointOf sample_orc = Some (point_at (2, 1))"
  "d_Kind sample_orc = ''token''" "d_ParentID sample_orc = ''s''"
  by code_simp+

lemma sample_broken_place: "pointOf sample_broken = None" "d_Kind sample_broken = ''token''"
  by code_simp+

lemma sample_orc_hidden: "\<not> VisibleFromAny [point_at (0, 1)] (point_at (2, 1)) [sample_blocker]"
  by code_simp

section \<open>The properties of sight\<close>



text \<open>
  Listing the visible tokens of a scene keeps exactly the tokens the subject can see, for
  tokens of that scene with readable coordinates.
\<close>

theorem visible_tokens_agree_with_can_see:
  assumes "VisibleTokens c db subject worldID sceneID tokens = Inr out" and "sceneID \<noteq> []"
    and "\<forall>token \<in> set tokens. d_Kind token = ''token'' \<and> d_ParentID token = sceneID \<and> pointOf token \<noteq> None"
  shows "out = filter (\<lambda>token. CanSee c db subject worldID token = Inr True) tokens"
  by (rule VisibleTokens_eq [OF assms])

theorem visible_tokens_agree_with_can_see_witness:
  "\<exists>out. VisibleTokens sample_conn sample_scene_db sample_player ''w'' ''s'' [sample_orc] = Inr out \<and>
     out = filter (\<lambda>token. CanSee sample_conn sample_scene_db sample_player ''w'' token = Inr True) [sample_orc]"
proof -
  obtain out where e: "VisibleTokens sample_conn sample_scene_db sample_player ''w'' ''s'' [sample_orc] = Inr out"
    by (simp add: VisibleTokens_def sample_blockers sample_points sample_player_staff)
  have "\<forall>token \<in> set [sample_orc]. d_Kind token = ''token'' \<and> d_ParentID token = ''s'' \<and> pointOf token \<noteq> None"
    by (simp add: sample_orc_place)
  from visible_tokens_agree_with_can_see [OF e _ this] e show ?thesis by blast
qed

text \<open>
  For a token whose coordinates cannot be read the two differ: \<open>CanSee\<close> (and \<open>Filter\<close>)
  show it, \<open>VisibleTokens\<close> leaves it out.
\<close>

theorem unreadable_token_differs:
  "CanSee sample_conn sample_scene_db sample_player ''w'' sample_broken = Inr True \<and>
   VisibleTokens sample_conn sample_scene_db sample_player ''w'' ''s'' [sample_orc, sample_broken] = Inr []"
proof
  show "CanSee sample_conn sample_scene_db sample_player ''w'' sample_broken = Inr True"
    by (simp add: CanSee_def sample_broken_place)
  show "VisibleTokens sample_conn sample_scene_db sample_player ''w'' ''s'' [sample_orc, sample_broken] = Inr []"
    by (simp add: VisibleTokens_def sample_blockers sample_points sample_orc_place sample_broken_place
        sample_orc_hidden sample_player_staff)
qed

end
