(* ===== verification/Tickets.thy ===== *)
theory Tickets
  imports StoragePort Encoding
begin

text \<open>
  One-time connection tickets (\<open>internal/transport/ws/ticket.go\<close>).  Each method runs under the
  store's mutex; what the clock shows and what \<open>rand.Read\<close> returns (\<open>None\<close>: an error) are
  arguments.
\<close>

definition DefaultTicketTTL :: duration where "DefaultTicketTTL = 30 * second"

record Ticket =
  tk_UserID :: ID
  tk_WorldID :: ID
  tk_Role :: string
  tk_ExpiresAt :: time

record TicketStore =
  ts_tickets :: "Ticket gomap"
  ts_ttl :: duration

definition NewTicketStore :: "duration \<Rightarrow> TicketStore" where
  "NewTicketStore ttl = \<lparr>ts_tickets = [], ts_ttl = (if ttl \<le> 0 then DefaultTicketTTL else ttl)\<rparr>"

definition sweepLocked :: "time \<Rightarrow> TicketStore \<Rightarrow> TicketStore" where
  "sweepLocked now s = s\<lparr>ts_tickets := map_keep (\<lambda>token ticket. \<not> now > tk_ExpiresAt ticket) (ts_tickets s)\<rparr>"

text \<open>The clock is read for the expiry and again by the sweep.\<close>

definition Issue ::
  "string option \<Rightarrow> time \<Rightarrow> time \<Rightarrow> ID \<Rightarrow> ID \<Rightarrow> string \<Rightarrow> TicketStore \<Rightarrow> (string \<times> time) res \<times> TicketStore" where
  "Issue random now sweep_now userID worldID role s =
     (case random of
        None \<Rightarrow> (Inl ErrRandom, s)
      | Some raw \<Rightarrow>
          let token = base64_url raw;
              expires = now + ts_ttl s;
              ticket = \<lparr>tk_UserID = userID, tk_WorldID = worldID, tk_Role = role, tk_ExpiresAt = expires\<rparr>
          in (Inr (token, expires),
              sweepLocked sweep_now (s\<lparr>ts_tickets := map_put token ticket (ts_tickets s)\<rparr>)))"

definition Redeem :: "time \<Rightarrow> string \<Rightarrow> TicketStore \<Rightarrow> Ticket res \<times> TicketStore" where
  "Redeem now token s =
     (case map_of (ts_tickets s) token of
        None \<Rightarrow> (Inl ErrTicketInvalid, s)
      | Some ticket \<Rightarrow>
          let s = s\<lparr>ts_tickets := map_del token (ts_tickets s)\<rparr>
          in if now > tk_ExpiresAt ticket then (Inl ErrTicketInvalid, s) else (Inr ticket, s))"

definition tickets_Len :: "TicketStore \<Rightarrow> nat" where
  "tickets_Len s = length (ts_tickets s)"

section \<open>Histories of a store\<close>

datatype ticket_call =
    CallIssue "string option" time time ID ID string
  | CallRedeem time string

fun after_call :: "ticket_call \<Rightarrow> TicketStore \<Rightarrow> TicketStore" where
  "after_call (CallIssue random now sweep_now uid wid role) s = snd (Issue random now sweep_now uid wid role s)"
| "after_call (CallRedeem now token) s = snd (Redeem now token s)"

definition after_calls :: "ticket_call list \<Rightarrow> TicketStore \<Rightarrow> TicketStore" where
  "after_calls calls s = fold after_call calls s"

fun issues :: "string \<Rightarrow> ticket_call \<Rightarrow> bool" where
  "issues token (CallIssue random now sweep_now uid wid role) \<longleftrightarrow> map_option base64_url random = Some token"
| "issues token (CallRedeem now t) \<longleftrightarrow> False"

text \<open>A call that leaves a ticket of the given expiry alone: it neither reissues, redeems nor sweeps it.\<close>

fun spares :: "string \<Rightarrow> time \<Rightarrow> ticket_call \<Rightarrow> bool" where
  "spares token expires (CallIssue random now sweep_now uid wid role) \<longleftrightarrow>
     map_option base64_url random \<noteq> Some token \<and> sweep_now \<le> expires"
| "spares token expires (CallRedeem now t) \<longleftrightarrow> t \<noteq> token"

definition tickets_ok :: "TicketStore \<Rightarrow> bool" where
  "tickets_ok s \<longleftrightarrow> is_gomap (ts_tickets s)"

lemma after_call_ok: "tickets_ok s \<Longrightarrow> tickets_ok (after_call c s)"
  by (cases c) (auto simp: tickets_ok_def Issue_def Redeem_def sweepLocked_def Let_def split: option.splits)

lemma after_calls_ok: "tickets_ok s \<Longrightarrow> tickets_ok (after_calls cs s)"
  unfolding after_calls_def by (induction cs arbitrary: s) (auto simp: after_call_ok)

lemma absent_stays:
  "tickets_ok s \<Longrightarrow> map_of (ts_tickets s) token = None \<Longrightarrow> \<not> issues token c \<Longrightarrow>
     map_of (ts_tickets (after_call c s)) token = None"
  by (cases c) (auto simp: Issue_def Redeem_def sweepLocked_def Let_def map_of_keep tickets_ok_def
    split: option.splits)

lemma absent_stays_calls:
  "tickets_ok s \<Longrightarrow> map_of (ts_tickets s) token = None \<Longrightarrow> list_all (\<lambda>c. \<not> issues token c) cs \<Longrightarrow>
     map_of (ts_tickets (after_calls cs s)) token = None"
  unfolding after_calls_def
  by (induction cs arbitrary: s) (auto simp: absent_stays after_call_ok)

lemma present_stays:
  "tickets_ok s \<Longrightarrow> map_of (ts_tickets s) token = Some t \<Longrightarrow> spares token (tk_ExpiresAt t) c \<Longrightarrow>
     map_of (ts_tickets (after_call c s)) token = Some t"
  by (cases c) (auto simp: Issue_def Redeem_def sweepLocked_def Let_def map_of_keep tickets_ok_def
    split: option.splits)

lemma present_stays_calls:
  "tickets_ok s \<Longrightarrow> map_of (ts_tickets s) token = Some t \<Longrightarrow> list_all (spares token (tk_ExpiresAt t)) cs \<Longrightarrow>
     map_of (ts_tickets (after_calls cs s)) token = Some t"
  unfolding after_calls_def
  by (induction cs arbitrary: s) (auto simp: present_stays after_call_ok)

lemma redeem_removes: "tickets_ok s \<Longrightarrow> map_of (ts_tickets (snd (Redeem now token s))) token = None"
  by (auto simp: Redeem_def Let_def split: option.splits)

lemma redeem_ok: "tickets_ok s \<Longrightarrow> tickets_ok (snd (Redeem now token s))"
  using after_call_ok [of s "CallRedeem now token"] by simp

section \<open>The properties of tickets\<close>

text \<open>
  a ticket is used up by its first presentation, successful or not: whatever calls follow,
  presenting the token again is refused unless the same random bytes were drawn once more.
\<close>

theorem ticket_single_use:
  assumes "tickets_ok s" and "list_all (\<lambda>c. \<not> issues token c) calls"
  shows "fst (Redeem later token (after_calls calls (snd (Redeem now token s)))) = Inl ErrTicketInvalid"
  using absent_stays_calls [OF redeem_ok [OF assms(1)] redeem_removes [OF assms(1)] assms(2)]
  by (simp add: Redeem_def)

theorem ticket_single_use_witness:
  "fst (Redeem 5 ''tok'' (after_calls [CallRedeem 4 ''other'']
     (snd (Redeem 3 ''tok'' (NewTicketStore 0))))) = Inl ErrTicketInvalid"
  using ticket_single_use [of "NewTicketStore 0" "''tok''" "[CallRedeem 4 ''other'']" 5 3]
  by (simp add: NewTicketStore_def tickets_ok_def)

text \<open>
  a ticket that was issued is honoured until it expires: after any calls that neither
  present it nor draw its bytes again, presenting it in time returns exactly the user, world
  and role it was issued for.
\<close>

theorem ticket_honoured:
  assumes "tickets_ok s" and "Issue random now sweep_now uid wid role s = (Inr (token, expires), s')"
    and "sweep_now \<le> expires" and "list_all (spares token expires) calls" and "later \<le> expires"
  shows "fst (Redeem later token (after_calls calls s')) =
    Inr \<lparr>tk_UserID = uid, tk_WorldID = wid, tk_Role = role, tk_ExpiresAt = expires\<rparr>"
proof -
  let ?t = "\<lparr>tk_UserID = uid, tk_WorldID = wid, tk_Role = role, tk_ExpiresAt = expires\<rparr>"
  have "map_of (ts_tickets s') token = Some ?t"
    using assms(1,2,3) by (auto simp: Issue_def Let_def sweepLocked_def map_of_keep tickets_ok_def
        split: option.splits)
  moreover have "tickets_ok s'"
    using after_call_ok [OF assms(1), of "CallIssue random now sweep_now uid wid role"] assms(2) by simp
  ultimately have "map_of (ts_tickets (after_calls calls s')) token = Some ?t"
    using present_stays_calls assms(4) by fastforce
  then show ?thesis using assms(5) by (simp add: Redeem_def Let_def)
qed

theorem ticket_honoured_witness:
  "\<exists>s'. Issue (Some ''abc'') 100 101 ''u'' ''w'' ''gm'' (NewTicketStore 50) = (Inr (base64_url ''abc'', 150), s') \<and>
     fst (Redeem 120 (base64_url ''abc'') (after_calls [CallRedeem 110 ''x''] s')) =
       Inr \<lparr>tk_UserID = ''u'', tk_WorldID = ''w'', tk_Role = ''gm'', tk_ExpiresAt = 150\<rparr>"
proof -
  obtain s' where i: "Issue (Some ''abc'') 100 101 ''u'' ''w'' ''gm'' (NewTicketStore 50) = (Inr (base64_url ''abc'', 150), s')"
    by (simp add: Issue_def NewTicketStore_def Let_def)
  have t: "base64_url ''abc'' = ''YWJj''" by code_simp
  have "tickets_ok (NewTicketStore 50)" by (simp add: NewTicketStore_def tickets_ok_def)
  moreover have "list_all (spares (base64_url ''abc'') 150) [CallRedeem 110 ''x'']" unfolding t by simp
  ultimately show ?thesis using ticket_honoured [OF _ i, of "[CallRedeem 110 ''x'']" 120] i by simp
qed

end
