(* ===== verification/Marshal.thy ===== *)
theory Marshal
  imports GoJson
begin

text \<open>
  Writing values with \<open>json.Marshal\<close>.  A Go string is a sequence of bytes; the encoder writes
  U+FFFD for every byte that is not part of well-formed UTF-8, so \<open>jstr\<close> is the string a reader
  gets back.  The members of a struct come in the order of its fields; \<open>omitempty\<close> fields are
  \<open>None\<close> when they are left out.
\<close>

section \<open>UTF-8\<close>

definition byte_in :: "nat \<Rightarrow> nat \<Rightarrow> string \<Rightarrow> nat \<Rightarrow> bool" where
  "byte_in lo hi s i \<longleftrightarrow> i < length s \<and> lo \<le> (of_char (s ! i) :: nat) \<and> of_char (s ! i) \<le> hi"

text \<open>The length of the well-formed character at the front, 0 when there is none (\<open>utf8.DecodeRune\<close>).\<close>

definition rune_size :: "string \<Rightarrow> nat" where
  "rune_size s =
     (case s of
        [] \<Rightarrow> 0
      | a # _ \<Rightarrow>
          (let n = (of_char a :: nat)
           in if n < 128 then 1
              else if 194 \<le> n \<and> n \<le> 223 \<and> byte_in 128 191 s 1 then 2
              else if 224 \<le> n \<and> n \<le> 239 \<and>
                byte_in (if n = 224 then 160 else 128) (if n = 237 then 159 else 191) s 1 \<and> byte_in 128 191 s 2 then 3
              else if 240 \<le> n \<and> n \<le> 244 \<and>
                byte_in (if n = 240 then 144 else 128) (if n = 244 then 143 else 191) s 1 \<and>
                byte_in 128 191 s 2 \<and> byte_in 128 191 s 3 then 4
              else (0::nat)))"

definition replacement :: string where
  "replacement = map char_of [239, 191, 189 :: nat]"

function to_valid :: "string \<Rightarrow> string" where
  "to_valid [] = []"
| "to_valid (a # s) =
     (if rune_size (a # s) = 0 then replacement @ to_valid s
      else take (rune_size (a # s)) (a # s) @ to_valid (drop (rune_size (a # s) - 1) s))"
  by pat_completeness auto
termination by (relation "measure length") auto

fun valid_utf8 :: "string \<Rightarrow> bool" where
  "valid_utf8 [] = True"
| "valid_utf8 (a # s) = (rune_size (a # s) \<noteq> 0 \<and> valid_utf8 (drop (rune_size (a # s) - 1) s))"

lemma rune_size_ascii: "of_char a < (128::nat) \<Longrightarrow> rune_size (a # s) = 1"
  by (simp add: rune_size_def)

lemma to_valid_ascii [simp]: "is_ascii s \<Longrightarrow> to_valid s = s"
  by (induction s) (auto simp: is_ascii_def rune_size_ascii)

lemma to_valid_code [code]:
  "to_valid s = (if is_ascii s then s else case s of
     [] \<Rightarrow> []
   | a # t \<Rightarrow> if rune_size s = 0 then replacement @ to_valid t
       else take (rune_size s) s @ to_valid (drop (rune_size s - 1) t))"
proof (cases "is_ascii s")
  case False
  then show ?thesis by (cases s) auto
qed (simp add: to_valid_ascii)

text \<open>The encoder leaves well-formed text alone.\<close>

lemma to_valid_id: "valid_utf8 s \<Longrightarrow> to_valid s = s"
proof (induction s rule: valid_utf8.induct)
  case (2 a s)
  then have "to_valid (drop (rune_size (a # s) - 1) s) = drop (rune_size (a # s) - 1) s" by simp
  with 2 show ?case using append_take_drop_id [of "rune_size (a # s)" "a # s"]
    by (cases "rune_size (a # s)") auto
qed simp

section \<open>Members\<close>

definition jstr :: "string \<Rightarrow> json" where
  "jstr s = JStr (to_valid s)"

definition member :: "string \<Rightarrow> json \<Rightarrow> (string \<times> json) option" where
  "member name v = Some (name, v)"

definition omit_string :: "string \<Rightarrow> string \<Rightarrow> (string \<times> json) option" where
  "omit_string name s = (if s = [] then None else Some (name, jstr s))"

text \<open>A \<open>json.RawMessage\<close>: nil is written as \<open>null\<close>, malformed bytes are an error.\<close>

definition raw_value :: "raw \<Rightarrow> json res" where
  "raw_value raw = (case raw of RawNil \<Rightarrow> Inr JNull | RawBad \<Rightarrow> Inl ErrDecode | RawJson v \<Rightarrow> Inr v)"

definition raw_member :: "string \<Rightarrow> raw \<Rightarrow> (string \<times> json) option res" where
  "raw_member name raw = bind_res (raw_value raw) (\<lambda>v. Inr (Some (name, v)))"

definition omit_raw :: "string \<Rightarrow> raw \<Rightarrow> (string \<times> json) option res" where
  "omit_raw name raw = (if raw = RawNil then Inr None else raw_member name raw)"

definition jobject :: "(string \<times> json) option list \<Rightarrow> json" where
  "jobject ms = JObj (List.map_filter id ms)"

lemma raw_value_Inr: "raw_value raw = Inr v \<longleftrightarrow> (raw = RawNil \<and> v = JNull) \<or> raw = RawJson v"
  by (cases raw) (auto simp: raw_value_def)

end
