(* ===== verification/Session.thy ===== *)
theory Session
  imports Hub Sight Tickets Marshal
begin

text \<open>
  One realtime connection (\<open>internal/transport/ws/session.go\<close>): the handshake, the catch-up, the
  dispatch of incoming frames and the write loop.  What the connection delivers and whether it
  accepts a write are arguments; a handler is a function from the session, the intent and the
  database to its result, the database and the publications it sends to the hub, in order.
\<close>

definition catchUpLimit :: int where "catchUpLimit = 500"

record IntentResult =
  ir_Seq :: int
  ir_Result :: raw

type_synonym handler = "Session \<Rightarrow> Intent \<Rightarrow> DB \<Rightarrow> IntentResult res \<times> DB \<times> Publication list"

type_synonym Router = "handler gomap"

definition NewIntentError :: "string \<Rightarrow> string \<Rightarrow> go_error" where
  "NewIntentError code messageKey = IntentError code messageKey"

definition session_Subject :: "Session \<Rightarrow> Subject" where
  "session_Subject s = \<lparr>sub_UserID = ss_userID s, sub_Role = ss_role s\<rparr>"

definition DisplayName :: "Session \<Rightarrow> string" where
  "DisplayName s = (if ss_displayName s \<noteq> [] then ss_displayName s else ss_userID s)"

section \<open>The handshake\<close>

definition resolveRole :: "Conn \<Rightarrow> DB \<Rightarrow> Session \<Rightarrow> string res" where
  "resolveRole c db s =
     (case store_ReadOnly c (\<lambda>c db. RoleOf c db (ss_worldID s) (ss_userID s)) db of
        Inl _ \<Rightarrow> Inl ErrNotAMember
      | Inr role \<Rightarrow> Inr role)"

definition resolveDisplayName :: "Conn \<Rightarrow> DB \<Rightarrow> Session \<Rightarrow> string" where
  "resolveDisplayName c db s =
     (case store_ReadOnly c (\<lambda>c db. GetUser c db (ss_userID s)) db of
        Inl _ \<Rightarrow> []
      | Inr user \<Rightarrow> u_Username user)"

text \<open>\<open>frame\<close> is what reading and decoding the first message gives.\<close>

definition authenticate ::
  "Conn \<Rightarrow> DB \<Rightarrow> time \<Rightarrow> Frame res \<Rightarrow> Session \<times> TicketStore \<Rightarrow> Hello res \<times> Session \<times> TicketStore" where
  "authenticate c db now frame = (\<lambda>(s, tickets).
     case frame of
       Inl e \<Rightarrow> (Inl e, s, tickets)
     | Inr frame \<Rightarrow>
         if fr_Type frame \<noteq> TypeHello then (Inl ErrHandshake, s, tickets)
         else case fr_Hello frame of
             None \<Rightarrow> (Inl ErrHandshake, s, tickets)
           | Some hello \<Rightarrow>
               if h_ProtocolVersion hello < MinProtocolVersion \<or> h_ProtocolVersion hello > ProtocolVersion
               then (Inl ErrHandshake, s, tickets)
               else case Redeem now (h_Ticket hello) tickets of
                   (Inl e, tickets) \<Rightarrow> (Inl e, s, tickets)
                 | (Inr ticket, tickets) \<Rightarrow>
                     if h_WorldID hello \<noteq> [] \<and> h_WorldID hello \<noteq> tk_WorldID ticket
                     then (Inl ErrHandshake, s, tickets)
                     else
                       let s = s\<lparr>ss_userID := tk_UserID ticket, ss_worldID := tk_WorldID ticket\<rparr>
                       in case resolveRole c db s of
                            Inl e \<Rightarrow> (Inl e, s, tickets)
                          | Inr role \<Rightarrow>
                              let s = s\<lparr>ss_role := role, ss_displayName := resolveDisplayName c db s\<rparr>
                              in (Inr hello, Subscribe [WorldChannel (ss_worldID s), UserChannel (ss_userID s)] s, tickets))"

definition codeForHandshake :: "go_error \<Rightarrow> string" where
  "codeForHandshake e =
     (if e = ErrTicketInvalid then CodeUnauthorized
      else if e = ErrNotAMember then CodeForbidden
      else CodeBadRequest)"

section \<open>Views\<close>

record DocumentView =
  dv_ID :: string
  dv_Seq :: int
  dv_Kind :: string
  dv_Subtype :: string
  dv_Name :: string
  dv_Img :: string
  dv_Data :: raw
  dv_Flags :: raw
  dv_Ownership :: raw
  dv_UpdatedSeq :: int

definition viewOf :: "View \<Rightarrow> int \<Rightarrow> DocumentView" where
  "viewOf view seq =
     (let doc = v_Document view
      in \<lparr>dv_ID = d_ID doc, dv_Seq = seq, dv_Kind = d_Kind doc, dv_Subtype = d_Subtype doc,
          dv_Name = d_Name doc, dv_Img = d_Img doc, dv_Data = d_Data doc, dv_Flags = d_Flags doc,
          dv_Ownership = d_Ownership doc, dv_UpdatedSeq = d_UpdatedSeq doc\<rparr>)"

definition marshal_view :: "DocumentView \<Rightarrow> raw res" where
  "marshal_view v =
     bind_res (raw_member ''data'' (dv_Data v)) (\<lambda>data.
     bind_res (omit_raw ''flags'' (dv_Flags v)) (\<lambda>flags.
     bind_res (omit_raw ''ownership'' (dv_Ownership v)) (\<lambda>ownership.
     Inr (RawJson (jobject
       [member ''id'' (jstr (dv_ID v)), member ''seq'' (JInt (dv_Seq v)), member ''kind'' (jstr (dv_Kind v)),
        omit_string ''subtype'' (dv_Subtype v), member ''name'' (jstr (dv_Name v)), omit_string ''img'' (dv_Img v),
        data, flags, ownership, member ''updatedSeq'' (JInt (dv_UpdatedSeq v))])))))"

section \<open>Catching up\<close>

definition audienceAllows :: "raw \<Rightarrow> ID \<Rightarrow> bool" where
  "audienceAllows audience userID =
     (case audience of
        RawNil \<Rightarrow> True
      | RawBad \<Rightarrow> True
      | RawJson v \<Rightarrow>
          (case dec_strings v of
             Assign allowed \<Rightarrow> allowed = [] \<or> list_ex (\<lambda>candidate. candidate = userID) allowed
           | _ \<Rightarrow> True))"

definition replayPayload :: "Conn \<Rightarrow> DB \<Rightarrow> FieldPolicy \<Rightarrow> Session \<Rightarrow> Event \<Rightarrow> raw option res" where
  "replayPayload c db policy s event =
     (if e_TargetKind event \<noteq> ''document'' \<or> e_TargetID event = [] then Inr (Some (e_Payload event))
      else case GetDocument c db (ss_worldID s) (e_TargetID event) of
          Inl e \<Rightarrow> if e = ErrNotFound then Inr None else Inl e
        | Inr doc \<Rightarrow>
            let subject = session_Subject s
            in bind_res (resolver_Grant c db subject doc) (\<lambda>grant.
               bind_res (RedactDocument doc subject grant policy) (\<lambda>visible.
               case visible of
                 None \<Rightarrow> Inr None
               | Some visible \<Rightarrow>
                   bind_res (CanSee c db subject (ss_worldID s) doc) (\<lambda>inSight.
                   if \<not> inSight then Inr None
                   else bind_res (marshal_view
                       (viewOf \<lparr>v_Subject = subject, v_Grant = grant, v_Document = visible\<rparr> (e_Seq event)))
                     (\<lambda>payload. Inr (Some payload))))))"

definition event_frame :: "int \<Rightarrow> string \<Rightarrow> ID \<Rightarrow> ID \<Rightarrow> raw \<Rightarrow> Frame" where
  "event_frame seq kind worldID sceneID payload =
     (empty_frame LaneDocument TypeEvent)\<lparr>fr_Event := Some \<lparr>ev_Seq = seq, ev_Kind = kind, ev_WorldID = worldID,
        ev_SceneID = sceneID, ev_Payload = payload\<rparr>\<rparr>"

definition replay_event :: "Conn \<Rightarrow> DB \<Rightarrow> FieldPolicy \<Rightarrow> Session \<Rightarrow> Event \<Rightarrow> Frame option res" where
  "replay_event c db policy s event =
     (if \<not> audienceAllows (e_Audience event) (ss_userID s) then Inr None
      else bind_res (replayPayload c db policy s event) (\<lambda>payload.
        Inr (map_option (event_frame (e_Seq event) (e_Kind event) (e_WorldID event) (e_SceneID event)) payload)))"

definition replayFrames :: "Conn \<Rightarrow> DB \<Rightarrow> FieldPolicy \<Rightarrow> Session \<Rightarrow> int \<Rightarrow> Frame list res" where
  "replayFrames c db policy s fromSeq =
     store_ReadOnly c (\<lambda>c db.
       bind_res (EventsSince c db (ss_worldID s) fromSeq catchUpLimit) (\<lambda>events.
       collect_res (replay_event c db policy s) events)) db"

definition currentWorld :: "Conn \<Rightarrow> DB \<Rightarrow> Session \<Rightarrow> World res" where
  "currentWorld c db s = store_ReadOnly c (\<lambda>c db. GetWorld c db (ss_worldID s)) db"

text \<open>\<open>writeControlNow\<close> encodes a frame and writes it; it is the connection's answer.\<close>

definition session_welcome ::
  "Conn \<Rightarrow> DB \<Rightarrow> FieldPolicy \<Rightarrow> (Frame \<Rightarrow> unit res) \<Rightarrow> Hello \<Rightarrow> Session \<Rightarrow> unit res \<times> Session" where
  "session_welcome c db policy writeControlNow hello s =
     (case currentWorld c db s of
        Inl e \<Rightarrow> (Inl e, s)
      | Inr world \<Rightarrow>
          let deltaFrom = (if h_LastSeq hello < 0 \<or> h_LastSeq hello > w_EventSeq world then 0 else h_LastSeq hello);
              s = s\<lparr>ss_lastSeq := deltaFrom\<rparr>
          in case writeControlNow ((empty_frame LaneControl TypeWelcome)\<lparr>fr_Welcome := Some \<lparr>wl_SessionID = ss_id s,
                 wl_UserID = ss_userID s, wl_Role = ss_role s, wl_Seq = w_EventSeq world,
                 wl_DeltaFrom = deltaFrom, wl_SnapshotRef = []\<rparr>\<rparr>) of
               Inl e \<Rightarrow> (Inl e, s)
             | Inr _ \<Rightarrow>
                 (case replayFrames c db policy s deltaFrom of
                    Inl e \<Rightarrow> (Inl e, s)
                  | Inr replay \<Rightarrow> on_outbox (PrependDocument replay) s))"

section \<open>Incoming frames\<close>

definition push_control :: "Frame \<Rightarrow> Session \<Rightarrow> Session" where
  "push_control frame s = snd (on_outbox (PushControl frame) s)"

definition push_document :: "Frame \<Rightarrow> Session \<Rightarrow> Session" where
  "push_document frame s = snd (on_outbox (PushDocument frame) s)"

definition handlePing :: "Frame \<Rightarrow> Session \<Rightarrow> Session" where
  "handlePing frame s =
     push_control ((empty_frame LaneControl TypePong)\<lparr>fr_Ping := Some \<lparr>pg_SentAtUnixMs =
        (case fr_Ping frame of None \<Rightarrow> 0 | Some ping \<Rightarrow> pg_SentAtUnixMs ping)\<rparr>\<rparr>) s"

definition handleEphemeral :: "Frame \<Rightarrow> Session \<Rightarrow> Session \<times> Publication list" where
  "handleEphemeral frame s =
     (case fr_Ephemeral frame of
        None \<Rightarrow> (push_control (errorFrame 0 CodeBadRequest ''core.ws.ephemeralNeedsKey'') s, [])
      | Some eph \<Rightarrow>
          if ep_Key eph = [] then (push_control (errorFrame 0 CodeBadRequest ''core.ws.ephemeralNeedsKey'') s, [])
          else (s, [zero_publication\<lparr>
            pb_Channel := (if ep_SceneID eph \<noteq> [] then SceneChannel (ep_SceneID eph) else WorldChannel (ss_worldID s)),
            pb_Lane := LaneEphemeral, pb_Key := ep_Key eph,
            pb_Frame := (empty_frame LaneEphemeral TypeEphemeral)\<lparr>fr_Ephemeral := Some eph\<rparr>,
            pb_Exclude := ss_id s\<rparr>]))"

definition intent_reply :: "Intent \<Rightarrow> Session \<Rightarrow> IntentResult res \<Rightarrow> Frame" where
  "intent_reply intent s outcome =
     (case outcome of
        Inl (IntentError code messageKey) \<Rightarrow> errorFrame (it_RequestID intent) code messageKey
      | Inl _ \<Rightarrow> errorFrame (it_RequestID intent) CodeInternal ''core.ws.internalError''
      | Inr outcome \<Rightarrow>
          (empty_frame LaneDocument TypeAck)\<lparr>fr_Ack := Some \<lparr>ak_RequestID = it_RequestID intent,
             ak_Seq = (if ir_Seq outcome = 0 then ss_lastSeq s else ir_Seq outcome),
             ak_Result = ir_Result outcome\<rparr>\<rparr>)"

definition handleIntent :: "Router \<Rightarrow> Frame \<Rightarrow> Session \<times> DB \<Rightarrow> Session \<times> DB \<times> Publication list" where
  "handleIntent router frame = (\<lambda>(s, db).
     case fr_Intent frame of
       None \<Rightarrow> (push_control (errorFrame 0 CodeBadRequest ''core.ws.missingIntent'') s, db, [])
     | Some intent \<Rightarrow>
         (case map_of router (it_Kind intent) of
            None \<Rightarrow> (push_document (errorFrame (it_RequestID intent) CodeUnsupported ''core.ws.unknownIntent'') s, db, [])
          | Some handle \<Rightarrow>
              (case handle s intent db of
                 (outcome, db, publications) \<Rightarrow> (push_document (intent_reply intent s outcome) s, db, publications))))"

text \<open>One turn of the read loop: \<open>frame\<close> is what decoding the message that was read gives.\<close>

definition read_turn :: "Router \<Rightarrow> Frame res \<Rightarrow> Session \<times> DB \<Rightarrow> Session \<times> DB \<times> Publication list" where
  "read_turn router frame = (\<lambda>(s, db).
     case frame of
       Inl _ \<Rightarrow> (push_control (errorFrame 0 CodeBadRequest ''core.ws.malformedFrame'') s, db, [])
     | Inr frame \<Rightarrow>
         if fr_Type frame = TypePing then (handlePing frame s, db, [])
         else if fr_Type frame = TypeIntent then handleIntent router frame (s, db)
         else if fr_Type frame = TypeEphemeral
         then (case handleEphemeral frame s of (s, publications) \<Rightarrow> (s, db, publications))
         else (push_control (errorFrame 0 CodeBadRequest ''core.ws.unexpectedFrame'') s, db, []))"

section \<open>The write loop\<close>

datatype write_outcome = Idle | Skipped | Sent Frame | Broken

text \<open>
  One turn of the inner loop; \<open>encode\<close> is the codec and \<open>wrote\<close> says whether the connection
  accepts the write.
\<close>

definition event_seq :: "Frame \<Rightarrow> int option" where
  "event_seq frame = (if fr_Type frame = TypeEvent then map_option ev_Seq (fr_Event frame) else None)"

definition write_turn :: "(Frame \<Rightarrow> 'b res) \<Rightarrow> bool \<Rightarrow> Session \<Rightarrow> write_outcome \<times> Session" where
  "write_turn encode wrote s =
     (case on_outbox Pop s of
        (None, s) \<Rightarrow> (Idle, s)
      | (Some frame, s) \<Rightarrow>
          if (case event_seq frame of None \<Rightarrow> False | Some seq \<Rightarrow> seq \<le> ss_lastSeq s) then (Skipped, s)
          else
            let s = (case event_seq frame of None \<Rightarrow> s | Some seq \<Rightarrow> s\<lparr>ss_lastSeq := seq\<rparr>)
            in case encode frame of
                 Inl _ \<Rightarrow> (Skipped, s)
               | Inr _ \<Rightarrow> if wrote then (Sent frame, s) else (Broken, s))"

fun write_pending :: "(Frame \<Rightarrow> 'b res) \<Rightarrow> nat \<Rightarrow> Session \<Rightarrow> Frame list \<times> Session" where
  "write_pending encode 0 s = ([], s)"
| "write_pending encode (Suc n) s =
     (case write_turn encode True s of
        (Sent frame, s) \<Rightarrow> (case write_pending encode n s of (frames, s) \<Rightarrow> (frame # frames, s))
      | (Skipped, s) \<Rightarrow> write_pending encode n s
      | (_, s) \<Rightarrow> ([], s))"

section \<open>What the write loop writes\<close>

definition newer :: "int \<Rightarrow> Frame list \<Rightarrow> Frame \<Rightarrow> bool" where
  "newer prev before frame \<longleftrightarrow>
     (case event_seq frame of
        None \<Rightarrow> True
      | Some seq \<Rightarrow> prev < seq \<and> (\<forall>g \<in> set before. \<forall>n. event_seq g = Some n \<longrightarrow> n < seq))"

text \<open>The frames at the positions where an event is newer than every event before it.\<close>

definition fresh_frames :: "(Frame \<Rightarrow> bool) \<Rightarrow> int \<Rightarrow> Frame list \<Rightarrow> Frame list" where
  "fresh_frames encodes prev frames =
     map (\<lambda>i. frames ! i) (filter (\<lambda>i. newer prev (take i frames) (frames ! i) \<and> encodes (frames ! i)) [0..<length frames])"

definition seq_after :: "int \<Rightarrow> Frame \<Rightarrow> int" where
  "seq_after prev frame = (case event_seq frame of None \<Rightarrow> prev | Some seq \<Rightarrow> max prev seq)"

lemma newer_Cons: "newer prev (f # before) g \<longleftrightarrow> newer (seq_after prev f) before g"
  by (auto simp: newer_def seq_after_def split: option.splits)

lemma fresh_frames_Nil [simp]: "fresh_frames enc prev [] = []"
  by (simp add: fresh_frames_def)

lemma fresh_frames_Cons:
  "fresh_frames enc prev (f # fs) =
     (if newer prev [] f \<and> enc f then [f] else []) @ fresh_frames enc (seq_after prev f) fs"
proof -
  have "map (\<lambda>i. (f # fs) ! i) (filter (\<lambda>i. newer prev (take i (f # fs)) ((f # fs) ! i) \<and> enc ((f # fs) ! i)) (map Suc [0..<length fs]))
      = fresh_frames enc (seq_after prev f) fs"
    by (simp add: fresh_frames_def filter_map o_def newer_Cons)
  then show ?thesis
    by (simp add: fresh_frames_def upt_conv_Cons map_Suc_upt [symmetric] del: upt_Suc)
qed

abbreviation waiting :: "Session \<Rightarrow> Frame list" where
  "waiting s \<equiv> pending (lanes_of (ss_outbox s))"

lemma write_turn_next:
  assumes "outbox_ok (ss_outbox s)" and "waiting s = f # fs"
  obtains s' where "write_turn encode True s =
      (if newer (ss_lastSeq s) [] f \<and> (\<exists>b. encode f = Inr b) then Sent f else Skipped, s')"
    and "waiting s' = fs" "outbox_ok (ss_outbox s')" "ss_lastSeq s' = seq_after (ss_lastSeq s) f"
proof -
  obtain ob where ob: "Pop (ss_outbox s) = (Some f, ob)" "pending (lanes_of ob) = fs" "outbox_ok ob"
    using out.pop_next [OF assms] by blast
  show ?thesis
    by (rule that [of "s\<lparr>ss_outbox := ob, ss_lastSeq := seq_after (ss_lastSeq s) f\<rparr>"])
      (use ob in \<open>auto simp: write_turn_def on_outbox_def newer_def seq_after_def Let_def split: option.splits sum.splits\<close>)
qed

lemma write_turn_idle:
  "outbox_ok (ss_outbox s) \<Longrightarrow> waiting s = [] \<Longrightarrow> write_turn encode wrote s = (Idle, s)"
  by (simp add: write_turn_def on_outbox_def out.pop_empty)

lemma write_pending_fresh:
  "outbox_ok (ss_outbox s) \<Longrightarrow> length (waiting s) \<le> n \<Longrightarrow>
     \<exists>s'. write_pending encode n s = (fresh_frames (\<lambda>f. \<exists>b. encode f = Inr b) (ss_lastSeq s) (waiting s), s') \<and>
       waiting s' = [] \<and> outbox_ok (ss_outbox s') \<and> ss_lastSeq s' = fold (\<lambda>f prev. seq_after prev f) (waiting s) (ss_lastSeq s)"
proof (induction n arbitrary: s)
  case (Suc n)
  show ?case
  proof (cases "waiting s")
    case Nil
    with Suc.prems show ?thesis by (simp add: write_turn_idle)
  next
    case (Cons f fs)
    obtain s' where s': "write_turn encode True s =
        (if newer (ss_lastSeq s) [] f \<and> (\<exists>b. encode f = Inr b) then Sent f else Skipped, s')"
      "waiting s' = fs" "outbox_ok (ss_outbox s')" "ss_lastSeq s' = seq_after (ss_lastSeq s) f"
      by (rule write_turn_next [OF Suc.prems(1) Cons])
    from Suc.IH [of s'] s' Suc.prems(2) Cons show ?thesis
      by (auto simp: fresh_frames_Cons split: if_splits)
  qed
qed simp

section \<open>A session among the others\<close>

text \<open>
  The life of a session after the welcome: the hub delivers to it or closes it, its read loop
  pushes frames, clients subscribe and unsubscribe it, and the write loop takes turns, in any
  interleaving.  \<open>written\<close> holds the frames written so far.
\<close>

inductive session_run :: "(Frame \<Rightarrow> 'b res) \<Rightarrow> Session \<Rightarrow> Frame list \<Rightarrow> Session \<Rightarrow> bool" for encode s0 where
  start: "session_run encode s0 [] s0"
| fan: "session_run encode s0 written s \<Longrightarrow> session_run encode s0 written (after_fan p sid s)"
| close: "session_run encode s0 written s \<Longrightarrow> session_run encode s0 written (CloseWithResync reason from s)"
| control: "session_run encode s0 written s \<Longrightarrow> session_run encode s0 written (push_control f s)"
| document: "session_run encode s0 written s \<Longrightarrow> session_run encode s0 written (push_document f s)"
| subscribe: "session_run encode s0 written s \<Longrightarrow> session_run encode s0 written (Subscribe cs s)"
| unsubscribe: "session_run encode s0 written s \<Longrightarrow> session_run encode s0 written (Unsubscribe cs s)"
| sent: "session_run encode s0 written s \<Longrightarrow> write_turn encode wrote s = (Sent f, s') \<Longrightarrow> session_run encode s0 (written @ [f]) s'"
| other: "session_run encode s0 written s \<Longrightarrow> write_turn encode wrote s = (r, s') \<Longrightarrow>
    (\<forall>f. r \<noteq> Sent f) \<Longrightarrow> session_run encode s0 written s'"

definition seqs :: "Frame list \<Rightarrow> int list" where
  "seqs frames = List.map_filter event_seq frames"

lemma seqs_simps [simp]: "seqs [] = []" "seqs (xs @ ys) = seqs xs @ seqs ys"
  "seqs [f] = (case event_seq f of None \<Rightarrow> [] | Some n \<Rightarrow> [n])"
  by (auto simp: seqs_def List.map_filter_def split: option.splits)

lemma push_lastSeq [simp]: "ss_lastSeq (push_control f s) = ss_lastSeq s" "ss_lastSeq (push_document f s) = ss_lastSeq s"
  "ss_lastSeq (Subscribe cs s) = ss_lastSeq s" "ss_lastSeq (Unsubscribe cs s) = ss_lastSeq s"
  by (simp_all add: push_control_def push_document_def Subscribe_def Unsubscribe_def)

lemma write_turn_seq:
  assumes "write_turn encode wrote s = (r, s')"
  shows "ss_lastSeq s \<le> ss_lastSeq s'"
    and "r = Sent f \<Longrightarrow> (case event_seq f of None \<Rightarrow> True | Some n \<Rightarrow> ss_lastSeq s < n \<and> ss_lastSeq s' = n)"
  using assms
  by (auto simp: write_turn_def on_outbox_def Let_def
      split: prod.splits option.splits if_splits sum.splits)

lemma session_run_seqs:
  "session_run encode s0 written s \<Longrightarrow>
     sorted_wrt (<) (seqs written) \<and> (\<forall>n \<in> set (seqs written). ss_lastSeq s0 < n \<and> n \<le> ss_lastSeq s) \<and>
     ss_lastSeq s0 \<le> ss_lastSeq s"
proof (induction rule: session_run.induct)
  case (sent written s wrote f s')
  from write_turn_seq [OF sent.hyps(2)] sent.IH show ?case
    by (force simp: sorted_wrt_append split: option.splits)
next
  case (other written s wrote r s')
  from write_turn_seq(1) [OF other.hyps(2)] other.IH show ?case by force
qed simp_all

section \<open>Catching up\<close>

lemma event_seq_frame [simp]: "event_seq (event_frame seq kind wid sid payload) = Some seq"
  by (simp add: event_seq_def event_frame_def empty_frame_def)

lemma collect_seqs:
  assumes "collect_res f xs = Inr ys" and "\<And>x y. x \<in> set xs \<Longrightarrow> f x = Inr (Some y) \<Longrightarrow> event_seq y = Some (e_Seq x)"
    and "sorted_wrt (<) (map e_Seq xs)"
  shows "sorted_wrt (<) (seqs ys) \<and> set (seqs ys) \<subseteq> set (map e_Seq xs)"
  using assms
proof (induction xs arbitrary: ys)
  case (Cons x xs)
  from Cons.prems(1) obtain r zs where r: "f x = Inr r" and zs: "collect_res f xs = Inr zs"
    and ys: "ys = (case r of None \<Rightarrow> zs | Some z \<Rightarrow> z # zs)"
    by (auto simp: res_simps)
  have IH: "sorted_wrt (<) (seqs zs) \<and> set (seqs zs) \<subseteq> set (map e_Seq xs)"
    using Cons.IH [OF zs] Cons.prems(2,3) by simp
  show ?case
  proof (cases r)
    case (Some z)
    then have "seqs ys = e_Seq x # seqs zs"
      using Cons.prems(2) [of x z] r ys seqs_simps(2) [of "[z]" zs] by simp
    with IH Cons.prems(3) show ?thesis by auto
  qed (use IH ys in auto)
qed simp

lemma replay_event_Some:
  "replay_event c db policy s e = Inr (Some f) \<longleftrightarrow>
     audienceAllows (e_Audience e) (ss_userID s) \<and>
     (\<exists>payload. replayPayload c db policy s e = Inr (Some payload) \<and>
        f = event_frame (e_Seq e) (e_Kind e) (e_WorldID e) (e_SceneID e) payload)"
  by (auto simp: replay_event_def res_simps)

definition replayed :: "Conn \<Rightarrow> DB \<Rightarrow> FieldPolicy \<Rightarrow> Session \<Rightarrow> int \<Rightarrow> Frame \<Rightarrow> bool" where
  "replayed c db policy s from f \<longleftrightarrow> (\<exists>e \<in> set (world_log db (ss_worldID s)).
     from < e_Seq e \<and> e_Seq e \<le> from + 500 \<and> audienceAllows (e_Audience e) (ss_userID s) \<and>
     (\<exists>payload. replayPayload (c\<lparr>c_writable := False\<rparr>) db policy s e = Inr (Some payload) \<and>
        f = event_frame (e_Seq e) (e_Kind e) (e_WorldID e) (e_SceneID e) payload))"

lemma log_window:
  assumes "gapless db" "w \<in> set (t_worlds db)" "w_EventSeq w - int (length (world_log db (w_ID w))) \<le> from"
  shows "set (take 500 (sort_key e_Seq (filter (\<lambda>e. from < e_Seq e) (world_log db (w_ID w))))) =
    {e \<in> set (world_log db (w_ID w)). from < e_Seq e \<and> e_Seq e \<le> from + 500}"
proof -
  define l where "l = sort_key e_Seq (filter (\<lambda>e. from < e_Seq e) (world_log db (w_ID w)))"
  have all: "map e_Seq (take n l) = [from + 1 .. min (w_EventSeq w) (from + int n)]" for n
    unfolding l_def by (rule events_after [OF assms])
  have full: "map e_Seq l = [from + 1 .. min (w_EventSeq w) (from + int (length l))]"
    using all [of "length l"] by simp
  have nth: "e_Seq (l ! i) = from + 1 + int i" if "i < length l" for i
  proof -
    have "i < length [from + 1 .. min (w_EventSeq w) (from + int (length l))]"
      using that full by (metis length_map)
    then have "[from + 1 .. min (w_EventSeq w) (from + int (length l))] ! i = from + 1 + int i"
      by (intro nth_upto) (simp add: zless_nat_eq_int_zless, linarith)
    with full that show ?thesis by (metis nth_map)
  qed
  have "set (take 500 l) = {e \<in> set l. e_Seq e \<le> from + 500}"
  proof (intro set_eqI iffI)
    fix e assume "e \<in> set (take 500 l)"
    then obtain i where "i < length l" "i < 500" "e = l ! i" by (auto simp: in_set_conv_nth)
    then show "e \<in> {e \<in> set l. e_Seq e \<le> from + 500}" using nth [of i] nth_mem [of i l] by simp
  next
    fix e assume "e \<in> {e \<in> set l. e_Seq e \<le> from + 500}"
    then obtain i where i: "i < length l" "e = l ! i" "e_Seq e \<le> from + 500" by (auto simp: in_set_conv_nth)
    then have "i < 500" using nth [of i] by simp
    with i show "e \<in> set (take 500 l)" by (auto simp: in_set_conv_nth intro!: exI [of _ i])
  qed
  then show ?thesis by (auto simp: l_def)
qed

lemma replayFrames_exact:
  assumes "db_ok db" and "GetWorld c db (ss_worldID s) = Inr w"
    and "w_EventSeq w - int (length (world_log db (ss_worldID s))) \<le> from"
    and "replayFrames c db policy s from = Inr frames"
  shows "set frames = {f. replayed c db policy s from f}" "sorted_wrt (<) (seqs frames)"
    "\<forall>n \<in> set (seqs frames). from < n \<and> n \<le> from + 500" "\<forall>f \<in> set frames. \<exists>n. event_seq f = Some n"
proof -
  let ?c = "c\<lparr>c_writable := False\<rparr>"
  from assms(2) have w: "w \<in> set (t_worlds db)" "w_ID w = ss_worldID s"
    by (auto simp: GetWorld_def split: option.splits dest: row_get_SomeD)
  from assms(4) obtain es where es: "EventsSince ?c db (ss_worldID s) from catchUpLimit = Inr es"
    and f: "collect_res (replay_event ?c db policy s) es = Inr frames"
    by (auto simp: replayFrames_def store_ReadOnly_def res_simps)
  have eq: "es = take 500 (sort_key e_Seq (filter (\<lambda>e. from < e_Seq e) (world_log db (w_ID w))))"
    using EventsSince_eq [OF es] w by (simp add: catchUpLimit_def)
  have g: "gapless db" using assms(1) by (simp add: db_ok_def)
  have set_es: "set es = {e \<in> set (world_log db (w_ID w)). from < e_Seq e \<and> e_Seq e \<le> from + 500}"
    unfolding eq by (rule log_window [OF g w(1)]) (use assms(3) w in simp)
  have "map e_Seq es = [from + 1 .. min (w_EventSeq w) (from + 500)]"
    using events_after [OF g w(1), of "from" 500] assms(3) w eq by simp
  then have sorted: "sorted_wrt (<) (map e_Seq es)" by (simp add: strict_sorted_iff)
  show set: "set frames = {f. replayed c db policy s from f}"
    using collect_res_set [OF f] set_es w by (auto simp: replayed_def replay_event_Some)
  then show "\<forall>f \<in> set frames. \<exists>n. event_seq f = Some n" by (auto simp: replayed_def)
  have "sorted_wrt (<) (seqs frames) \<and> set (seqs frames) \<subseteq> set (map e_Seq es)"
    by (rule collect_seqs [OF f _ sorted]) (auto simp: replay_event_Some)
  then show "sorted_wrt (<) (seqs frames)" "\<forall>n \<in> set (seqs frames). from < n \<and> n \<le> from + 500"
    using set_es by auto
qed

lemma fresh_all:
  assumes "sorted_wrt (<) (prev # seqs frames)" and "\<forall>f \<in> set frames. enc f"
  shows "fresh_frames enc prev frames = frames"
  using assms
proof (induction frames arbitrary: prev)
  case (Cons f frames)
  have s: "seqs (f # frames) = (case event_seq f of None \<Rightarrow> [] | Some n \<Rightarrow> [n]) @ seqs frames"
    using seqs_simps(2) [of "[f]" frames] by simp
  show ?case
  proof (cases "event_seq f")
    case None
    then show ?thesis using Cons s by (simp add: fresh_frames_Cons newer_def seq_after_def)
  next
    case (Some n)
    then have "sorted_wrt (<) (n # seqs frames)" "prev < n" using Cons.prems(1) s by auto
    then show ?thesis using Cons Some by (simp add: fresh_frames_Cons newer_def seq_after_def max_def)
  qed
qed simp

lemma replay_lastSeq: "replayFrames c db policy (s\<lparr>ss_lastSeq := n\<rparr>) from = replayFrames c db policy s from"
proof -
  have same: "session_Subject (s\<lparr>ss_lastSeq := n\<rparr>) = session_Subject s" "ss_worldID (s\<lparr>ss_lastSeq := n\<rparr>) = ss_worldID s"
    "ss_userID (s\<lparr>ss_lastSeq := n\<rparr>) = ss_userID s"
    by (simp_all add: session_Subject_def)
  have "replay_event c db policy (s\<lparr>ss_lastSeq := n\<rparr>) = replay_event c db policy s" for c db
    unfolding replay_event_def replayPayload_def same ..
  then show ?thesis by (simp add: replayFrames_def)
qed

text \<open>
  An event that reaches the outbox after one with a higher number is popped but not written.
\<close>

lemma late_event_lost:
  assumes "event_seq f = Some n" "event_seq g = Some m" "m \<le> n" "prev < n" "enc f"
  shows "fresh_frames enc prev [f, g] = [f]"
  using assms by (simp add: fresh_frames_Cons newer_def seq_after_def)

section \<open>The handshake\<close>

lemma Redeem_Inr:
  "Redeem now token tickets = (Inr ticket, tickets') \<longleftrightarrow>
     map_of (ts_tickets tickets) token = Some ticket \<and> now \<le> tk_ExpiresAt ticket \<and>
     tickets' = tickets\<lparr>ts_tickets := map_del token (ts_tickets tickets)\<rparr>"
  by (auto simp: Redeem_def Let_def split: option.splits)

lemma resolveRole_Inr:
  "resolveRole c db s = Inr role \<longleftrightarrow> \<not> c_fails c ''GetMember'' \<and>
     (\<exists>m. row_get member_key (ss_worldID s, ss_userID s) (t_members db) = Some m \<and> m_Role m = role \<and> Valid role)"
  using RoleOf_Inr [of "c\<lparr>c_writable := False\<rparr>" db "ss_worldID s" "ss_userID s" role]
  by (cases "RoleOf (c\<lparr>c_writable := False\<rparr>) db (ss_worldID s) (ss_userID s)")
    (simp_all add: resolveRole_def store_ReadOnly_def)

lemma resolveDisplayName_eq:
  "resolveDisplayName c db s = (case GetUser c db (ss_userID s) of Inl _ \<Rightarrow> [] | Inr u \<Rightarrow> u_Username u)"
  by (simp add: resolveDisplayName_def store_ReadOnly_def GetUser_def stmt_def)

lemma authenticate_Some:
  assumes "fr_Hello frame = Some hello"
  shows "authenticate c db now (Inr frame) (s, tickets) = (Inr hello', s', tickets') \<longleftrightarrow>
    hello' = hello \<and> fr_Type frame = TypeHello \<and> h_ProtocolVersion hello = 1 \<and>
    (\<exists>ticket role. Redeem now (h_Ticket hello) tickets = (Inr ticket, tickets') \<and>
       (h_WorldID hello = [] \<or> h_WorldID hello = tk_WorldID ticket) \<and>
       resolveRole c db (s\<lparr>ss_userID := tk_UserID ticket, ss_worldID := tk_WorldID ticket\<rparr>) = Inr role \<and>
       s' = Subscribe [WorldChannel (tk_WorldID ticket), UserChannel (tk_UserID ticket)]
         (s\<lparr>ss_userID := tk_UserID ticket, ss_worldID := tk_WorldID ticket, ss_role := role,
            ss_displayName := resolveDisplayName c db (s\<lparr>ss_userID := tk_UserID ticket, ss_worldID := tk_WorldID ticket\<rparr>)\<rparr>))"
proof -
  obtain r ts where r: "Redeem now (h_Ticket hello) tickets = (r, ts)" by fastforce
  have v: "h_ProtocolVersion hello < MinProtocolVersion \<or> h_ProtocolVersion hello > ProtocolVersion \<longleftrightarrow> h_ProtocolVersion hello \<noteq> 1"
    by (auto simp: MinProtocolVersion_def ProtocolVersion_def)
  show ?thesis
    unfolding authenticate_def using assms r v
    by (cases r) (auto simp: Let_def split: sum.splits)
qed

lemma authenticate_None:
  "fr_Hello frame = None \<Longrightarrow> authenticate c db now (Inr frame) (s, tickets) = (Inl ErrHandshake, s, tickets)"
  by (simp add: authenticate_def)

section \<open>The properties of a session\<close>

text \<open>
  a connection is accepted exactly when its first frame is a hello of the supported protocol
  version with a ticket that is stored and not expired, for the ticket's world, whose user is at
  that moment a member of that world with a known role; the session then acts as that user in
  that world with the role of the membership, not of the ticket, listens to the world and to
  the user's own channel, and the ticket is gone.
\<close>

theorem handshake_exact:
  "authenticate c db now (Inr frame) (s, tickets) = (Inr hello, s', tickets') \<longleftrightarrow>
     fr_Type frame = TypeHello \<and> fr_Hello frame = Some hello \<and> h_ProtocolVersion hello = 1 \<and>
     (\<exists>ticket m. map_of (ts_tickets tickets) (h_Ticket hello) = Some ticket \<and> now \<le> tk_ExpiresAt ticket \<and>
        tickets' = tickets\<lparr>ts_tickets := map_del (h_Ticket hello) (ts_tickets tickets)\<rparr> \<and>
        (h_WorldID hello = [] \<or> h_WorldID hello = tk_WorldID ticket) \<and> \<not> c_fails c ''GetMember'' \<and>
        row_get member_key (tk_WorldID ticket, tk_UserID ticket) (t_members db) = Some m \<and> Valid (m_Role m) \<and>
        s' = Subscribe [''world:'' @ tk_WorldID ticket, ''user:'' @ tk_UserID ticket]
          (s\<lparr>ss_userID := tk_UserID ticket, ss_worldID := tk_WorldID ticket, ss_role := m_Role m,
             ss_displayName := (case GetUser c db (tk_UserID ticket) of Inl _ \<Rightarrow> [] | Inr u \<Rightarrow> u_Username u)\<rparr>))"
  by (cases "fr_Hello frame") (auto simp: authenticate_Some authenticate_None Redeem_Inr resolveRole_Inr resolveDisplayName_eq
      WorldChannel_def UserChannel_def)

text \<open>
  whatever the interleaving of deliveries, replies, closes and turns of the write loop, the
  events a session writes after its welcome have strictly increasing sequence numbers, all above
  the one the client resumed from.
\<close>

theorem written_in_order:
  assumes "session_run encode s0 written s"
  shows "sorted_wrt (<) (seqs written) \<and> (\<forall>n \<in> set (seqs written). ss_lastSeq s0 < n \<and> n \<le> ss_lastSeq s)"
  using session_run_seqs [OF assms] by blast

theorem written_in_order_witness:
  "\<exists>s. session_run (\<lambda>f. Inr f :: Frame res) (NewSession ''s'' 4 4) [event_frame 3 ''chat.message'' ''w'' [] RawNil] s \<and>
     (\<forall>n \<in> set (seqs [event_frame 3 ''chat.message'' ''w'' [] RawNil]). 0 < n)"
proof -
  let ?f = "event_frame 3 ''chat.message'' ''w'' [] RawNil" and ?s = "NewSession ''s'' 4 4"
  obtain s' where t: "write_turn (\<lambda>f. Inr f :: Frame res) True (push_document ?f ?s) = (Sent ?f, s')"
    by (simp add: write_turn_def push_document_def on_outbox_def PushDocument_def NewSession_def newOutbox_def
        wake_def Pop_def Let_def)
  have "session_run (\<lambda>f. Inr f :: Frame res) ?s ([] @ [?f]) s'"
    by (rule session_run.sent [OF session_run.document [OF session_run.start] t])
  with written_in_order [OF this] show ?thesis by (auto simp: NewSession_def)
qed

text \<open>
  C5: a client that reconnects is brought up to date: after the welcome the write loop writes,
  each once and in order, exactly the events of the log that follow the client's last sequence
  number, at most 500 numbers further, whose audience includes the user and, for events about a
  document, whose document the user may still read and see, carrying the redacted view; then
  nothing is left waiting.
\<close>

theorem reconnect_catches_up:
  assumes "db_ok db" and "GetWorld c db (ss_worldID s) = Inr w"
    and "w_EventSeq w - int (length (world_log db (ss_worldID s))) \<le> h_LastSeq hello"
    and "0 \<le> h_LastSeq hello" and "h_LastSeq hello \<le> w_EventSeq w"
    and "session_welcome c db policy writeControlNow hello s = (Inr u, s1)"
    and "outbox_ok (ss_outbox s)" and "waiting s = []"
    and "\<forall>f. event_seq f \<noteq> None \<longrightarrow> (\<exists>b. encode f = Inr b)"
  shows "\<exists>n frames s2. write_pending encode n s1 = (frames, s2) \<and> waiting s2 = [] \<and>
    set frames = {f. replayed c db policy s (h_LastSeq hello) f} \<and> sorted_wrt (<) (seqs frames) \<and>
    length (seqs frames) = length frames"
proof -
  let ?n = "h_LastSeq hello"
  have world: "currentWorld c db s = Inr w"
    using assms(2) by (simp add: currentWorld_def store_ReadOnly_def GetWorld_def stmt_def)
  obtain frames where f: "replayFrames c db policy s ?n = Inr frames"
    and s1: "on_outbox (PrependDocument frames) (s\<lparr>ss_lastSeq := ?n\<rparr>) = (Inr u, s1)"
    using assms(4-6) world
    by (auto simp: session_welcome_def Let_def replay_lastSeq not_less [symmetric] split: sum.splits)
  note exact = replayFrames_exact [OF assms(1-3) f]
  have empty: "o_control (ss_outbox s) = []" "o_document (ss_outbox s) = []" "o_order (ss_outbox s) = []"
    using assms(8) by (auto simp: pending_def lanes_of_def)
  then have w1: "waiting s1 = frames" "outbox_ok (ss_outbox s1)" "ss_lastSeq s1 = ?n"
    using s1 assms(7) outbox_others_ok(3) [OF assms(7), of frames]
    by (auto simp: on_outbox_def PrependDocument_def pending_def lanes_of_def wake_def split: if_splits)
  have enc: "\<forall>f \<in> set frames. \<exists>b. encode f = Inr b" using exact(4) assms(9) by auto
  have "sorted_wrt (<) (?n # seqs frames)" using exact(2,3) by auto
  from fresh_all [OF this enc] write_pending_fresh [OF w1(2), of "length frames" encode]
  obtain s2 where "write_pending encode (length frames) s1 = (frames, s2)" "waiting s2 = []"
    using w1 by auto
  moreover have "length (seqs frames) = length frames"
    using exact(4) by (auto simp: seqs_def List.map_filter_def filter_id_conv)
  ultimately show ?thesis using exact(1,2) by blast
qed

definition sample_hello :: Hello where
  "sample_hello = \<lparr>h_Ticket = ''t'', h_WorldID = ''w'', h_ProtocolVersion = 1, h_LastSeq = 1, h_Locale = [], h_Capabilities = []\<rparr>"

definition sample_client :: Session where
  "sample_client = (NewSession ''s1'' 4 4)\<lparr>ss_userID := ''g'', ss_worldID := ''w''\<rparr>"

lemma sample_replay:
  "replayFrames sample_conn sample_db policy sample_client 1 = Inr [event_frame 2 ''b'' ''w'' [] RawNil]"
  by (simp add: replayFrames_def store_ReadOnly_def EventsSince_def stmt_def catchUpLimit_def sample_defs
      replay_event_def audienceAllows_def replayPayload_def Let_def sample_client_def NewSession_def)

theorem reconnect_catches_up_witness:
  "\<exists>s1 n frames s2. session_welcome sample_conn sample_db OpenPolicy (\<lambda>_. Inr ()) sample_hello sample_client = (Inr (), s1) \<and>
     write_pending (\<lambda>f. Inr f :: Frame res) n s1 = (frames, s2) \<and>
     set frames = {f. replayed sample_conn sample_db OpenPolicy sample_client 1 f}"
proof -
  let ?w = "sample_world\<lparr>w_EventSeq := 2\<rparr>"
  have client: "ss_worldID sample_client = ''w''" "ss_outbox sample_client = newOutbox 4 4"
    by (simp_all add: sample_client_def NewSession_def)
  have w: "GetWorld sample_conn sample_db (ss_worldID sample_client) = Inr ?w"
    by (simp add: client GetWorld_def stmt_def sample_defs row_get_def)
  then have "currentWorld sample_conn sample_db sample_client = Inr ?w"
    by (simp add: currentWorld_def store_ReadOnly_def GetWorld_def stmt_def)
  then obtain s1 where s1: "session_welcome sample_conn sample_db OpenPolicy (\<lambda>_. Inr ()) sample_hello sample_client = (Inr (), s1)"
    by (simp add: session_welcome_def sample_hello_def sample_replay replay_lastSeq on_outbox_def client
        PrependDocument_def newOutbox_def)
  have "w_EventSeq ?w - int (length (world_log sample_db (ss_worldID sample_client))) \<le> h_LastSeq sample_hello"
    by (simp add: client world_log_def sample_defs sample_hello_def)
  moreover have "waiting sample_client = []"
    by (simp add: client newOutbox_def pending_def lanes_of_def)
  ultimately have "\<exists>n frames s2. write_pending (\<lambda>f. Inr f :: Frame res) n s1 = (frames, s2) \<and> waiting s2 = [] \<and>
      set frames = {f. replayed sample_conn sample_db OpenPolicy sample_client (h_LastSeq sample_hello) f} \<and>
      sorted_wrt (<) (seqs frames) \<and> length (seqs frames) = length frames"
    by (intro reconnect_catches_up [OF sample_db_ok w _ _ _ s1])
      (auto simp: sample_hello_def client newOutbox_ok)
  with s1 show ?thesis by (auto simp: sample_hello_def)
qed

end
