(* ===== verification/Intents.thy ===== *)
theory Intents
  imports Session
begin

text \<open>
  The core intents (\<open>internal/transport/ws/intents.go\<close>): patching a document, moving a token and
  activating a scene.  Each handler is the whole function of the code: decoding the payload, the
  transaction, the translation of its error and the publication to the hub.
\<close>

definition malformed :: go_error where
  "malformed = NewIntentError CodeBadRequest ''core.intent.malformedPayload''"

definition forbidden :: go_error where
  "forbidden = NewIntentError CodeForbidden ''core.intent.forbidden''"

section \<open>Payloads\<close>

record DocumentPatchPayload =
  dp_ID :: string
  dp_Name :: "string option"
  dp_Sort :: "int option"
  dp_Img :: "string option"
  dp_Set :: "json gomap"
  dp_Unset :: "string list"

record TokenMovePayload =
  tm_TokenID :: string
  tm_X :: f64
  tm_Y :: f64

record SceneActivated =
  sa_SceneID :: string
  sa_Name :: string
  sa_Seq :: int

definition unmarshal_patch :: "raw \<Rightarrow> DocumentPatchPayload option" where
  "unmarshal_patch raw =
     (if struct_shape raw \<and> field_ok dec_string ''id'' raw \<and> field_ok (dec_ptr dec_string) ''name'' raw \<and>
         field_ok (dec_ptr dec_int) ''sort'' raw \<and> field_ok (dec_ptr dec_string) ''img'' raw \<and>
         field_ok dec_any_map ''set'' raw \<and> field_ok dec_strings ''unset'' raw
      then Some \<lparr>dp_ID = field_val dec_string [] ''id'' raw, dp_Name = field_val (dec_ptr dec_string) None ''name'' raw,
        dp_Sort = field_val (dec_ptr dec_int) None ''sort'' raw, dp_Img = field_val (dec_ptr dec_string) None ''img'' raw,
        dp_Set = field_map dec_any_map ''set'' raw, dp_Unset = field_val dec_strings [] ''unset'' raw\<rparr>
      else None)"

definition marshal_patch :: "DocumentPatchPayload \<Rightarrow> raw" where
  "marshal_patch p = RawJson (jobject
     [member ''id'' (jstr (dp_ID p)),
      map_option (\<lambda>v. (''name'', jstr v)) (dp_Name p),
      map_option (\<lambda>v. (''sort'', JInt v)) (dp_Sort p),
      map_option (\<lambda>v. (''img'', jstr v)) (dp_Img p),
      (if dp_Set p = [] then None else Some (''set'', JObj (dp_Set p))),
      (if dp_Unset p = [] then None else Some (''unset'', JArr (map jstr (dp_Unset p))))])"

definition unmarshal_move :: "raw \<Rightarrow> TokenMovePayload option" where
  "unmarshal_move raw =
     (if struct_shape raw \<and> field_ok dec_string ''tokenId'' raw \<and> field_ok dec_float ''x'' raw \<and> field_ok dec_float ''y'' raw
      then Some \<lparr>tm_TokenID = field_val dec_string [] ''tokenId'' raw, tm_X = field_val dec_float (Fin 0) ''x'' raw,
        tm_Y = field_val dec_float (Fin 0) ''y'' raw\<rparr>
      else None)"

text \<open>An infinite or undefined number cannot be written.\<close>

definition marshal_float :: "f64 \<Rightarrow> json res" where
  "marshal_float x = (case x of Fin r \<Rightarrow> Inr (json_of_float r) | _ \<Rightarrow> Inl ErrDecode)"

definition marshal_move :: "TokenMovePayload \<Rightarrow> raw res" where
  "marshal_move p =
     bind_res (marshal_float (tm_X p)) (\<lambda>x. bind_res (marshal_float (tm_Y p)) (\<lambda>y.
     Inr (RawJson (jobject [member ''tokenId'' (jstr (tm_TokenID p)), member ''x'' x, member ''y'' y]))))"

definition unmarshal_scene_id :: "raw \<Rightarrow> string option" where
  "unmarshal_scene_id raw =
     (if struct_shape raw \<and> field_ok dec_string ''sceneId'' raw then Some (field_val dec_string [] ''sceneId'' raw) else None)"

definition marshal_activated :: "SceneActivated \<Rightarrow> raw" where
  "marshal_activated a = RawJson (jobject
     [member ''sceneId'' (jstr (sa_SceneID a)), member ''name'' (jstr (sa_Name a)), member ''seq'' (JInt (sa_Seq a))])"

section \<open>Patching\<close>

definition document_event :: "Session \<Rightarrow> string \<Rightarrow> ID \<Rightarrow> ID \<Rightarrow> raw \<Rightarrow> Event" where
  "document_event s kind target scene payload = zero_event\<lparr>e_WorldID := ss_worldID s, e_ActorUserID := ss_userID s,
     e_Kind := kind, e_TargetKind := ''document'', e_TargetID := target, e_SceneID := scene, e_Payload := payload\<rparr>"

text \<open>The body of the transaction of \<open>applyPatch\<close>.\<close>

definition patch_tx ::
  "FieldPolicy \<Rightarrow> Session \<Rightarrow> ID \<Rightarrow> Patch \<Rightarrow> string \<Rightarrow> raw res \<Rightarrow> Conn \<Rightarrow> DB \<Rightarrow> ((int \<times> View gomap) \<times> DB) res" where
  "patch_tx policy s documentID patch eventKind eventPayload c db =
     bind_res (GetDocument c db (ss_worldID s) documentID) (\<lambda>current.
     bind_res (Authorize c db (ss_worldID s) (ss_userID s) current True) (\<lambda>_.
     bind_res eventPayload (\<lambda>encoded.
     bind_res (AppendEvent c (document_event s eventKind documentID [] encoded) db) (\<lambda>(seq, db).
     bind_res (PatchDocument c (ss_worldID s) documentID (patch\<lparr>p_Seq := seq\<rparr>) db) (\<lambda>(patched, db).
     bind_res (ProjectForMembers c db policy patched) (\<lambda>views.
     bind_res (sight_Filter c db (ss_worldID s) patched views) (\<lambda>views.
     Inr ((seq, views), db))))))))"

definition patch_error :: "go_error \<Rightarrow> go_error" where
  "patch_error e =
     (if e = ErrForbidden then forbidden
      else if e = ErrNotFound then NewIntentError CodeNotFound ''core.intent.documentNotFound''
      else if e = ErrInvalidPath then NewIntentError CodeBadRequest ''core.intent.invalidPath''
      else e)"

definition user_frame :: "Session \<Rightarrow> string \<Rightarrow> int \<Rightarrow> ID \<times> View \<Rightarrow> (ID \<times> Frame) option res" where
  "user_frame s eventKind seq = (\<lambda>(userID, view).
     bind_res (marshal_view (viewOf view seq)) (\<lambda>encoded.
     Inr (Some (userID, event_frame seq eventKind (ss_worldID s) [] encoded))))"

definition world_publication :: "Session \<Rightarrow> Publication" where
  "world_publication s = zero_publication\<lparr>pb_Channel := WorldChannel (ss_worldID s), pb_Lane := LaneDocument\<rparr>"

definition applyPatch ::
  "Conn \<Rightarrow> FieldPolicy \<Rightarrow> Session \<Rightarrow> ID \<Rightarrow> Patch \<Rightarrow> string \<Rightarrow> raw res \<Rightarrow> DB \<Rightarrow> IntentResult res \<times> DB \<times> Publication list" where
  "applyPatch c policy s documentID patch eventKind eventPayload db =
     (case store_Tx c (patch_tx policy s documentID patch eventKind eventPayload) db of
        (Inl e, db) \<Rightarrow> (Inl (patch_error e), db, [])
      | (Inr (seq, views), db) \<Rightarrow>
          (case collect_res (user_frame s eventKind seq) views of
             Inl e \<Rightarrow> (Inl e, db, [])
           | Inr perUser \<Rightarrow>
               let publications = [(world_publication s)\<lparr>pb_PerUser := Some (map_from perUser)\<rparr>]
               in case map_of views (ss_userID s) of
                    None \<Rightarrow> (Inl forbidden, db, publications)
                  | Some own \<Rightarrow>
                      (bind_res (marshal_view (viewOf own seq)) (\<lambda>result. Inr \<lparr>ir_Seq = seq, ir_Result = result\<rparr>),
                       db, publications)))"

text \<open>A decoded coordinate is finite, so the last branch is never taken.\<close>

definition handleTokenMove :: "Conn \<Rightarrow> FieldPolicy \<Rightarrow> handler" where
  "handleTokenMove c policy s intent db =
     (case unmarshal_move (it_Payload intent) of
        None \<Rightarrow> (Inl malformed, db, [])
      | Some payload \<Rightarrow>
          if tm_TokenID payload = [] then (Inl (NewIntentError CodeBadRequest ''core.intent.missingDocumentId''), db, [])
          else
            (case (marshal_float (tm_X payload), marshal_float (tm_Y payload)) of
               (Inr x, Inr y) \<Rightarrow>
                 applyPatch c policy s (tm_TokenID payload) (zero_patch\<lparr>p_Set := [(''x'', x), (''y'', y)]\<rparr>)
                   ''scene.token.move'' (marshal_move payload) db
             | _ \<Rightarrow> (Inl ErrDecode, db, [])))"

definition handleDocumentPatch :: "Conn \<Rightarrow> FieldPolicy \<Rightarrow> handler" where
  "handleDocumentPatch c policy s intent db =
     (case unmarshal_patch (it_Payload intent) of
        None \<Rightarrow> (Inl malformed, db, [])
      | Some payload \<Rightarrow>
          if dp_ID payload = [] then (Inl (NewIntentError CodeBadRequest ''core.intent.missingDocumentId''), db, [])
          else applyPatch c policy s (dp_ID payload)
            (zero_patch\<lparr>p_Name := dp_Name payload, p_Sort := dp_Sort payload, p_Img := dp_Img payload,
               p_Set := dp_Set payload, p_Unset := dp_Unset payload\<rparr>)
            ''document.patch'' (Inr (marshal_patch payload)) db)"

section \<open>Activating a scene\<close>

definition activate_tx :: "Session \<Rightarrow> ID \<Rightarrow> Conn \<Rightarrow> DB \<Rightarrow> (SceneActivated \<times> DB) res" where
  "activate_tx s sceneID c db =
     bind_res (GetDocument c db (ss_worldID s) sceneID) (\<lambda>scene.
     if d_Kind scene \<noteq> ''scene'' then Inl ErrNotFound
     else bind_res (GetWorld c db (ss_worldID s)) (\<lambda>world.
     bind_res (PutWorld c (world\<lparr>w_ActiveScene := d_ID scene\<rparr>) db) (\<lambda>db.
     bind_res (AppendEvent c (document_event s ''scene.activate'' (d_ID scene) (d_ID scene)
       (RawJson (jobject [member ''sceneId'' (jstr sceneID)]))) db) (\<lambda>(seq, db).
     Inr (\<lparr>sa_SceneID = d_ID scene, sa_Name = d_Name scene, sa_Seq = seq\<rparr>, db)))))"

definition handleSceneActivate :: "Conn \<Rightarrow> handler" where
  "handleSceneActivate c s intent db =
     (case unmarshal_scene_id (it_Payload intent) of
        None \<Rightarrow> (Inl malformed, db, [])
      | Some sceneID \<Rightarrow>
          if sceneID = [] then (Inl (NewIntentError CodeBadRequest ''core.intent.missingSceneId''), db, [])
          else if \<not> IsStaff (sub_Role (session_Subject s))
          then (Inl (NewIntentError CodeForbidden ''core.intent.gameMasterOnly''), db, [])
          else
            (case store_Tx c (activate_tx s sceneID) db of
               (Inl e, db) \<Rightarrow>
                 (Inl (if e = ErrNotFound then NewIntentError CodeNotFound ''core.intent.sceneNotFound'' else e), db, [])
             | (Inr activated, db) \<Rightarrow>
                 let encoded = marshal_activated activated
                 in (Inr \<lparr>ir_Seq = sa_Seq activated, ir_Result = encoded\<rparr>, db,
                     [(world_publication s)\<lparr>pb_Frame := event_frame (sa_Seq activated) ''scene.activate''
                        (ss_worldID s) (sa_SceneID activated) encoded\<rparr>])))"

section \<open>What a patch does\<close>

abbreviation tx_conn :: "Conn \<Rightarrow> Conn" where
  "tx_conn c \<equiv> c\<lparr>c_writable := True\<rparr>"

lemma patch_tx_Inr:
  "patch_tx policy s did patch kind payload c db = Inr ((seq, views), db') \<longleftrightarrow>
     (\<exists>current g encoded db1 patched projected.
        GetDocument c db (ss_worldID s) did = Inr current \<and>
        Authorize c db (ss_worldID s) (ss_userID s) current True = Inr g \<and> payload = Inr encoded \<and>
        AppendEvent c (document_event s kind did [] encoded) db = Inr (seq, db1) \<and>
        PatchDocument c (ss_worldID s) did (patch\<lparr>p_Seq := seq\<rparr>) db1 = Inr (patched, db') \<and>
        ProjectForMembers c db' policy patched = Inr projected \<and>
        sight_Filter c db' (ss_worldID s) patched projected = Inr views)"
  by (auto simp: patch_tx_def res_simps)

lemma applyPatch_committed:
  assumes "applyPatch c policy s did patch kind payload db = (r, db', pubs)" and "db' \<noteq> db \<or> pubs \<noteq> []"
  obtains seq views where "patch_tx policy s did patch kind payload (tx_conn c) db = Inr ((seq, views), db')"
    and "pubs = [] \<or> (\<exists>perUser. collect_res (user_frame s kind seq) views = Inr perUser \<and>
      pubs = [(world_publication s)\<lparr>pb_PerUser := Some (map_from perUser)\<rparr>])"
    and "map_of views (ss_userID s) = None \<Longrightarrow> pubs \<noteq> [] \<Longrightarrow> r = Inl forbidden"
  using assms
  by (auto simp: applyPatch_def Let_def store_Tx_ok dest: store_Tx_error
      split: prod.splits sum.splits option.splits)

lemma patched_tables:
  assumes "AppendEvent c event db = Inr (seq, db1)" and "PatchDocument c wid did patch db1 = Inr (d, db')"
  shows "\<exists>e. t_events db' = t_events db @ [e] \<and> stored_event c seq event = Inr e"
    and "t_members db' = t_members db \<and> t_users db' = t_users db \<and> t_sessions db' = t_sessions db \<and>
      t_invites db' = t_invites db \<and> t_assets db' = t_assets db"
    and "k \<noteq> (wid, did) \<Longrightarrow> row_get doc_key k (t_documents db') = row_get doc_key k (t_documents db)"
proof -
  obtain w e where 1: "stored_event c seq event = Inr e"
    "db1 = db\<lparr>t_worlds := row_update (\<lambda>w. w_ID w = e_WorldID event) (\<lambda>w. w\<lparr>w_EventSeq := w_EventSeq w + 1\<rparr>) (t_worlds db),
       t_events := t_events db @ [e]\<rparr>"
    by (rule AppendEvent_cases [OF assms(1)])
  have 2: "\<exists>docs. db' = db1\<lparr>t_documents := docs\<rparr>"
    by (rule PatchDocument_cases [OF assms(2)]) (auto intro: exI [of _ "t_documents db1"])
  show "\<exists>e. t_events db' = t_events db @ [e] \<and> stored_event c seq event = Inr e"
    and "t_members db' = t_members db \<and> t_users db' = t_users db \<and> t_sessions db' = t_sessions db \<and>
      t_invites db' = t_invites db \<and> t_assets db' = t_assets db"
    using 1 2 by auto
  show "k \<noteq> (wid, did) \<Longrightarrow> row_get doc_key k (t_documents db') = row_get doc_key k (t_documents db)"
    using get_after_patch [OF assms(2), of k] 1(2) by simp
qed

lemma per_user_frame:
  assumes "collect_res (user_frame s kind seq) views = Inr perUser" and "map_of (map_from perUser) uid = Some f"
  obtains v encoded where "(uid, v) \<in> set views" and "marshal_view (viewOf v seq) = Inr encoded"
    and "f = event_frame seq kind (ss_worldID s) [] encoded"
proof -
  have "(uid, f) \<in> set perUser"
    using assms(2) map_of_SomeD [of "rev perUser"] by (simp add: map_of_from)
  then obtain u v where "(u, v) \<in> set views" "user_frame s kind seq (u, v) = Inr (Some (uid, f))"
    using collect_res_set [OF assms(1)] by auto
  then show ?thesis by (auto simp: user_frame_def res_simps intro: that)
qed

lemma filtered_view:
  assumes "db_ok db" and "ProjectForMembers c db policy doc = Inr projected"
    and "sight_Filter c db wid doc projected = Inr views" and "(uid, v) \<in> set views"
  obtains m grant d where "row_get member_key (d_WorldID doc, uid) (t_members db) = Some m" and "Valid (m_Role m)"
    and "resolver_Grant c db \<lparr>sub_UserID = uid, sub_Role = m_Role m\<rparr> doc = Inr grant"
    and "RedactDocument doc \<lparr>sub_UserID = uid, sub_Role = m_Role m\<rparr> grant policy = Inr (Some d)"
    and "v = \<lparr>v_Subject = \<lparr>sub_UserID = uid, sub_Role = m_Role m\<rparr>, v_Grant = grant, v_Document = d\<rparr>"
    and "CanSee c db \<lparr>sub_UserID = uid, sub_Role = m_Role m\<rparr> wid doc = Inr True"
proof -
  have gomap: "is_gomap projected" using assms(2) by (auto simp: ProjectForMembers_def res_simps)
  have "(uid, v) \<in> set projected" and see: "CanSee c db (v_Subject v) wid doc = Inr True"
    using assms(4) Filter_eq [OF assms(3)] by auto
  then have "map_of projected uid = Some v"
    using is_gomap_distinct [OF gomap] by simp
  then show ?thesis using that see
    unfolding ProjectForMembers_lookup [OF assms(1,2)] project_member_Some by auto
qed

section \<open>The properties of patches\<close>



section \<open>Witnesses\<close>

definition sample_gm :: Session where
  "sample_gm = (sample_session ''s1'' ''g'')\<lparr>ss_role := ''gm''\<rparr>"

definition sample_rename :: "IntentResult res \<times> DB \<times> Publication list" where
  "sample_rename = applyPatch sample_conn OpenPolicy sample_gm ''x'' (zero_patch\<lparr>p_Name := Some ''Inn''\<rparr>)
     ''document.patch'' (Inr RawNil) sample_members_db"

lemma sample_rename_sent:
  obtains r db' p f where "sample_rename = (r, db', [p])" and "frame_for p ''s1'' sample_gm = Some f"
proof -
  have "case sample_rename of (r, db', [p]) \<Rightarrow> frame_for p ''s1'' sample_gm \<noteq> None | _ \<Rightarrow> False"
    by code_simp
  then show ?thesis using that by (auto split: prod.splits list.splits)
qed



section \<open>A move onto a wall\<close>

text \<open>
  A player moves the own token onto a wall.  The move is stored and published, but as nobody
  sees a token on a wall, not even its owner, the reply is that the move was forbidden.
\<close>

definition json_put :: "json \<Rightarrow> string list \<Rightarrow> json \<Rightarrow> json" where
  "json_put d path v = (case (d, path) of (JObj m, [k]) \<Rightarrow> JObj (map_put k v m) | _ \<Rightarrow> d)"

definition sample_json_conn :: Conn where
  "sample_json_conn = sample_conn\<lparr>c_json_set := json_put\<rparr>"

definition sample_move :: Intent where
  "sample_move = \<lparr>it_RequestID = 1, it_Kind = ''scene.token.move'', it_WorldID = ''w'', it_Payload =
     RawJson (JObj [(''tokenId'', JStr ''hero''), (''x'', JInt 1), (''y'', JInt 1)])\<rparr>"

theorem stored_move_reported_forbidden:
  "case handleTokenMove sample_json_conn OpenPolicy ((sample_session ''s2'' ''p'')\<lparr>ss_role := ''player''\<rparr>)
      sample_move sample_scene_db of
     (r, db', pubs) \<Rightarrow> r = Inl forbidden \<and> length (t_events db') = 3 \<and> length pubs = 1"
  by code_simp

end
