(* ===== verification/Ratelimit.thy ===== *)
theory Ratelimit
  imports Prelude
begin

text \<open>
  The login limiter (\<open>internal/core/auth/ratelimit.go\<close>).  Each method runs under the limiter's
  mutex; what the clock shows is an argument.
\<close>

record Limits =
  lm_Burst :: int
  lm_Window :: duration
  lm_Lockout :: duration
  lm_MaxTracked :: int

definition DefaultLimits :: Limits where
  "DefaultLimits = \<lparr>lm_Burst = 8, lm_Window = 5 * minute, lm_Lockout = 15 * minute, lm_MaxTracked = 10000\<rparr>"

record attempt =
  at_failures :: int
  at_firstSeen :: time
  at_lockedTil :: time

record Limiter =
  li_limits :: Limits
  li_attempts :: "attempt gomap"

definition NewLimiter :: "Limits \<Rightarrow> Limiter" where
  "NewLimiter limits =
     \<lparr>li_limits = (if lm_Burst limits \<le> 0 then DefaultLimits else limits), li_attempts = []\<rparr>"

definition keysFor :: "string \<Rightarrow> string \<Rightarrow> string list" where
  "keysFor username remoteAddr =
     (if username \<noteq> [] then [''user:'' @ username] else []) @
     (if remoteAddr \<noteq> [] then [''addr:'' @ remoteAddr] else [])"

definition window_over :: "Limits \<Rightarrow> time \<Rightarrow> attempt \<Rightarrow> bool" where
  "window_over limits now entry \<longleftrightarrow> time_sub now (at_firstSeen entry) > lm_Window limits"

fun allow_keys :: "time \<Rightarrow> string list \<Rightarrow> Limiter \<Rightarrow> bool \<times> Limiter" where
  "allow_keys now [] l = (True, l)"
| "allow_keys now (key # keys) l =
     (case map_of (li_attempts l) key of
        None \<Rightarrow> allow_keys now keys l
      | Some entry \<Rightarrow>
          if now < at_lockedTil entry then (False, l)
          else if window_over (li_limits l) now entry
          then allow_keys now keys (l\<lparr>li_attempts := map_del key (li_attempts l)\<rparr>)
          else allow_keys now keys l)"

definition limiter_Allow :: "time \<Rightarrow> string \<Rightarrow> string \<Rightarrow> Limiter \<Rightarrow> bool \<times> Limiter" where
  "limiter_Allow now username remoteAddr l = allow_keys now (keysFor username remoteAddr) l"

definition limiter_sweep :: "time \<Rightarrow> Limiter \<Rightarrow> Limiter" where
  "limiter_sweep now l =
     (if int (length (li_attempts l)) < lm_MaxTracked (li_limits l) then l
      else l\<lparr>li_attempts := map_keep (\<lambda>key entry.
        \<not> (now > at_lockedTil entry \<and> window_over (li_limits l) now entry)) (li_attempts l)\<rparr>)"

definition fail_entry :: "Limits \<Rightarrow> time \<Rightarrow> attempt option \<Rightarrow> attempt" where
  "fail_entry limits now present =
     (let fresh = \<lparr>at_failures = 0, at_firstSeen = now, at_lockedTil = 0\<rparr>;
          entry = (case present of None \<Rightarrow> fresh | Some e \<Rightarrow> if window_over limits now e then fresh else e);
          entry = entry\<lparr>at_failures := at_failures entry + 1\<rparr>
      in if at_failures entry \<ge> lm_Burst limits then entry\<lparr>at_lockedTil := now + lm_Lockout limits\<rparr> else entry)"

fun fail_keys :: "time \<Rightarrow> string list \<Rightarrow> Limiter \<Rightarrow> Limiter" where
  "fail_keys now [] l = l"
| "fail_keys now (key # keys) l =
     fail_keys now keys (l\<lparr>li_attempts :=
       map_put key (fail_entry (li_limits l) now (map_of (li_attempts l) key)) (li_attempts l)\<rparr>)"

definition limiter_Fail :: "time \<Rightarrow> string \<Rightarrow> string \<Rightarrow> Limiter \<Rightarrow> Limiter" where
  "limiter_Fail now username remoteAddr l = fail_keys now (keysFor username remoteAddr) (limiter_sweep now l)"

definition limiter_Succeed :: "string \<Rightarrow> string \<Rightarrow> Limiter \<Rightarrow> Limiter" where
  "limiter_Succeed username remoteAddr l =
     l\<lparr>li_attempts := fold map_del (keysFor username remoteAddr) (li_attempts l)\<rparr>"

definition Tracked :: "Limiter \<Rightarrow> nat" where
  "Tracked l = length (li_attempts l)"

section \<open>Attempts in a row\<close>

text \<open>
  One login as \<open>Service.Login\<close> makes it: a refused attempt stops there; an allowed one ends in
  \<open>Fail\<close> or \<open>Succeed\<close>.
\<close>

record trial =
  try_user :: string
  try_addr :: string
  try_time :: time
  try_good :: bool

definition try_keys :: "trial \<Rightarrow> string list" where
  "try_keys t = keysFor (try_user t) (try_addr t)"

definition login_try :: "trial \<Rightarrow> Limiter \<Rightarrow> bool \<times> Limiter" where
  "login_try t l =
     (case limiter_Allow (try_time t) (try_user t) (try_addr t) l of
        (False, l) \<Rightarrow> (False, l)
      | (True, l) \<Rightarrow>
          (True, if try_good t then limiter_Succeed (try_user t) (try_addr t) l
                 else limiter_Fail (try_time t) (try_user t) (try_addr t) l))"

fun login_tries :: "trial list \<Rightarrow> Limiter \<Rightarrow> bool list \<times> Limiter" where
  "login_tries [] l = ([], l)"
| "login_tries (t # ts) l =
     (case login_try t l of (b, l) \<Rightarrow> (case login_tries ts l of (bs, l) \<Rightarrow> (b # bs, l)))"

definition entry_of :: "Limiter \<Rightarrow> string \<Rightarrow> attempt option" where
  "entry_of l key = map_of (li_attempts l) key"

definition limiter_ok :: "Limiter \<Rightarrow> bool" where
  "limiter_ok l \<longleftrightarrow> is_gomap (li_attempts l)"

lemma allow_limits [simp]: "li_limits (snd (allow_keys now keys l)) = li_limits l"
  by (induction now keys l rule: allow_keys.induct) (auto split: option.split)

lemma allow_ok: "limiter_ok l \<Longrightarrow> limiter_ok (snd (allow_keys now keys l))"
  by (induction now keys l rule: allow_keys.induct) (auto simp: limiter_ok_def split: option.split)

text \<open>Allowing removes the entry of a key only when it is not locked and its window is over.\<close>

lemma allow_entry:
  "entry_of l key = Some e \<Longrightarrow> now < at_lockedTil e \<or> \<not> window_over (li_limits l) now e \<Longrightarrow>
     entry_of (snd (allow_keys now keys l)) key = Some e"
proof (induction now keys l rule: allow_keys.induct)
  case (2 now k keys l)
  show ?case by (cases "k = key") (use 2 in \<open>auto simp: entry_of_def split: option.splits if_splits\<close>)
qed simp

lemma allow_none: "entry_of l key = None \<Longrightarrow> entry_of (snd (allow_keys now keys l)) key = None"
  by (induction now keys l rule: allow_keys.induct) (auto simp: entry_of_def split: option.split)

lemma allow_locked:
  "entry_of l key = Some e \<Longrightarrow> now < at_lockedTil e \<Longrightarrow> key \<in> set keys \<Longrightarrow> \<not> fst (allow_keys now keys l)"
proof (induction now keys l rule: allow_keys.induct)
  case (2 now k keys l)
  show ?case by (cases "k = key") (use 2 in \<open>auto simp: entry_of_def split: option.splits if_splits\<close>)
qed simp

lemma fail_keys_other: "key \<notin> set keys \<Longrightarrow> entry_of (fail_keys now keys l) key = entry_of l key"
  by (induction now keys l rule: fail_keys.induct) (auto simp: entry_of_def)

lemma fail_keys_limits [simp]: "li_limits (fail_keys now keys l) = li_limits l"
  by (induction now keys l rule: fail_keys.induct) auto

lemma fail_keys_ok: "limiter_ok l \<Longrightarrow> limiter_ok (fail_keys now keys l)"
  by (induction now keys l rule: fail_keys.induct) (auto simp: limiter_ok_def)

lemma fail_keys_entry:
  "key \<in> set keys \<Longrightarrow> distinct keys \<Longrightarrow>
     entry_of (fail_keys now keys l) key = Some (fail_entry (li_limits l) now (entry_of l key))"
proof (induction now keys l rule: fail_keys.induct)
  case (2 now k keys l)
  show ?case
  proof (cases "k = key")
    case True
    with 2 show ?thesis by (simp add: fail_keys_other) (simp add: entry_of_def)
  next
    case False
    with 2 show ?thesis by (simp add: entry_of_def)
  qed
qed simp

lemma sweep_limits [simp]: "li_limits (limiter_sweep now l) = li_limits l"
  by (simp add: limiter_sweep_def)

lemma sweep_ok: "limiter_ok l \<Longrightarrow> limiter_ok (limiter_sweep now l)"
  by (simp add: limiter_sweep_def limiter_ok_def)

lemma sweep_entry:
  "limiter_ok l \<Longrightarrow> entry_of l key = Some e \<Longrightarrow> now \<le> at_lockedTil e \<or> \<not> window_over (li_limits l) now e \<Longrightarrow>
     entry_of (limiter_sweep now l) key = Some e"
  by (auto simp: limiter_sweep_def entry_of_def limiter_ok_def map_of_keep)

lemma sweep_none: "limiter_ok l \<Longrightarrow> entry_of l key = None \<Longrightarrow> entry_of (limiter_sweep now l) key = None"
  by (auto simp: limiter_sweep_def entry_of_def limiter_ok_def map_of_keep)

lemma keysFor_distinct: "distinct (keysFor u a)"
  by (simp add: keysFor_def)

lemma succeed_entry:
  "entry_of (limiter_Succeed u a l) key = (if key \<in> set (keysFor u a) then None else entry_of l key)"
  by (auto simp: limiter_Succeed_def entry_of_def keysFor_def)

lemma succeed_ok: "limiter_ok l \<Longrightarrow> limiter_ok (limiter_Succeed u a l)"
  by (auto simp: limiter_Succeed_def limiter_ok_def keysFor_def)

lemma try_ok: "limiter_ok l \<Longrightarrow> limiter_ok (snd (login_try t l))"
  using allow_ok [of l "try_time t" "keysFor (try_user t) (try_addr t)"]
  by (auto simp: login_try_def limiter_Allow_def limiter_Fail_def succeed_ok fail_keys_ok sweep_ok
      split: prod.splits bool.splits)

lemma try_limits [simp]: "li_limits (snd (login_try t l)) = li_limits l"
  using allow_limits [of "try_time t" "keysFor (try_user t) (try_addr t)" l]
  by (auto simp: login_try_def limiter_Allow_def limiter_Fail_def limiter_Succeed_def
      simp del: allow_limits split: prod.splits bool.splits)

lemma try_keeps:
  assumes "limiter_ok l" and "entry_of l key = Some e" and "key \<notin> set (try_keys t)"
    and "try_time t < at_lockedTil e \<or> \<not> window_over (li_limits l) (try_time t) e"
  shows "entry_of (snd (login_try t l)) key = Some e"
proof -
  let ?l = "snd (allow_keys (try_time t) (try_keys t) l)"
  have e: "entry_of ?l key = Some e" using allow_entry [OF assms(2,4)] .
  have ok: "limiter_ok ?l" using allow_ok [OF assms(1)] .
  have "entry_of (limiter_sweep (try_time t) ?l) key = Some e"
    by (rule sweep_entry [OF ok e]) (use assms(4) in auto)
  then show ?thesis using e assms(3)
    by (auto simp: login_try_def limiter_Allow_def limiter_Fail_def try_keys_def succeed_entry fail_keys_other
        split: prod.splits bool.splits)
qed

text \<open>A locked key stays locked, and every attempt that uses it is refused.\<close>

lemma try_locked:
  assumes "limiter_ok l" and "entry_of l key = Some e" and "try_time t < at_lockedTil e"
  shows "entry_of (snd (login_try t l)) key = Some e \<and> (key \<in> set (try_keys t) \<longrightarrow> \<not> fst (login_try t l))"
proof (cases "key \<in> set (try_keys t)")
  case True
  then have "\<not> fst (allow_keys (try_time t) (try_keys t) l)"
    using allow_locked [OF assms(2,3)] by blast
  then show ?thesis using allow_entry [OF assms(2) disjI1 [OF assms(3)], of "try_keys t"]
    by (auto simp: login_try_def limiter_Allow_def try_keys_def split: prod.splits bool.splits)
qed (use try_keeps [OF assms(1,2)] assms(3) in auto)

lemma tries_locked:
  assumes "limiter_ok l" and "entry_of l key = Some e" and "\<forall>t \<in> set ts. try_time t < at_lockedTil e"
  shows "\<forall>(t, b) \<in> set (zip ts (fst (login_tries ts l))). key \<in> set (try_keys t) \<longrightarrow> \<not> b"
  using assms
proof (induction ts arbitrary: l)
  case (Cons t ts)
  obtain b l1 where t: "login_try t l = (b, l1)" by fastforce
  obtain bs l2 where ts: "login_tries ts l1 = (bs, l2)" by fastforce
  from try_locked [OF Cons.prems(1,2), of t] Cons.prems(3) t
  have "entry_of l1 key = Some e" "key \<in> set (try_keys t) \<longrightarrow> \<not> b" by auto
  moreover have "limiter_ok l1" using try_ok [OF Cons.prems(1), of t] t by simp
  ultimately show ?case using Cons.IH [of l1] Cons.prems(3) t ts by auto
qed simp

section \<open>How many guesses\<close>

text \<open>
  While all attempts fall into one window, the entry of a key counts the failures since it
  was made: below the burst it is open, at the burst it is locked past the window.
\<close>

definition counting :: "Limits \<Rightarrow> time \<Rightarrow> nat \<Rightarrow> attempt option \<Rightarrow> bool" where
  "counting limits start n entry =
     (case entry of
        None \<Rightarrow> n = 0
      | Some e \<Rightarrow> int n = at_failures e \<and> start \<le> at_firstSeen e \<and> at_firstSeen e \<le> start + lm_Window limits \<and>
          (if int n < lm_Burst limits then True
           else int n = lm_Burst limits \<and> start + lm_Lockout limits \<le> at_lockedTil e))"

definition in_window :: "Limits \<Rightarrow> time \<Rightarrow> trial \<Rightarrow> bool" where
  "in_window limits start t \<longleftrightarrow> start \<le> try_time t \<and> try_time t \<le> start + lm_Window limits"

definition sane :: "Limits \<Rightarrow> bool" where
  "sane limits \<longleftrightarrow> 0 < lm_Burst limits \<and> 0 \<le> lm_Window limits \<and> lm_Window limits < lm_Lockout limits \<and>
     lm_Window limits \<le> max_int64"

lemma window_open:
  "sane limits \<Longrightarrow> in_window limits start t \<Longrightarrow> start \<le> at_firstSeen e \<Longrightarrow> \<not> window_over limits (try_time t) e"
  by (auto simp: window_over_def time_sub_def in_window_def sane_def min_int64_def)

lemma counting_open:
  assumes "sane limits" "in_window limits start t" "counting limits start n (Some e)"
  shows "\<not> window_over limits (try_time t) e" "int n < lm_Burst limits \<or> try_time t < at_lockedTil e"
  using window_open [OF assms(1,2), of e] assms by (auto simp: counting_def in_window_def sane_def split: if_splits)

lemma counting_fail:
  assumes "sane limits" "in_window limits start t" "counting limits start n entry" "int n < lm_Burst limits"
  shows "counting limits start (Suc n) (Some (fail_entry limits (try_time t) entry))"
  using assms counting_open(1) [OF assms(1,2), of n]
  by (cases entry) (auto simp: counting_def fail_entry_def Let_def in_window_def sane_def)

lemma counting_bound: "counting limits start n entry \<Longrightarrow> 0 < lm_Burst limits \<Longrightarrow> int n \<le> lm_Burst limits"
  by (auto simp: counting_def split: option.splits if_splits)

lemma allow_same:
  assumes "sane (li_limits l)" "in_window (li_limits l) start t" "counting (li_limits l) start n (entry_of l key)"
  shows "entry_of (snd (allow_keys (try_time t) keys l)) key = entry_of l key"
proof (cases "entry_of l key")
  case (Some e)
  then show ?thesis using allow_entry [OF Some] counting_open(1) [OF assms(1,2)] assms(3) by simp
qed (simp add: allow_none)

lemma sweep_same:
  assumes "limiter_ok l" "sane (li_limits l)" "in_window (li_limits l) start t"
    "counting (li_limits l) start n (entry_of l key)"
  shows "entry_of (limiter_sweep (try_time t) l) key = entry_of l key"
proof (cases "entry_of l key")
  case (Some e)
  then show ?thesis using sweep_entry [OF assms(1) Some] counting_open(1) [OF assms(2,3)] assms(4) by simp
qed (simp add: sweep_none assms(1))

lemma try_counting:
  assumes "limiter_ok l" "sane (li_limits l)" "in_window (li_limits l) start t"
    and "counting (li_limits l) start n (entry_of l key)" and "key \<in> set (try_keys t) \<Longrightarrow> \<not> try_good t"
  shows "counting (li_limits l) start (if key \<in> set (try_keys t) \<and> fst (login_try t l) then Suc n else n)
    (entry_of (snd (login_try t l)) key)"
proof -
  let ?l = "snd (allow_keys (try_time t) (try_keys t) l)"
  have same: "entry_of ?l key = entry_of l key" by (rule allow_same [OF assms(2-4)])
  have sweep: "entry_of (limiter_sweep (try_time t) ?l) key = entry_of l key"
    using sweep_same [of ?l start t n key] allow_ok [OF assms(1)] assms(2-4) same by simp
  show ?thesis
  proof (cases "fst (login_try t l)")
    case False
    then have "snd (login_try t l) = ?l"
      by (auto simp: login_try_def limiter_Allow_def try_keys_def split: prod.splits bool.splits)
    with False same assms(4) show ?thesis by simp
  next
    case True
    then have step: "snd (login_try t l) = (if try_good t then limiter_Succeed (try_user t) (try_addr t) ?l
        else fail_keys (try_time t) (try_keys t) (limiter_sweep (try_time t) ?l))"
      by (auto simp: login_try_def limiter_Allow_def limiter_Fail_def try_keys_def split: prod.splits bool.splits)
    show ?thesis
    proof (cases "key \<in> set (try_keys t)")
      case False
      then have "entry_of (snd (login_try t l)) key = entry_of l key"
        using step same sweep by (simp add: succeed_entry fail_keys_other try_keys_def)
      with False assms(4) show ?thesis by simp
    next
      case key: True
      have "int n < lm_Burst (li_limits l)"
      proof (cases "entry_of l key")
        case (Some e)
        then show ?thesis using counting_open(2) [OF assms(2,3)] assms(4) try_locked [OF assms(1) Some, of t] key True
          by auto
      qed (use assms(2,4) in \<open>simp add: counting_def sane_def\<close>)
      moreover have "entry_of (snd (login_try t l)) key =
          Some (fail_entry (li_limits l) (try_time t) (entry_of l key))"
        using step assms(5) [OF key] key sweep by (simp add: fail_keys_entry keysFor_distinct try_keys_def)
      ultimately show ?thesis using counting_fail [OF assms(2-4)] True key by simp
    qed
  qed
qed

definition guesses :: "string \<Rightarrow> trial list \<Rightarrow> bool list \<Rightarrow> nat" where
  "guesses key ts bs = length (filter (\<lambda>(t, b). key \<in> set (try_keys t) \<and> b) (zip ts bs))"

lemma tries_counting:
  assumes "limiter_ok l" "sane (li_limits l)" "\<forall>t \<in> set ts. in_window (li_limits l) start t"
    and "counting (li_limits l) start n (entry_of l key)"
    and "\<forall>t \<in> set ts. key \<in> set (try_keys t) \<longrightarrow> \<not> try_good t"
  shows "counting (li_limits l) start (n + guesses key ts (fst (login_tries ts l)))
    (entry_of (snd (login_tries ts l)) key)"
  using assms
proof (induction ts arbitrary: l n)
  case (Cons t ts)
  obtain b l1 where t: "login_try t l = (b, l1)" by fastforce
  obtain bs l2 where ts: "login_tries ts l1 = (bs, l2)" by fastforce
  let ?n = "if key \<in> set (try_keys t) \<and> b then Suc n else n"
  have lim: "li_limits l1 = li_limits l" using try_limits [of t l] t by simp
  have "counting (li_limits l1) start ?n (entry_of l1 key)"
    using try_counting [OF Cons.prems(1,2) _ Cons.prems(4), of t] Cons.prems(3,5) t lim by simp
  then have "counting (li_limits l1) start (?n + guesses key ts bs) (entry_of l2 key)"
    using Cons.IH [of l1 ?n] try_ok [OF Cons.prems(1), of t] Cons.prems t ts lim by simp
  then show ?case by (cases "key \<in> set (try_keys t) \<and> b") (auto simp: t ts lim guesses_def)
qed (simp add: guesses_def)

section \<open>The properties of the limiter\<close>

text \<open>
  once a user name or an address is locked, every attempt with it before the end of the
  lockout is refused, whatever other attempts are made meanwhile.
\<close>

theorem lockout_holds:
  assumes "limiter_ok l" and "map_of (li_attempts l) key = Some e"
    and "\<forall>t \<in> set ts. try_time t < at_lockedTil e"
  shows "\<forall>(t, b) \<in> set (zip ts (fst (login_tries ts l))). key \<in> set (try_keys t) \<longrightarrow> \<not> b"
  by (rule tries_locked) (use assms in \<open>simp_all add: entry_of_def\<close>)

definition sample_locked :: Limiter where
  "sample_locked = \<lparr>li_limits = DefaultLimits, li_attempts =
     [(''user:eve'', \<lparr>at_failures = 8, at_firstSeen = 10, at_lockedTil = 100\<rparr>)]\<rparr>"

theorem lockout_holds_witness:
  "fst (login_tries [\<lparr>try_user = ''eve'', try_addr = ''a'', try_time = 20, try_good = True\<rparr>] sample_locked) = [False]"
proof -
  let ?t = "\<lparr>try_user = ''eve'', try_addr = ''a'', try_time = 20, try_good = True\<rparr>"
  obtain b where b: "fst (login_tries [?t] sample_locked) = [b]"
    by (cases "login_try ?t sample_locked") simp
  have "limiter_ok sample_locked" by (simp add: limiter_ok_def sample_locked_def is_gomap_def)
  then have "\<forall>(t, b) \<in> set (zip [?t] (fst (login_tries [?t] sample_locked))). ''user:eve'' \<in> set (try_keys t) \<longrightarrow> \<not> b"
    by (rule lockout_holds [where e = "\<lparr>at_failures = 8, at_firstSeen = 10, at_lockedTil = 100\<rparr>"])
       (simp_all add: sample_locked_def)
  then show ?thesis unfolding b by (simp add: try_keys_def keysFor_def)
qed



end
