(* ===== verification/Password.thy ===== *)
theory Password
  imports Encoding
begin

text \<open>
  Password hashes in PHC format (\<open>internal/core/auth/password.go\<close>).  \<open>argon2.IDKey\<close> is the
  parameter \<open>IDKey\<close> (password, salt, iterations, memory, parallelism, key length); the salt of a
  new hash is what \<open>rand.Read\<close> returned, \<open>None\<close> being an error.
\<close>

record HashParams =
  hp_Memory :: int
  hp_Iterations :: int
  hp_Parallelism :: int
  hp_SaltLength :: int
  hp_KeyLength :: int

type_synonym argon = "string \<Rightarrow> string \<Rightarrow> int \<Rightarrow> int \<Rightarrow> int \<Rightarrow> int \<Rightarrow> string"

datatype hash_error = ErrInvalidHash | ErrWrongAlgorithm

definition DefaultHashParams :: "int \<Rightarrow> HashParams" where
  "DefaultHashParams cores = \<lparr>hp_Memory = 19456, hp_Iterations = 2,
     hp_Parallelism = (if cores > 1 then 2 else 1), hp_SaltLength = 16, hp_KeyLength = 32\<rparr>"

text \<open>The version of the algorithm the argon2 package implements, 0x13.\<close>

definition argon2_Version :: int where "argon2_Version = 19"

definition decimal :: "int \<Rightarrow> string" where
  "decimal n = digits_of (nat n)"

definition HashPassword :: "argon \<Rightarrow> string option \<Rightarrow> string \<Rightarrow> HashParams \<Rightarrow> string res" where
  "HashPassword IDKey random password params =
     (case random of
        None \<Rightarrow> Inl ErrRandom
      | Some salt \<Rightarrow>
          let key = IDKey password salt (hp_Iterations params) (hp_Memory params) (hp_Parallelism params)
                (hp_KeyLength params)
          in Inr (''$argon2id$v='' @ decimal argon2_Version @ ''$m='' @ decimal (hp_Memory params) @
               '',t='' @ decimal (hp_Iterations params) @ '',p='' @ decimal (hp_Parallelism params) @
               ''$'' @ base64 b64_std salt @ ''$'' @ base64 b64_std key))"

section \<open>Scanning\<close>

text \<open>
  \<open>fmt.Sscanf\<close> for formats of literal text and \<open>%d\<close>: the literal must be next in the input;
  \<open>%d\<close> skips spaces (a line break is an error), then takes decimal digits, with a sign for a
  signed operand; the value must fit the operand.  Input after the format is ignored.
\<close>

fun skip_space :: "nat \<Rightarrow> string \<Rightarrow> string option" where
  "skip_space 0 s = Some s"
| "skip_space (Suc n) s =
     (if is_prefix [char_of (13 :: nat), char_of (10 :: nat)] s \<or> is_prefix [char_of (10 :: nat)] s then None
      else case strip_one space_codes s of None \<Rightarrow> Some s | Some t \<Rightarrow> skip_space n t)"

definition scan_literal :: "string \<Rightarrow> string \<Rightarrow> string option" where
  "scan_literal lit s = (if is_prefix lit s then Some (drop (length lit) s) else None)"

definition scan_uint :: "int \<Rightarrow> string \<Rightarrow> (int \<times> string) option" where
  "scan_uint limit s =
     (case skip_space (length s) s of
        None \<Rightarrow> None
      | Some s \<Rightarrow>
          let ds = takeWhile is_digit s; v = parse_digits ds
          in if ds = [] \<or> v \<ge> limit then None else Some (v, dropWhile is_digit s))"

definition scan_int :: "string \<Rightarrow> (int \<times> string) option" where
  "scan_int s =
     (case skip_space (length s) s of
        None \<Rightarrow> None
      | Some s \<Rightarrow>
          let (neg, s) = (case s of
                 [] \<Rightarrow> (False, s)
               | c # cs \<Rightarrow> if c = CHR ''-'' then (True, cs) else if c = CHR ''+'' then (False, cs) else (False, s));
              ds = takeWhile is_digit s;
              v = (if neg then - parse_digits ds else parse_digits ds)
          in if ds = [] \<or> v < min_int64 \<or> v > max_int64 then None else Some (v, dropWhile is_digit s))"

definition scan_version :: "string \<Rightarrow> int option" where
  "scan_version s = Option.bind (scan_literal ''v='' s) (\<lambda>s. map_option fst (scan_int s))"

definition scan_params :: "string \<Rightarrow> (int \<times> int \<times> int) option" where
  "scan_params s =
     Option.bind (scan_literal ''m='' s) (\<lambda>s.
     Option.bind (scan_uint (2 ^ 32) s) (\<lambda>(m, s).
     Option.bind (scan_literal '',t='' s) (\<lambda>s.
     Option.bind (scan_uint (2 ^ 32) s) (\<lambda>(t, s).
     Option.bind (scan_literal '',p='' s) (\<lambda>s.
     Option.bind (scan_uint (2 ^ 8) s) (\<lambda>(p, s). Some (m, t, p)))))))"

definition decodeHash :: "string \<Rightarrow> hash_error + (HashParams \<times> string \<times> string)" where
  "decodeHash encoded =
     (let parts = split_on CHR ''$'' encoded
      in if length parts \<noteq> 6 \<or> parts ! 0 \<noteq> [] then Inl ErrInvalidHash
         else if parts ! 1 \<noteq> ''argon2id'' then Inl ErrWrongAlgorithm
         else case scan_version (parts ! 2) of
             None \<Rightarrow> Inl ErrInvalidHash
           | Some version \<Rightarrow>
               if version \<noteq> argon2_Version then Inl ErrWrongAlgorithm
               else case scan_params (parts ! 3) of
                   None \<Rightarrow> Inl ErrInvalidHash
                 | Some (m, t, p) \<Rightarrow>
                     (case base64_decode b64_std (parts ! 4) of
                        None \<Rightarrow> Inl ErrInvalidHash
                      | Some salt \<Rightarrow>
                          (case base64_decode b64_std (parts ! 5) of
                             None \<Rightarrow> Inl ErrInvalidHash
                           | Some key \<Rightarrow>
                               Inr (\<lparr>hp_Memory = m, hp_Iterations = t, hp_Parallelism = p,
                                 hp_SaltLength = int (length salt) mod 2 ^ 32,
                                 hp_KeyLength = int (length key) mod 2 ^ 32\<rparr>, salt, key))))"

definition VerifyPassword :: "argon \<Rightarrow> string \<Rightarrow> string \<Rightarrow> hash_error + bool" where
  "VerifyPassword IDKey encoded password =
     bind_res (decodeHash encoded) (\<lambda>(params, salt, want).
     let got = IDKey password salt (hp_Iterations params) (hp_Memory params) (hp_Parallelism params)
           (hp_KeyLength params)
     in Inr (got = want))"

section \<open>The round trip\<close>

lemma digit_chars: "map char_of [48..<58 :: nat] = ''0123456789''"
  by code_simp

lemma is_digit_iff: "is_digit c \<longleftrightarrow> c \<in> set ''0123456789''"
proof
  assume "is_digit c"
  then have "(of_char c :: nat) \<in> set [48..<58]"
    by (simp only: is_digit_def less_eq_char_def set_upt atLeastLessThan_iff) simp
  then have "char_of (of_char c :: nat) \<in> set (map char_of [48..<58 :: nat])" by (simp only: set_map imageI)
  then show "c \<in> set ''0123456789''" by (simp only: digit_chars char_of_char)
qed (auto simp: is_digit_def less_eq_char_def)

lemma no_space_digit: "list_all (\<lambda>p. p \<noteq> [] \<and> hd p \<notin> set ''0123456789'') space_codes"
  by code_simp

lemma strip_one_digit: "is_digit c \<Longrightarrow> strip_one space_codes (c # s) = None"
proof -
  assume "is_digit c"
  then have "\<not> is_prefix p (c # s)" if "p \<in> set space_codes" for p
    using no_space_digit that by (cases p) (auto simp: list_all_iff is_digit_iff is_prefix_def)
  then have "find (\<lambda>p. is_prefix p (c # s)) space_codes = None" by (simp add: find_None_iff)
  then show ?thesis by (simp add: strip_one_def)
qed

lemma skip_space_digit: "is_digit c \<Longrightarrow> skip_space n (c # s) = Some (c # s)"
proof (cases n)
  case (Suc m)
  assume d: "is_digit c"
  then have "c \<noteq> char_of (13 :: nat)" "c \<noteq> char_of (10 :: nat)"
    by (auto simp: is_digit_def less_eq_char_def)
  with d Suc show ?thesis by (simp add: strip_one_digit is_prefix_def)
qed simp

lemma take_digits:
  assumes "\<not> is_digit d"
  shows "takeWhile is_digit (digits_of n @ d # s) = digits_of n" "dropWhile is_digit (digits_of n @ d # s) = d # s"
    and "takeWhile is_digit (digits_of n) = digits_of n" "dropWhile is_digit (digits_of n) = []"
  using assms digits_of_digits by (auto simp: takeWhile_append dropWhile_append takeWhile_eq_all_conv)

lemma skip_space_decimal: "skip_space k (digits_of n @ s) = Some (digits_of n @ s)"
proof (cases "digits_of n")
  case (Cons c cs)
  then have "is_digit c" using digits_of_digits [of c n] by simp
  then show ?thesis by (simp add: Cons skip_space_digit)
qed (simp add: digits_of_nonempty)

lemma scan_uint_decimal:
  assumes "0 \<le> v" "v < limit" "\<not> is_digit d"
  shows "scan_uint limit (decimal v @ d # s) = Some (v, d # s)" "scan_uint limit (decimal v) = Some (v, [])"
  using assms skip_space_decimal [of _ "nat v" "[]"]
  by (simp_all add: scan_uint_def decimal_def skip_space_decimal take_digits [OF assms(3)] parse_digits_of
      digits_of_nonempty Let_def)

lemma scan_literal_append [simp]: "scan_literal l (l @ s) = Some s"
  by (simp add: scan_literal_def is_prefix_def)

lemma scan_params_roundtrip:
  assumes "0 \<le> m" "m < 2 ^ 32" "0 \<le> t" "t < 2 ^ 32" "0 \<le> p" "p < 2 ^ 8"
  shows "scan_params (''m='' @ decimal m @ '',t='' @ decimal t @ '',p='' @ decimal p) = Some (m, t, p)"
proof -
  have nd: "\<not> is_digit CHR '',''" by (simp add: is_digit_def less_eq_char_def)
  note u = scan_uint_decimal [OF _ _ nd]
  show ?thesis
    using u(1) [OF assms(1,2), of "''t='' @ decimal t @ '',p='' @ decimal p"]
      u(1) [OF assms(3,4), of "''p='' @ decimal p"] u(2) [OF assms(5,6)]
      scan_literal_append [of "''m=''"] scan_literal_append [of "'',t=''"] scan_literal_append [of "'',p=''"]
    by (simp add: scan_params_def)
qed

lemma scan_version_own: "scan_version (''v='' @ decimal argon2_Version) = Some argon2_Version"
  by code_simp

lemma no_dollar:
  "CHR ''$'' \<notin> set (decimal n)" "CHR ''$'' \<notin> set (base64 b64_std s)"
proof -
  show "CHR ''$'' \<notin> set (decimal n)"
    by (auto simp: decimal_def is_digit_def less_eq_char_def dest!: digits_of_digits)
  have "length b64_std = 64" "CHR ''$'' \<notin> set b64_std" by (simp_all add: b64_std_def)
  then show "CHR ''$'' \<notin> set (base64 b64_std s)"
    using base64_letters by blast
qed

text \<open>What the parameters must satisfy for the format to hold them: they are unsigned integers.\<close>

definition params_ok :: "HashParams \<Rightarrow> bool" where
  "params_ok p \<longleftrightarrow> 0 \<le> hp_Memory p \<and> hp_Memory p < 2 ^ 32 \<and> 0 \<le> hp_Iterations p \<and> hp_Iterations p < 2 ^ 32 \<and>
     0 \<le> hp_Parallelism p \<and> hp_Parallelism p < 2 ^ 8 \<and> 0 \<le> hp_KeyLength p \<and> hp_KeyLength p < 2 ^ 32"

lemma decode_hashed:
  assumes "params_ok params"
  shows "decodeHash (''$argon2id$v='' @ decimal argon2_Version @ ''$m='' @ decimal (hp_Memory params) @
      '',t='' @ decimal (hp_Iterations params) @ '',p='' @ decimal (hp_Parallelism params) @
      ''$'' @ base64 b64_std salt @ ''$'' @ base64 b64_std key) =
    Inr (\<lparr>hp_Memory = hp_Memory params, hp_Iterations = hp_Iterations params,
      hp_Parallelism = hp_Parallelism params, hp_SaltLength = int (length salt) mod 2 ^ 32,
      hp_KeyLength = int (length key) mod 2 ^ 32\<rparr>, salt, key)"
proof -
  let ?ps = "''m='' @ decimal (hp_Memory params) @ '',t='' @ decimal (hp_Iterations params) @ '',p='' @
    decimal (hp_Parallelism params)"
  have "split_on CHR ''$'' (join_with ''$'' [[], ''argon2id'', ''v='' @ decimal argon2_Version, ?ps,
      base64 b64_std salt, base64 b64_std key]) =
    [[], ''argon2id'', ''v='' @ decimal argon2_Version, ?ps, base64 b64_std salt, base64 b64_std key]"
    by (rule split_join) (use no_dollar in auto)
  then show ?thesis
    using assms scan_params_roundtrip [of "hp_Memory params" "hp_Iterations params" "hp_Parallelism params"]
      scan_version_own base64_roundtrip [OF alphabets_ok(2)]
    by (simp add: decodeHash_def params_ok_def)
qed

text \<open>
  checking a password against the hash of a password succeeds exactly when \<open>argon2.IDKey\<close>
  maps both to the same key with the stored salt and parameters; in particular the password
  that was hashed is accepted.  \<open>IDKey\<close> returns as many bytes as it is asked for.
\<close>

theorem verify_hashed:
  assumes "HashPassword IDKey (Some salt) password params = Inr encoded" and "params_ok params"
    and "\<And>p s i m l n. 0 \<le> n \<Longrightarrow> length (IDKey p s i m l n) = nat n"
  shows "VerifyPassword IDKey encoded attempt = Inr
    (IDKey attempt salt (hp_Iterations params) (hp_Memory params) (hp_Parallelism params) (hp_KeyLength params) =
     IDKey password salt (hp_Iterations params) (hp_Memory params) (hp_Parallelism params) (hp_KeyLength params))"
proof -
  let ?key = "IDKey password salt (hp_Iterations params) (hp_Memory params) (hp_Parallelism params) (hp_KeyLength params)"
  have "int (length ?key) mod 2 ^ 32 = hp_KeyLength params"
    using assms(2) assms(3) [of "hp_KeyLength params"] by (simp add: params_ok_def)
  moreover have "encoded = ''$argon2id$v='' @ decimal argon2_Version @ ''$m='' @ decimal (hp_Memory params) @
      '',t='' @ decimal (hp_Iterations params) @ '',p='' @ decimal (hp_Parallelism params) @
      ''$'' @ base64 b64_std salt @ ''$'' @ base64 b64_std ?key"
    using assms(1) by (simp add: HashPassword_def Let_def)
  ultimately show ?thesis
    using decode_hashed [OF assms(2), of salt ?key] by (simp add: VerifyPassword_def Let_def)
qed

definition sample_argon :: argon where
  "sample_argon p s i m l n = take (nat n) (p @ replicate (nat n) CHR ''x'')"

theorem verify_hashed_witness:
  "\<exists>encoded. HashPassword sample_argon (Some ''salt'') ''secret'' (DefaultHashParams 1) = Inr encoded \<and>
     VerifyPassword sample_argon encoded ''secret'' = Inr True"
proof -
  obtain encoded where e: "HashPassword sample_argon (Some ''salt'') ''secret'' (DefaultHashParams 1) = Inr encoded"
    by (simp add: HashPassword_def Let_def)
  have "params_ok (DefaultHashParams 1)" by (simp add: params_ok_def DefaultHashParams_def)
  moreover have "length (sample_argon p s i m l n) = nat n" for p s i m l n by (simp add: sample_argon_def)
  ultimately show ?thesis using verify_hashed [OF e, of "''secret''"] e by simp
qed

end
