(* ===== verification/AuthService.thy ===== *)
theory AuthService
  imports Access Ratelimit Password
begin

text \<open>
  Accounts and login sessions (\<open>internal/core/auth/service.go\<close>).  \<open>Auth\<close> holds what the service
  was built with and what the environment supplies: the argon2 and SHA-256 functions and the
  Unicode case table.  Random bytes and clock readings are arguments of the calls that need
  them.  The service's store is the connection and the database.
\<close>

definition DefaultSessionTTL :: duration where "DefaultSessionTTL = 30 * 24 * hour"
definition tokenBytes :: nat where "tokenBytes = 32"
definition MinPasswordLength :: nat where "MinPasswordLength = 10"

record Auth =
  au_params :: HashParams
  au_sessionTTL :: duration
  au_IDKey :: argon
  au_sha256 :: "string \<Rightarrow> string"
  au_ulower :: "string \<Rightarrow> string"

definition NewService :: "int \<Rightarrow> HashParams \<Rightarrow> duration \<Rightarrow> argon \<Rightarrow> (string \<Rightarrow> string) \<Rightarrow> (string \<Rightarrow> string) \<Rightarrow> Auth" where
  "NewService cores params ttl IDKey sha256 ulower =
     \<lparr>au_params = (if hp_Memory params = 0 then DefaultHashParams cores else params),
      au_sessionTTL = (if ttl \<le> 0 then DefaultSessionTTL else ttl),
      au_IDKey = IDKey, au_sha256 = sha256, au_ulower = ulower\<rparr>"

definition NormaliseUsername :: "Auth \<Rightarrow> string \<Rightarrow> string" where
  "NormaliseUsername a raw = to_lower (au_ulower a) (trim_space raw)"

definition HashToken :: "Auth \<Rightarrow> string \<Rightarrow> string" where
  "HashToken a token = hex_encode (au_sha256 a token)"

definition newToken :: "string option \<Rightarrow> string res" where
  "newToken random = (case random of None \<Rightarrow> Inl ErrRandom | Some raw \<Rightarrow> Inr (base64_url raw))"

definition randomID :: "string \<Rightarrow> string" where
  "randomID raw = base32_lower raw"

definition GenerateID :: "string \<Rightarrow> string \<Rightarrow> ID" where
  "GenerateID prefix raw = prefix @ ''-'' @ randomID raw"

definition truncate_to :: "string \<Rightarrow> nat \<Rightarrow> string" where
  "truncate_to value limit = (if length value \<le> limit then value else take limit value)"

section \<open>Accounts\<close>

definition insertUser :: "Conn \<Rightarrow> User \<Rightarrow> DB \<Rightarrow> DB res" where
  "insertUser c user db =
     (case GetUserByUsername c db (u_Username user) of
        Inr _ \<Rightarrow> Inl ErrUsernameTaken
      | Inl e \<Rightarrow>
          if e \<noteq> ErrNotFound then Inl e
          else (case PutUser c user db of
              Inl e \<Rightarrow> if e = ErrAlreadyExists then Inl ErrUsernameTaken else Inl e
            | Inr db \<Rightarrow> Inr db))"

definition new_user :: "Auth \<Rightarrow> string \<Rightarrow> time \<Rightarrow> string \<Rightarrow> string \<Rightarrow> bool \<Rightarrow> User" where
  "new_user a id_random now username hash admin =
     \<lparr>u_ID = ''user-'' @ randomID id_random, u_Username = username, u_Email = [], u_PasswordHash = hash,
      u_Locale = [], u_IsAdmin = admin, u_CreatedAt = now, u_DisabledAt = None\<rparr>"

definition CreateUser ::
  "Auth \<Rightarrow> Conn \<Rightarrow> string option \<Rightarrow> string \<Rightarrow> time \<Rightarrow> string \<Rightarrow> string \<Rightarrow> bool \<Rightarrow> DB \<Rightarrow> User res \<times> DB" where
  "CreateUser a c salt id_random now username password admin db =
     (let username = NormaliseUsername a username
      in if username = [] then (Inl ErrInvalidCredentials, db)
         else if length password < MinPasswordLength then (Inl ErrWeakPassword, db)
         else case HashPassword (au_IDKey a) salt password (au_params a) of
             Inl e \<Rightarrow> (Inl e, db)
           | Inr hash \<Rightarrow>
               let user = new_user a id_random now username hash admin
               in store_Tx c (\<lambda>c db. bind_res (insertUser c user db) (\<lambda>db. Inr (user, db))) db)"

definition BuildUser ::
  "Auth \<Rightarrow> string option \<Rightarrow> string \<Rightarrow> time \<Rightarrow> string \<Rightarrow> string \<Rightarrow> bool \<Rightarrow> User res" where
  "BuildUser a salt id_random now username password admin =
     (let username = NormaliseUsername a username
      in if username = [] then Inl ErrInvalidCredentials
         else if password = [] then Inr (new_user a id_random now username [] admin)
         else if length password < MinPasswordLength then Inl ErrWeakPassword
         else bind_res (HashPassword (au_IDKey a) salt password (au_params a)) (\<lambda>hash.
           Inr (new_user a id_random now username hash admin)))"

definition new_session :: "Auth \<Rightarrow> string \<Rightarrow> time \<Rightarrow> ID \<Rightarrow> string \<Rightarrow> UserSession" where
  "new_session a token now uid userAgent =
     \<lparr>s_TokenHash = HashToken a token, s_UserID = uid, s_CreatedAt = now,
      s_ExpiresAt = now + au_sessionTTL a, s_LastSeenAt = now, s_UserAgent = truncate_to userAgent 256\<rparr>"

definition IssueSession ::
  "Auth \<Rightarrow> Conn \<Rightarrow> string option \<Rightarrow> time \<Rightarrow> ID \<Rightarrow> string \<Rightarrow> DB \<Rightarrow> ((string \<times> time) \<times> DB) res" where
  "IssueSession a c random now uid userAgent db =
     bind_res (newToken random) (\<lambda>token.
     bind_res (PutUserSession c (new_session a token now uid userAgent) db) (\<lambda>db.
     Inr ((token, now + au_sessionTTL a), db)))"

section \<open>Sessions\<close>

record LoginResult =
  lr_User :: User
  lr_Token :: string
  lr_ExpiresAt :: time

text \<open>The password check of a login, \<open>None\<close> standing for every way of not matching.\<close>

definition checked_user :: "Auth \<Rightarrow> Conn \<Rightarrow> DB \<Rightarrow> string \<Rightarrow> string \<Rightarrow> User option" where
  "checked_user a c db username password =
     (case store_ReadOnly c (\<lambda>c db. GetUserByUsername c db username) db of
        Inl _ \<Rightarrow> None
      | Inr user \<Rightarrow>
          if Disabled user \<or> u_PasswordHash user = [] then None
          else if VerifyPassword (au_IDKey a) (u_PasswordHash user) password = Inr True then Some user
          else None)"

record login_env =
  le_allow_now :: time
  le_fail_now :: time
  le_now :: time
  le_random :: "string option"

definition Login ::
  "Auth \<Rightarrow> Conn \<Rightarrow> login_env \<Rightarrow> string \<Rightarrow> string \<Rightarrow> string \<Rightarrow> string \<Rightarrow> Limiter \<times> DB \<Rightarrow>
     LoginResult res \<times> Limiter \<times> DB" where
  "Login a c env username password remoteAddr userAgent = (\<lambda>(l, db).
     let username = NormaliseUsername a username
     in case limiter_Allow (le_allow_now env) username remoteAddr l of
          (False, l) \<Rightarrow> (Inl ErrRateLimited, l, db)
        | (True, l) \<Rightarrow>
            (case checked_user a c db username password of
               None \<Rightarrow> (Inl ErrInvalidCredentials, limiter_Fail (le_fail_now env) username remoteAddr l, db)
             | Some user \<Rightarrow>
                 let l = limiter_Succeed username remoteAddr l
                 in case newToken (le_random env) of
                      Inl e \<Rightarrow> (Inl e, l, db)
                    | Inr token \<Rightarrow>
                        let session = new_session a token (le_now env) (u_ID user) userAgent;
                            (r, db) = store_Tx c (\<lambda>c db. bind_res (PutUserSession c session db) (\<lambda>db. Inr ((), db))) db
                        in (bind_res r (\<lambda>_. Inr \<lparr>lr_User = user, lr_Token = token, lr_ExpiresAt = s_ExpiresAt session\<rparr>),
                            l, db)))"

definition Logout :: "Auth \<Rightarrow> Conn \<Rightarrow> string \<Rightarrow> DB \<Rightarrow> unit res \<times> DB" where
  "Logout a c token db =
     (if token = [] then (Inr (), db)
      else store_Tx c (\<lambda>c db. bind_res (DeleteUserSession c (HashToken a token) db) (\<lambda>db. Inr ((), db))) db)"

definition LogoutEverywhere :: "Conn \<Rightarrow> ID \<Rightarrow> DB \<Rightarrow> unit res \<times> DB" where
  "LogoutEverywhere c uid db =
     store_Tx c (\<lambda>c db. bind_res (DeleteUserSessionsOf c uid db) (\<lambda>db. Inr ((), db))) db"

definition Authenticate :: "Auth \<Rightarrow> Conn \<Rightarrow> time \<Rightarrow> string \<Rightarrow> DB \<Rightarrow> User res \<times> DB" where
  "Authenticate a c now token db =
     (if token = [] then (Inl ErrInvalidCredentials, db)
      else case store_ReadOnly c (\<lambda>c db. bind_res (GetUserSession c db (HashToken a token)) (\<lambda>session.
             bind_res (GetUser c db (s_UserID session)) (\<lambda>user. Inr (session, user)))) db of
          Inl e \<Rightarrow> (if e = ErrNotFound then Inl ErrInvalidCredentials else Inl e, db)
        | Inr (session, user) \<Rightarrow>
            if now > s_ExpiresAt session then (Inl ErrSessionExpired, snd (Logout a c token db))
            else if Disabled user then (Inl ErrInvalidCredentials, db)
            else (Inr user, db))"

definition SetPassword :: "Auth \<Rightarrow> Conn \<Rightarrow> string option \<Rightarrow> ID \<Rightarrow> string \<Rightarrow> DB \<Rightarrow> unit res \<times> DB" where
  "SetPassword a c salt uid password db =
     (if length password < MinPasswordLength then (Inl ErrWeakPassword, db)
      else case HashPassword (au_IDKey a) salt password (au_params a) of
          Inl e \<Rightarrow> (Inl e, db)
        | Inr hash \<Rightarrow>
            store_Tx c (\<lambda>c db.
              bind_res (GetUser c db uid) (\<lambda>user.
              bind_res (PutUser c (user\<lparr>u_PasswordHash := hash\<rparr>) db) (\<lambda>db.
              bind_res (DeleteUserSessionsOf c uid db) (\<lambda>db. Inr ((), db))))) db)"

definition NeedsSetup :: "Conn \<Rightarrow> DB \<Rightarrow> bool res" where
  "NeedsSetup c db = store_ReadOnly c (\<lambda>c db. bind_res (CountUsers c db) (\<lambda>n. Inr (n = 0))) db"

section \<open>Lemmas\<close>

text \<open>A connection on which reading users and sessions does not fail.\<close>

definition reads_users :: "Conn \<Rightarrow> bool" where
  "reads_users c \<longleftrightarrow> \<not> c_fails c ''GetUserSession'' \<and> \<not> c_fails c ''GetUser''"

lemma Authenticate_Inr:
  "Authenticate a c now token db = (Inr user, db') \<longleftrightarrow>
     token \<noteq> [] \<and> reads_users c \<and> db' = db \<and> \<not> Disabled user \<and>
     (\<exists>session. row_get s_TokenHash (HashToken a token) (t_sessions db) = Some session \<and>
        row_get u_ID (s_UserID session) (t_users db) = Some user \<and> now \<le> s_ExpiresAt session)"
proof -
  let ?h = "HashToken a token"
  have "store_ReadOnly c (\<lambda>c db. bind_res (GetUserSession c db ?h) (\<lambda>session.
      bind_res (GetUser c db (s_UserID session)) (\<lambda>user. Inr (session, user)))) db = Inr (s, u) \<longleftrightarrow>
    reads_users c \<and> row_get s_TokenHash ?h (t_sessions db) = Some s \<and> row_get u_ID (s_UserID s) (t_users db) = Some u"
    for s u
    by (auto simp: store_ReadOnly_def GetUserSession_def GetUser_def reads_users_def res_simps split: option.splits)
  then show ?thesis
    by (auto simp: Authenticate_def split: sum.splits if_splits)
qed

lemma Login_Inr:
  assumes "Login a c env username password addr agent (l, db) = (Inr r, l', db')"
  obtains user raw where "checked_user a c db (NormaliseUsername a username) password = Some user"
    and "fst (limiter_Allow (le_allow_now env) (NormaliseUsername a username) addr l)"
    and "le_random env = Some raw" "lr_Token r = base64_url raw" "lr_User r = user"
    and "lr_ExpiresAt r = le_now env + au_sessionTTL a"
    and "PutUserSession (c\<lparr>c_writable := True\<rparr>) (new_session a (base64_url raw) (le_now env) (u_ID user) agent) db = Inr db'"
proof -
  obtain b l1 where al: "limiter_Allow (le_allow_now env) (NormaliseUsername a username) addr l = (b, l1)"
    by fastforce
  have b: b using assms al by (cases b) (auto simp: Login_def Let_def)
  obtain user where u: "checked_user a c db (NormaliseUsername a username) password = Some user"
    using assms al b by (auto simp: Login_def Let_def split: option.splits)
  obtain raw where raw: "le_random env = Some raw"
    using assms al b u by (auto simp: Login_def Let_def newToken_def split: option.splits)
  have "fst (limiter_Allow (le_allow_now env) (NormaliseUsername a username) addr l)" using al b by simp
  then show ?thesis
    using that [OF u _ raw] assms al b u raw
    by (auto simp: Login_def Let_def newToken_def store_Tx_ok res_simps new_session_def split: prod.splits)
qed

lemma put_session_fresh:
  assumes "PutUserSession c s db = Inr db'" and "row_get s_TokenHash (s_TokenHash s) (t_sessions db) = None"
  shows "row_get s_TokenHash (s_TokenHash s) (t_sessions db') = Some (stored_session c s) \<and> t_users db' = t_users db"
proof -
  have h: "s_TokenHash (stored_session c s) = s_TokenHash s" by (simp add: stored_session_def)
  have "t_sessions db' = row_upsert s_TokenHash merge_session (stored_session c s) (t_sessions db)"
    and "t_users db' = t_users db"
    using assms(1) by (auto simp: PutUserSession_def split: if_splits)
  then show ?thesis using sessions.get_upsert_same [of "stored_session c s" "t_sessions db"] assms(2) h by simp
qed

lemma checked_user_Some:
  "checked_user a c db username password = Some user \<Longrightarrow>
     row_get u_Username username (t_users db) = Some user \<and> \<not> Disabled user \<and>
     VerifyPassword (au_IDKey a) (u_PasswordHash user) password = Inr True"
  by (auto simp: checked_user_def store_ReadOnly_def GetUserByUsername_def stmt_def
      split: sum.splits if_splits option.splits)

lemma user_by_name_id:
  assumes "db_ok db" and "row_get u_Username name (t_users db) = Some user"
  shows "row_get u_ID (u_ID user) (t_users db) = Some user"
  by (rule row_get_unique) (use assms in \<open>auto simp: db_ok_def dest: row_get_SomeD\<close>)

section \<open>The properties of the auth service\<close>

text \<open>
  A token authenticates as a user exactly when its hash names a stored session of that
  user that has not expired, and the user is not disabled; authenticating changes nothing.
\<close>

theorem authenticate_exact:
  "Authenticate a c now token db = (Inr user, db') \<longleftrightarrow>
     token \<noteq> [] \<and> reads_users c \<and> db' = db \<and> \<not> Disabled user \<and>
     (\<exists>session. row_get s_TokenHash (HashToken a token) (t_sessions db) = Some session \<and>
        row_get u_ID (s_UserID session) (t_users db) = Some user \<and> now \<le> s_ExpiresAt session)"
  by (rule Authenticate_Inr)

text \<open>
  C30: a successful login checked the stored password hash of an enabled user of the
  normalised name and was not rate limited, and the token it returns authenticates as that
  user until it expires, provided the token's hash is new.
\<close>

theorem login_then_authenticate:
  assumes "db_ok db" and "Login a c env username password addr agent (l, db) = (Inr r, l', db')"
    and "row_get s_TokenHash (HashToken a (lr_Token r)) (t_sessions db) = None"
    and "lr_Token r \<noteq> []" and "reads_users c'" and "now \<le> lr_ExpiresAt r"
  shows "row_get u_Username (NormaliseUsername a username) (t_users db) = Some (lr_User r) \<and>
    VerifyPassword (au_IDKey a) (u_PasswordHash (lr_User r)) password = Inr True \<and>
    fst (limiter_Allow (le_allow_now env) (NormaliseUsername a username) addr l) \<and>
    Authenticate a c' now (lr_Token r) db' = (Inr (lr_User r), db')"
  using assms(2)
proof (cases rule: Login_Inr)
  case (1 user raw)
  let ?s = "new_session a (base64_url raw) (le_now env) (u_ID user) agent"
  note u = checked_user_Some [OF 1(1)]
  have "s_TokenHash ?s = HashToken a (lr_Token r)" by (simp add: new_session_def 1(4))
  then have s: "row_get s_TokenHash (HashToken a (lr_Token r)) (t_sessions db') =
      Some (stored_session (c\<lparr>c_writable := True\<rparr>) ?s)" "t_users db' = t_users db"
    using put_session_fresh [OF 1(7)] assms(3) by simp_all
  have "row_get u_ID (u_ID user) (t_users db) = Some user" using user_by_name_id [OF assms(1)] u by blast
  then show ?thesis using u s 1 assms(4-6)
    by (simp add: Authenticate_Inr) (simp add: stored_session_def new_session_def)
qed

definition sample_auth :: Auth where
  "sample_auth = \<lparr>au_params = \<lparr>hp_Memory = 1, hp_Iterations = 1, hp_Parallelism = 1,
       hp_SaltLength = 16, hp_KeyLength = 32\<rparr>, au_sessionTTL = 100, au_IDKey = (\<lambda>p s i m l n. p),
     au_sha256 = id, au_ulower = id\<rparr>"

definition sample_user :: User where
  "sample_user = \<lparr>u_ID = ''u'', u_Username = ''ann'', u_Email = [],
     u_PasswordHash = ''$argon2id$v=19$m=1,t=1,p=1$$c2VjcmV0'', u_Locale = [],
     u_IsAdmin = False, u_CreatedAt = 1, u_DisabledAt = None\<rparr>"

definition sample_users_db :: DB where
  "sample_users_db = empty_db\<lparr>t_users := [sample_user]\<rparr>"

lemma sample_users_ok: "db_ok sample_users_db"
  by (simp add: sample_users_db_def db_ok_def empty_db_def keys_unique_def refers_def gapless_def
      emails_unique_def sample_user_def)

definition sample_env :: login_env where
  "sample_env = \<lparr>le_allow_now = 10, le_fail_now = 11, le_now = 12, le_random = Some ''0123456789''\<rparr>"

lemma sample_login:
  obtains r l' db' where
    "Login sample_auth sample_conn sample_env '' Ann'' ''secret'' ''addr'' ''agent''
       (NewLimiter DefaultLimits, sample_users_db) = (Inr r, l', db')"
    and "lr_Token r \<noteq> []" and "20 \<le> lr_ExpiresAt r"
proof -
  have "case Login sample_auth sample_conn sample_env '' Ann'' ''secret'' ''addr'' ''agent''
       (NewLimiter DefaultLimits, sample_users_db) of
      (Inl _, _) \<Rightarrow> False | (Inr r, _) \<Rightarrow> lr_Token r \<noteq> [] \<and> 20 \<le> lr_ExpiresAt r"
    by code_simp
  then show ?thesis using that by (auto split: prod.splits sum.splits)
qed

theorem login_then_authenticate_witness:
  "\<exists>r l' db'. Login sample_auth sample_conn sample_env '' Ann'' ''secret'' ''addr'' ''agent''
       (NewLimiter DefaultLimits, sample_users_db) = (Inr r, l', db') \<and>
     Authenticate sample_auth sample_conn 20 (lr_Token r) db' = (Inr (lr_User r), db')"
proof (rule sample_login)
  fix r l' db'
  assume e: "Login sample_auth sample_conn sample_env '' Ann'' ''secret'' ''addr'' ''agent''
       (NewLimiter DefaultLimits, sample_users_db) = (Inr r, l', db')"
    and t: "lr_Token r \<noteq> []" "20 \<le> lr_ExpiresAt r"
  have "row_get s_TokenHash h (t_sessions sample_users_db) = None" for h
    by (simp add: sample_users_db_def empty_db_def)
  moreover have "reads_users sample_conn" by (simp add: reads_users_def sample_conn_def)
  ultimately show ?thesis using login_then_authenticate [OF sample_users_ok e] e t by blast
qed

text \<open>
  changing a password ends every session of the user: no token of that user authenticates
  any more, and sessions of other users are untouched.
\<close>

theorem set_password_revokes:
  assumes "SetPassword a c salt uid password db = (Inr (), db')"
  shows "\<not> (\<exists>s \<in> set (t_sessions db'). s_UserID s = uid) \<and>
    filter (\<lambda>s. s_UserID s \<noteq> uid) (t_sessions db') = filter (\<lambda>s. s_UserID s \<noteq> uid) (t_sessions db) \<and>
    (Authenticate a c' now token db' = (Inr user, db'') \<longrightarrow> u_ID user \<noteq> uid)"
proof -
  have s: "t_sessions db' = row_delete (\<lambda>s. s_UserID s = uid) (t_sessions db)"
    using assms by (auto simp: SetPassword_def store_Tx_ok res_simps PutUser_def DeleteUserSessionsOf_def
        split: if_splits sum.splits)
  then show ?thesis
    by (auto simp: row_delete_def Authenticate_Inr filter_filter dest!: row_get_SomeD)
qed

theorem set_password_revokes_witness:
  "\<exists>db'. SetPassword sample_auth sample_conn (Some ''salt'') ''u'' ''correct horse'' sample_users_db = (Inr (), db') \<and>
     \<not> (\<exists>s \<in> set (t_sessions db'). s_UserID s = ''u'')"
proof -
  have "case SetPassword sample_auth sample_conn (Some ''salt'') ''u'' ''correct horse'' sample_users_db of
      (Inl _, _) \<Rightarrow> False | (Inr _, _) \<Rightarrow> True"
    by code_simp
  then obtain db' where e: "SetPassword sample_auth sample_conn (Some ''salt'') ''u'' ''correct horse'' sample_users_db = (Inr (), db')"
    by (auto split: prod.splits sum.splits)
  from set_password_revokes [OF e] e show ?thesis by blast
qed

end
