(* ===== verification/Dice.thy ===== *)
theory Dice
  imports Prelude "HOL-Library.Multiset"
begin

text \<open>
  Dice expressions (\<open>internal/core/dice/dice.go\<close>).  A \<open>Source\<close> is a state and a function
  \<open>roll\<close> from a state and a number of faces to a value and the next state; sums wrap at 64
  bits as Go's \<open>int\<close> does.
\<close>

definition MaxDice :: int where "MaxDice = 200"
definition MaxFaces :: int where "MaxFaces = 1000"
definition MaxTermsLen :: nat where "MaxTermsLen = 200"

record Die =
  die_Faces :: int
  die_Value :: int
  die_Kept :: bool

record Term =
  term_Sign :: int
  term_Expression :: string
  term_Dice :: "Die list"
  term_Constant :: "int option"
  term_Subtotal :: int

record Result =
  r_Expression :: string
  r_Terms :: "Term list"
  r_Total :: int

type_synonym 's roller = "'s \<Rightarrow> int \<Rightarrow> int \<times> 's"

section \<open>Sources\<close>

record FixedSource =
  fs_Values :: "int list"
  fs_index :: nat

definition fixed_Roll :: "FixedSource roller" where
  "fixed_Roll s faces =
     (if fs_index s \<ge> length (fs_Values s) then (1, s)
      else
        let value = fs_Values s ! fs_index s;
            s = s\<lparr>fs_index := fs_index s + 1\<rparr>
        in if value < 1 then (1, s) else if value > faces then (faces, s) else (value, s))"

text \<open>
  \<open>crypto/rand\<close> is a parameter: \<open>rand_int\<close> is \<open>rand.Int\<close>, which draws below its limit or fails,
  \<open>rand_read\<close> the eight bytes of \<open>rand.Read\<close> as a number, which does not fail in the Go
  version of the module.
\<close>

definition crypto_Roll ::
  "('s \<Rightarrow> int \<Rightarrow> int option \<times> 's) \<Rightarrow> ('s \<Rightarrow> int \<times> 's) \<Rightarrow> 's roller" where
  "crypto_Roll rand_int rand_read s faces =
     (case rand_int s faces of
        (Some value, s) \<Rightarrow> (value + 1, s)
      | (None, s) \<Rightarrow> (case rand_read s of (fallback, s) \<Rightarrow> (fallback mod faces + 1, s)))"

section \<open>Keeping and dropping\<close>

text \<open>
  \<open>order\<close> holds the indices of the dice; index \<open>i\<close> of the loop sinks towards the front while
  its die is strictly better than its left neighbour's.  \<open>sel_sink\<close> works on the reversed
  prefix.
\<close>

fun sel_sink :: "(nat \<Rightarrow> nat \<Rightarrow> bool) \<Rightarrow> nat \<Rightarrow> nat list \<Rightarrow> nat list" where
  "sel_sink better k [] = [k]"
| "sel_sink better k (p # ps) = (if better k p then p # sel_sink better k ps else k # p # ps)"

definition better_die :: "bool \<Rightarrow> Die list \<Rightarrow> nat \<Rightarrow> nat \<Rightarrow> bool" where
  "better_die descending dice right left \<longleftrightarrow>
     (descending \<and> die_Value (dice ! right) > die_Value (dice ! left)) \<or>
     (\<not> descending \<and> die_Value (dice ! right) < die_Value (dice ! left))"

definition selection_order :: "bool \<Rightarrow> Die list \<Rightarrow> nat list" where
  "selection_order descending dice = rev (fold (sel_sink (better_die descending dice)) [0..<length dice] [])"

fun mark_kept :: "bool \<Rightarrow> int \<Rightarrow> int \<Rightarrow> nat list \<Rightarrow> Die list \<Rightarrow> Die list" where
  "mark_kept keeping amount position [] dice = dice"
| "mark_kept keeping amount position (index # order) dice =
     mark_kept keeping amount (position + 1) order
       (if keeping then dice[index := (dice ! index)\<lparr>die_Kept := position < amount\<rparr>]
        else if position < amount then dice[index := (dice ! index)\<lparr>die_Kept := False\<rparr>]
        else dice)"

definition applySelection :: "Die list \<Rightarrow> string \<Rightarrow> int \<Rightarrow> Die list" where
  "applySelection dice mode amount =
     mark_kept (mode = ''kh'' \<or> mode = ''kl'') amount 0
       (selection_order (mode = ''kh'' \<or> mode = ''dh'') dice) dice"

section \<open>Terms and expressions\<close>

text \<open>
  \<open>termPattern\<close>: digits, a \<open>d\<close>, at least one digit, and optionally a mode with at least one
  digit.  The groups of the match; an absent mode is the empty string.
\<close>

definition is_mode :: "string \<Rightarrow> bool" where
  "is_mode m \<longleftrightarrow> m = ''kh'' \<or> m = ''kl'' \<or> m = ''dh'' \<or> m = ''dl''"

definition termPattern :: "string \<Rightarrow> (string \<times> string \<times> string \<times> string) option" where
  "termPattern piece =
     (let digits = takeWhile is_digit piece; rest = dropWhile is_digit piece
      in case rest of
           [] \<Rightarrow> None
         | d # rest \<Rightarrow>
             let faces = takeWhile is_digit rest; selection = dropWhile is_digit rest;
                 mode = take 2 selection; amount = drop 2 selection
             in if d \<noteq> CHR ''d'' \<or> faces = [] then None
                else if selection = [] then Some (digits, faces, [], [])
                else if is_mode mode \<and> amount \<noteq> [] \<and> list_all is_digit amount
                then Some (digits, faces, mode, amount) else None)"

fun roll_dice :: "'s roller \<Rightarrow> int \<Rightarrow> nat \<Rightarrow> 's \<Rightarrow> Die list \<times> 's" where
  "roll_dice roll faces 0 s = ([], s)"
| "roll_dice roll faces (Suc n) s =
     (case roll s faces of (value, s) \<Rightarrow>
       (case roll_dice roll faces n s of (dice, s) \<Rightarrow>
         (\<lparr>die_Faces = faces, die_Value = value, die_Kept = True\<rparr> # dice, s)))"

definition subtotal_of :: "Die list \<Rightarrow> int" where
  "subtotal_of dice = fold (\<lambda>die subtotal. if die_Kept die then wrap64 (subtotal + die_Value die) else subtotal) dice 0"

text \<open>The dice of a term once its count and its faces are accepted.\<close>

definition evaluate_dice ::
  "string \<Rightarrow> int \<Rightarrow> 's roller \<Rightarrow> int \<Rightarrow> int \<Rightarrow> string \<Rightarrow> string \<Rightarrow> int \<times> 's \<Rightarrow> (Term \<times> int \<times> 's) res" where
  "evaluate_dice piece sign roll number faces mode amount = (\<lambda>(budget, source).
     if number < 1 then Inl ErrMalformed
     else if number > budget then Inl ErrTooManyDice
     else
       let budget = budget - number;
           (dice, source) = roll_dice roll faces (nat number) source;
           finish = (\<lambda>dice. Inr (\<lparr>term_Sign = sign, term_Expression = piece, term_Dice = dice,
             term_Constant = None, term_Subtotal = subtotal_of dice\<rparr>, budget, source))
       in if mode \<noteq> [] then
            (case atoi amount of
               None \<Rightarrow> Inl ErrMalformed
             | Some keep \<Rightarrow> if keep < 0 then Inl ErrMalformed else finish (applySelection dice mode keep))
          else finish dice)"

definition term_count :: "string \<Rightarrow> int res" where
  "term_count m1 =
     (if m1 \<noteq> [] then (case atoi m1 of None \<Rightarrow> Inl ErrMalformed | Some parsed \<Rightarrow> Inr parsed) else Inr 1)"

definition term_faces :: "string \<Rightarrow> int res" where
  "term_faces m2 =
     (case atoi m2 of
        None \<Rightarrow> Inl ErrUnsupportedDie
      | Some faces \<Rightarrow> if faces < 2 \<or> faces > MaxFaces then Inl ErrUnsupportedDie else Inr faces)"

definition evaluate ::
  "string \<Rightarrow> int \<Rightarrow> 's roller \<Rightarrow> int \<times> 's \<Rightarrow> (Term \<times> int \<times> 's) res" where
  "evaluate piece sign roll st =
     (case atoi piece of
        Some constant \<Rightarrow>
          Inr (\<lparr>term_Sign = sign, term_Expression = piece, term_Dice = [],
            term_Constant = Some constant, term_Subtotal = constant\<rparr>, st)
      | None \<Rightarrow>
          (case termPattern piece of
             None \<Rightarrow> Inl ErrMalformed
           | Some (m1, m2, m3, m4) \<Rightarrow>
               bind_res (term_count m1) (\<lambda>number.
               bind_res (term_faces m2) (\<lambda>faces.
               evaluate_dice piece sign roll number faces m3 m4 st))))"

record 's RollState =
  rs_sign :: int
  rs_buffer :: string
  rs_terms :: "Term list"
  rs_total :: int
  rs_budget :: int
  rs_source :: 's

definition flush :: "'s roller \<Rightarrow> 's RollState \<Rightarrow> 's RollState res" where
  "flush roll st =
     (if rs_buffer st = [] then Inl ErrMalformed
      else bind_res (evaluate (rs_buffer st) (rs_sign st) roll (rs_budget st, rs_source st))
        (\<lambda>(trm, budget, source).
        Inr (st\<lparr>rs_buffer := [], rs_terms := rs_terms st @ [trm],
          rs_total := wrap64 (rs_total st + wrap64 (rs_sign st * term_Subtotal trm)),
          rs_budget := budget, rs_source := source\<rparr>)))"

fun roll_loop :: "'s roller \<Rightarrow> nat \<Rightarrow> string \<Rightarrow> 's RollState \<Rightarrow> 's RollState res" where
  "roll_loop roll index [] st = Inr st"
| "roll_loop roll index (character # rest) st =
     (if (character = CHR ''+'' \<or> character = CHR ''-'') \<and> index > 0 then
        bind_res (flush roll st) (\<lambda>st.
          roll_loop roll (index + 1) rest
            (st\<lparr>rs_sign := (if character = CHR ''-'' then -1 else 1)\<rparr>))
      else if character = CHR ''+'' \<and> index = 0 then roll_loop roll (index + 1) rest st
      else if character = CHR ''-'' \<and> index = 0 then roll_loop roll (index + 1) rest (st\<lparr>rs_sign := -1\<rparr>)
      else roll_loop roll (index + 1) rest (st\<lparr>rs_buffer := rs_buffer st @ [character]\<rparr>))"

definition Roll :: "(string \<Rightarrow> string) \<Rightarrow> 's roller \<Rightarrow> string \<Rightarrow> 's \<Rightarrow> (Result \<times> 's) res" where
  "Roll ulower roll expression source =
     (let normalised = filter (\<lambda>ch. ch \<noteq> CHR '' '') (to_lower ulower (trim_space expression))
      in if normalised = [] then Inl ErrEmptyExpression
         else if length normalised > MaxTermsLen then Inl ErrMalformed
         else
           bind_res (roll_loop roll 0 normalised
             \<lparr>rs_sign = 1, rs_buffer = [], rs_terms = [], rs_total = 0, rs_budget = MaxDice,
              rs_source = source\<rparr>) (\<lambda>st.
           bind_res (flush roll st) (\<lambda>st.
           Inr (\<lparr>r_Expression = trim_space expression, r_Terms = rs_terms st, r_Total = rs_total st\<rparr>,
             rs_source st))))"

section \<open>The contract of a source\<close>

text \<open>A source returns a face of the die it was asked to roll.\<close>

locale dice_source =
  fixes roll :: "'s roller"
  assumes roll_range: "1 \<le> faces \<Longrightarrow> 1 \<le> fst (roll s faces) \<and> fst (roll s faces) \<le> faces"
begin

lemma roll_dice_range:
  "1 \<le> faces \<Longrightarrow> roll_dice roll faces n s = (dice, s') \<Longrightarrow>
     length dice = n \<and> (\<forall>d \<in> set dice. die_Faces d = faces \<and> 1 \<le> die_Value d \<and> die_Value d \<le> faces \<and> die_Kept d)"
proof (induction n arbitrary: s s' dice)
  case (Suc n)
  obtain v s1 where r: "roll s faces = (v, s1)" by fastforce
  obtain ds s2 where d: "roll_dice roll faces n s1 = (ds, s2)" by fastforce
  from Suc.prems r d have "dice = \<lparr>die_Faces = faces, die_Value = v, die_Kept = True\<rparr> # ds" by simp
  with Suc.IH [OF Suc.prems(1) d] roll_range [OF Suc.prems(1), of s] r show ?case by auto
qed simp

end

interpretation fixed: dice_source fixed_Roll
  by unfold_locales (simp add: fixed_Roll_def Let_def)

text \<open>\<open>rand.Int\<close> documents a uniform value below its limit.\<close>

definition draws_below :: "('s \<Rightarrow> int \<Rightarrow> int option \<times> 's) \<Rightarrow> bool" where
  "draws_below rand_int \<longleftrightarrow> (\<forall>s n v s'. rand_int s n = (Some v, s') \<longrightarrow> 0 \<le> v \<and> v < n)"

text \<open>The cryptographic source keeps the contract when \<open>rand.Int\<close> draws below its limit.\<close>

lemma crypto_source:
  assumes "draws_below rand_int"
  shows "dice_source (crypto_Roll rand_int rand_read)"
proof
  fix faces :: int and s
  assume f: "1 \<le> faces"
  show "1 \<le> fst (crypto_Roll rand_int rand_read s faces) \<and> fst (crypto_Roll rand_int rand_read s faces) \<le> faces"
  proof (cases "fst (rand_int s faces)")
    case None
    have "x mod faces + 1 \<le> faces" "0 \<le> x mod faces" for x
      using pos_mod_bound [of faces x] pos_mod_sign [of faces x] f by linarith+
    then show ?thesis using None
      by (auto simp: crypto_Roll_def split: prod.splits option.splits)
  next
    case (Some v)
    then have "0 \<le> v \<and> v < faces" using assms unfolding draws_below_def by (cases "rand_int s faces") auto
    then show ?thesis using Some by (auto simp: crypto_Roll_def split: prod.splits option.splits)
  qed
qed

section \<open>The selection\<close>

lemma set_sel_sink [simp]: "set (sel_sink b k ps) = insert k (set ps)"
  by (induction ps) auto

lemma mset_sel_sink [simp]: "mset (sel_sink b k ps) = add_mset k (mset ps)"
  by (induction ps) auto

definition rank :: "bool \<Rightarrow> Die list \<Rightarrow> nat \<Rightarrow> int" where
  "rank descending dice i = (if descending then - die_Value (dice ! i) else die_Value (dice ! i))"

lemma better_die_rank: "better_die descending dice r l \<longleftrightarrow> rank descending dice r < rank descending dice l"
  by (auto simp: better_die_def rank_def)

lemma sorted_sel_sink:
  fixes f :: "nat \<Rightarrow> int"
  assumes "sorted (map f (rev ps))" and "\<And>x y. b x y \<longleftrightarrow> f x < f y"
  shows "sorted (map f (rev (sel_sink b k ps)))"
  using assms(1) by (induction ps) (auto simp: assms(2) sorted_append)

lemma sel_sink_fold:
  fixes f :: "nat \<Rightarrow> int"
  assumes "sorted (map f (rev acc))" and "\<And>x y. b x y \<longleftrightarrow> f x < f y"
  shows "sorted (map f (rev (fold (sel_sink b) ks acc))) \<and> mset (fold (sel_sink b) ks acc) = mset ks + mset acc"
  using assms by (induction ks arbitrary: acc) (auto simp: sorted_sel_sink)

lemma selection_order_sorted:
  "sorted (map (rank descending dice) (selection_order descending dice))"
  "mset (selection_order descending dice) = mset [0..<length dice]"
proof -
  have "sorted (map (rank descending dice) (rev [])) \<and>
    (\<forall>x y. better_die descending dice x y \<longleftrightarrow> rank descending dice x < rank descending dice y)"
    by (simp add: better_die_rank)
  then show "sorted (map (rank descending dice) (selection_order descending dice))"
    and "mset (selection_order descending dice) = mset [0..<length dice]"
    using sel_sink_fold [of "rank descending dice" "[]" "better_die descending dice" "[0..<length dice]"]
    by (simp_all add: selection_order_def)
qed

lemma mark_kept_length [simp]: "length (mark_kept keeping amount pos order dice) = length dice"
  by (induction keeping amount pos order dice rule: mark_kept.induct) auto

lemma mark_kept_other: "i \<notin> set order \<Longrightarrow> mark_kept keeping amount pos order dice ! i = dice ! i"
  by (induction keeping amount pos order dice rule: mark_kept.induct) auto

lemma mark_kept_nth:
  assumes "distinct order" and "\<And>i. i \<in> set order \<Longrightarrow> i < length dice" and "p < length order"
  shows "mark_kept keeping amount pos order dice ! (order ! p) =
    (dice ! (order ! p))\<lparr>die_Kept := (if keeping then pos + int p < amount
       else \<not> pos + int p < amount \<and> die_Kept (dice ! (order ! p)))\<rparr>"
  using assms
proof (induction order arbitrary: p pos dice)
  case (Cons i order)
  let ?dice = "if keeping then dice[i := (dice ! i)\<lparr>die_Kept := pos < amount\<rparr>]
        else if pos < amount then dice[i := (dice ! i)\<lparr>die_Kept := False\<rparr>] else dice"
  show ?case
  proof (cases p)
    case 0
    have "dice ! i = (dice ! i)\<lparr>die_Kept := die_Kept (dice ! i)\<rparr>" by simp
    moreover have "i < length dice" using Cons.prems(2) by simp
    ultimately show ?thesis using 0 Cons.prems(1) by (simp add: mark_kept_other)
  next
    case (Suc q)
    have q: "q < length order" "order ! q \<noteq> i" using Cons.prems Suc by auto
    then have "?dice ! (order ! q) = dice ! (order ! q)" by simp
    with Cons.IH [of ?dice q "pos + 1"] Cons.prems q Suc show ?thesis by (simp add: algebra_simps)
  qed
qed simp

text \<open>
  The dice in the order of the selection: the first \<open>amount\<close> are chosen, the others are not.
\<close>

lemma selected_in_order:
  fixes dice mode amount
  defines "order \<equiv> selection_order (mode = ''kh'' \<or> mode = ''dh'') dice"
    and "dice' \<equiv> applySelection dice mode amount"
  assumes kept: "\<forall>d \<in> set dice. die_Kept d"
  shows "mset (map (nth dice') order) = mset dice'"
    and "p < length dice \<Longrightarrow> die_Value (dice' ! (order ! p)) = die_Value (dice ! (order ! p)) \<and>
      die_Faces (dice' ! (order ! p)) = die_Faces (dice ! (order ! p)) \<and>
      (die_Kept (dice' ! (order ! p)) = (mode = ''kh'' \<or> mode = ''kl'')) = (int p < amount)"
proof -
  have ord: "mset order = mset [0..<length dice]" unfolding order_def by (rule selection_order_sorted(2))
  have len: "length order = length dice" using arg_cong [OF ord, of size] by simp
  have set: "set order = {0..<length dice}" using arg_cong [OF ord, of set_mset] by simp
  have dist: "distinct order" using ord by (metis distinct_upt mset_eq_imp_distinct_iff)
  have len': "length dice' = length dice" by (simp add: dice'_def applySelection_def)
  have "mset (map (nth dice') order) = image_mset (nth dice') (mset [0..<length dice'])"
    by (simp add: ord len')
  also have "\<dots> = mset dice'" by (metis map_nth mset_map)
  finally show "mset (map (nth dice') order) = mset dice'" .
  assume p: "p < length dice"
  then have "order ! p < length dice" using set len by (metis atLeastLessThan_iff nth_mem)
  then have "die_Kept (dice ! (order ! p))" using kept by simp
  moreover have "dice' ! (order ! p) = (dice ! (order ! p))\<lparr>die_Kept :=
      (if mode = ''kh'' \<or> mode = ''kl'' then 0 + int p < amount
       else \<not> 0 + int p < amount \<and> die_Kept (dice ! (order ! p)))\<rparr>"
    unfolding dice'_def applySelection_def order_def [symmetric]
    by (rule mark_kept_nth) (use dist set p len in auto)
  ultimately show "die_Value (dice' ! (order ! p)) = die_Value (dice ! (order ! p)) \<and>
      die_Faces (dice' ! (order ! p)) = die_Faces (dice ! (order ! p)) \<and>
      (die_Kept (dice' ! (order ! p)) = (mode = ''kh'' \<or> mode = ''kl'')) = (int p < amount)"
    by auto
qed

lemma selection_counts:
  assumes "\<forall>d \<in> set dice. die_Kept d" and "0 \<le> amount"
  shows "int (length (filter (\<lambda>d. die_Kept d = (mode = ''kh'' \<or> mode = ''kl''))
    (applySelection dice mode amount))) = min (int (length dice)) amount"
proof -
  let ?order = "selection_order (mode = ''kh'' \<or> mode = ''dh'') dice"
  let ?dice = "applySelection dice mode amount"
  let ?P = "\<lambda>d. die_Kept d = (mode = ''kh'' \<or> mode = ''kl'')"
  have len: "length ?order = length dice"
    using arg_cong [OF selection_order_sorted(2), of size] by simp
  have "length (filter ?P ?dice) = length (filter ?P (map (nth ?dice) ?order))"
    using selected_in_order(1) [OF assms(1), where mode = mode and amount = amount] by (metis mset_filter size_mset)
  also have "\<dots> = card {p. p < length dice \<and> ?P (?dice ! (?order ! p))}"
    by (simp only: length_filter_conv_card length_map len) (metis (no_types, lifting) len nth_map)
  also have "{p. p < length dice \<and> ?P (?dice ! (?order ! p))} = {p. p < length dice \<and> int p < amount}"
    using selected_in_order(2) [OF assms(1)] by auto
  also have "{p. p < length dice \<and> int p < amount} = {..< min (length dice) (nat amount)}" by auto
  finally show ?thesis using assms(2) by simp
qed

lemma selection_ranks:
  assumes "\<forall>d \<in> set dice. die_Kept d"
    and "a \<in> set (applySelection dice mode amount)" "die_Kept a = (mode = ''kh'' \<or> mode = ''kl'')"
    and "b \<in> set (applySelection dice mode amount)" "die_Kept b \<noteq> (mode = ''kh'' \<or> mode = ''kl'')"
  shows "if mode = ''kh'' \<or> mode = ''dh'' then die_Value b \<le> die_Value a else die_Value a \<le> die_Value b"
proof -
  let ?desc = "mode = ''kh'' \<or> mode = ''dh''"
  let ?order = "selection_order ?desc dice"
  let ?dice = "applySelection dice mode amount"
  have len: "length ?order = length dice"
    using arg_cong [OF selection_order_sorted(2), of size] by simp
  have at: "\<exists>p < length dice. d = ?dice ! (?order ! p)" if "d \<in> set ?dice" for d
  proof -
    have "set (map (nth ?dice) ?order) = set ?dice"
      using selected_in_order(1) [OF assms(1), where mode = mode and amount = amount] by (metis set_mset_mset)
    with that have "d \<in> set (map (nth ?dice) ?order)" by simp
    then show ?thesis by (auto simp: in_set_conv_nth len)
  qed
  obtain p where p: "p < length dice" "a = ?dice ! (?order ! p)" using at [OF assms(2)] by blast
  obtain q where q: "q < length dice" "b = ?dice ! (?order ! q)" using at [OF assms(4)] by blast
  have "int p < amount" "\<not> int q < amount"
    using selected_in_order(2) [OF assms(1) p(1), of mode amount]
      selected_in_order(2) [OF assms(1) q(1), of mode amount] p(2) q(2) assms(3,5) by auto
  then have "p < q" by linarith
  then have "rank ?desc dice (?order ! p) \<le> rank ?desc dice (?order ! q)"
    using selection_order_sorted(1) [of ?desc dice] q(1) len
    by (simp add: sorted_iff_nth_mono)
  moreover have "die_Value a = die_Value (dice ! (?order ! p))"
    using selected_in_order(2) [OF assms(1) p(1), of mode amount] by (simp add: p(2))
  moreover have "die_Value b = die_Value (dice ! (?order ! q))"
    using selected_in_order(2) [OF assms(1) q(1), of mode amount] by (simp add: q(2))
  ultimately show ?thesis by (cases ?desc) (simp_all only: rank_def if_True if_False neg_le_iff_le)
qed

lemma kept_flag_shape:
  "map die_Value (ds[i := (ds ! i)\<lparr>die_Kept := k\<rparr>]) = map die_Value ds"
  "map die_Faces (ds[i := (ds ! i)\<lparr>die_Kept := k\<rparr>]) = map die_Faces ds"
  by (cases "i < length ds"; rule nth_equalityI; simp add: nth_list_update)+

lemma mark_kept_shape:
  "map die_Value (mark_kept keeping amount pos order dice) = map die_Value dice"
  "map die_Faces (mark_kept keeping amount pos order dice) = map die_Faces dice"
  by (induction keeping amount pos order dice rule: mark_kept.induct) (simp_all add: kept_flag_shape)

section \<open>Bounds and totals\<close>

definition kept_sum :: "Die list \<Rightarrow> int" where
  "kept_sum dice = sum_list (map die_Value (filter die_Kept dice))"

definition die_ok :: "Die \<Rightarrow> bool" where
  "die_ok d \<longleftrightarrow> 2 \<le> die_Faces d \<and> die_Faces d \<le> MaxFaces \<and> 1 \<le> die_Value d \<and> die_Value d \<le> die_Faces d"

text \<open>A term is a constant in the range of an \<open>int\<close>, or dice whose subtotal is the sum of the kept ones.\<close>

definition term_ok :: "Term \<Rightarrow> bool" where
  "term_ok t \<longleftrightarrow> (term_Sign t = 1 \<or> term_Sign t = -1) \<and> list_all die_ok (term_Dice t) \<and>
     (case term_Constant t of
        Some n \<Rightarrow> term_Dice t = [] \<and> term_Subtotal t = n \<and> min_int64 \<le> n \<and> n \<le> max_int64
      | None \<Rightarrow> term_Dice t \<noteq> [] \<and> term_Subtotal t = kept_sum (term_Dice t))"

definition dice_count :: "Term list \<Rightarrow> int" where
  "dice_count ts = int (sum_list (map (\<lambda>t. length (term_Dice t)) ts))"

definition signed_sum :: "Term list \<Rightarrow> int" where
  "signed_sum ts = sum_list (map (\<lambda>t. term_Sign t * term_Subtotal t) ts)"

lemma wrap64_add_left [simp]: "wrap64 (wrap64 a + b) = wrap64 (a + b)"
  unfolding wrap64_def by (metis signed_take_bit_add signed_take_bit_signed_take_bit min.idem)

lemma wrap64_add_right [simp]: "wrap64 (a + wrap64 b) = wrap64 (a + b)"
  using wrap64_add_left [of b a] by (simp add: add.commute)

lemma kept_sum_fold:
  assumes "\<forall>d \<in> set dice. 0 \<le> die_Value d \<and> die_Value d \<le> 1000"
    and "0 \<le> acc" and "acc + 1000 * int (length dice) \<le> max_int64"
  shows "fold (\<lambda>die subtotal. if die_Kept die then wrap64 (subtotal + die_Value die) else subtotal) dice acc =
    acc + kept_sum dice"
  using assms
proof (induction dice arbitrary: acc)
  case (Cons d dice)
  have "wrap64 (acc + die_Value d) = acc + die_Value d"
    by (rule wrap64_id) (use Cons.prems in \<open>auto simp: min_int64_def\<close>)
  with Cons show ?case by (simp add: kept_sum_def)
qed (simp add: kept_sum_def)

lemma subtotal_exact:
  assumes "list_all die_ok dice" and "int (length dice) \<le> MaxDice"
  shows "subtotal_of dice = kept_sum dice"
proof -
  have "\<forall>d \<in> set dice. 0 \<le> die_Value d \<and> die_Value d \<le> 1000"
    using assms(1) by (force simp: list_all_iff die_ok_def MaxFaces_def)
  moreover have "0 + 1000 * int (length dice) \<le> max_int64"
    using assms(2) by (simp add: MaxDice_def max_int64_def)
  ultimately show ?thesis unfolding subtotal_of_def using kept_sum_fold [of dice 0] by simp
qed

lemma selection_die_ok: "list_all die_ok (applySelection dice mode amount) \<longleftrightarrow> list_all die_ok dice"
proof -
  have "list_all die_ok ds \<longleftrightarrow> list_all (\<lambda>(f, v). 2 \<le> f \<and> f \<le> MaxFaces \<and> 1 \<le> v \<and> v \<le> f)
      (zip (map die_Faces ds) (map die_Value ds))" for ds
    by (induction ds) (auto simp: die_ok_def)
  then show ?thesis by (simp only: applySelection_def mark_kept_shape)
qed

lemma term_faces_range: "term_faces m = Inr faces \<Longrightarrow> 2 \<le> faces \<and> faces \<le> MaxFaces"
  by (auto simp: term_faces_def split: option.splits if_splits)

lemma selection_length: "length (applySelection dice mode amount) = length dice"
  by (simp add: applySelection_def)

lemma atoi_range: "atoi s = Some n \<Longrightarrow> min_int64 \<le> n \<and> n \<le> max_int64"
  by (auto simp: atoi_def Let_def split: if_splits list.splits prod.splits)

context dice_source
begin

lemma evaluate_dice_ok:
  assumes "evaluate_dice piece sign roll number faces mode amount (budget, source) = Inr (t, budget', source')"
    and "2 \<le> faces" "faces \<le> MaxFaces" "sign = 1 \<or> sign = -1" "budget \<le> MaxDice"
  shows "term_ok t \<and> term_Sign t = sign \<and> 0 \<le> budget' \<and> budget' = budget - int (length (term_Dice t))"
proof -
  obtain dice s where r: "roll_dice roll faces (nat number) source = (dice, s)" by fastforce
  have n: "1 \<le> number" "number \<le> budget"
    using assms(1) by (auto simp: evaluate_dice_def split: if_splits)
  have dice: "length dice = nat number" "list_all die_ok dice"
    using roll_dice_range [OF _ r] assms(2,3) by (auto simp: list_all_iff die_ok_def)
  from assms(1) r n obtain ds where ds: "ds = dice \<or> (\<exists>k. ds = applySelection dice mode k)"
    and t: "t = \<lparr>term_Sign = sign, term_Expression = piece, term_Dice = ds, term_Constant = None,
      term_Subtotal = subtotal_of ds\<rparr>" and b: "budget' = budget - number"
    by (auto simp: evaluate_dice_def Let_def split: if_splits option.splits)
  have ok: "list_all die_ok ds" "length ds = nat number"
    using ds dice by (auto simp: selection_die_ok selection_length)
  have "subtotal_of ds = kept_sum ds"
    by (rule subtotal_exact) (use ok n assms(5) in auto)
  moreover have "ds \<noteq> []" using ok n by auto
  ultimately show ?thesis using ok n b assms(4) by (auto simp: t term_ok_def)
qed

lemma evaluate_ok:
  assumes "evaluate piece sign roll (budget, source) = Inr (t, budget', source')"
    and "sign = 1 \<or> sign = -1" "0 \<le> budget" "budget \<le> MaxDice"
  shows "term_ok t \<and> term_Sign t = sign \<and> 0 \<le> budget' \<and> budget' = budget - int (length (term_Dice t))"
proof (cases "atoi piece")
  case (Some n)
  with assms show ?thesis by (auto simp: evaluate_def term_ok_def dest: atoi_range)
next
  case None
  with assms(1) obtain m2 number faces mode amount where "term_faces m2 = Inr faces"
    and "evaluate_dice piece sign roll number faces mode amount (budget, source) = Inr (t, budget', source')"
    by (auto simp: evaluate_def res_simps split: option.splits prod.splits)
  then show ?thesis using evaluate_dice_ok term_faces_range assms(2,4) by blast
qed

end

definition state_ok :: "'s RollState \<Rightarrow> bool" where
  "state_ok st \<longleftrightarrow> (rs_sign st = 1 \<or> rs_sign st = -1) \<and> list_all term_ok (rs_terms st) \<and>
     0 \<le> rs_budget st \<and> rs_budget st = MaxDice - dice_count (rs_terms st) \<and>
     rs_total st = wrap64 (signed_sum (rs_terms st))"

context dice_source
begin

lemma flush_ok:
  assumes "flush roll st = Inr st'" and "state_ok st"
  shows "state_ok st' \<and> rs_terms st' \<noteq> []"
proof -
  from assms(1) obtain t b s where
    e: "evaluate (rs_buffer st) (rs_sign st) roll (rs_budget st, rs_source st) = Inr (t, b, s)"
    and st': "st' = st\<lparr>rs_buffer := [], rs_terms := rs_terms st @ [t],
      rs_total := wrap64 (rs_total st + wrap64 (rs_sign st * term_Subtotal t)), rs_budget := b, rs_source := s\<rparr>"
    by (auto simp: flush_def res_simps split: if_splits prod.splits)
  have "rs_budget st \<le> MaxDice" using assms(2) by (simp add: state_ok_def dice_count_def)
  with evaluate_ok [OF e] assms(2) show ?thesis
    by (simp add: st' state_ok_def dice_count_def signed_sum_def)
qed

lemma state_ok_buffer [simp]: "state_ok (st\<lparr>rs_buffer := b\<rparr>) = state_ok st"
  by (simp add: state_ok_def)

lemma state_ok_sign: "state_ok st \<Longrightarrow> g = 1 \<or> g = -1 \<Longrightarrow> state_ok (st\<lparr>rs_sign := g\<rparr>)"
  by (simp add: state_ok_def)

lemma loop_ok: "roll_loop roll index cs st = Inr st' \<Longrightarrow> state_ok st \<Longrightarrow> state_ok st'"
proof (induction cs arbitrary: index st)
  case (Cons ch cs)
  show ?case
  proof (cases "(ch = CHR ''+'' \<or> ch = CHR ''-'') \<and> index > 0")
    case True
    with Cons.prems obtain st1 where f: "flush roll st = Inr st1"
      and l: "roll_loop roll (index + 1) cs (st1\<lparr>rs_sign := (if ch = CHR ''-'' then -1 else 1)\<rparr>) = Inr st'"
      by (auto simp: res_simps)
    have "state_ok (st1\<lparr>rs_sign := (if ch = CHR ''-'' then -1 else 1)\<rparr>)"
      by (rule state_ok_sign) (use flush_ok [OF f Cons.prems(2)] in auto)
    with l show ?thesis by (rule Cons.IH)
  next
    case False
    with Cons.prems(1) obtain st1 where l: "roll_loop roll (index + 1) cs st1 = Inr st'"
      and st1: "st1 = st \<or> st1 = st\<lparr>rs_sign := -1\<rparr> \<or> (\<exists>b. st1 = st\<lparr>rs_buffer := b\<rparr>)"
      by (auto split: if_splits)
    from st1 Cons.prems(2) have "state_ok st1" by (auto intro: state_ok_sign)
    with l show ?thesis by (rule Cons.IH)
  qed
qed simp

lemma Roll_ok:
  assumes "Roll ulower roll expression source = Inr (result, source')"
  shows "r_Terms result \<noteq> [] \<and> list_all term_ok (r_Terms result) \<and> dice_count (r_Terms result) \<le> MaxDice \<and>
    r_Total result = wrap64 (signed_sum (r_Terms result))"
proof -
  let ?st = "\<lparr>rs_sign = 1, rs_buffer = [], rs_terms = [], rs_total = 0, rs_budget = MaxDice, rs_source = source\<rparr>"
  have "state_ok ?st"
    by (simp add: state_ok_def dice_count_def signed_sum_def MaxDice_def wrap64_def)
  moreover from assms obtain cs st1 st2 where "roll_loop roll 0 cs ?st = Inr st1"
    and "flush roll st1 = Inr st2" and "r_Terms result = rs_terms st2" "r_Total result = rs_total st2"
    by (auto simp: Roll_def Let_def res_simps split: if_splits)
  ultimately show ?thesis using loop_ok flush_ok by (fastforce simp: state_ok_def)
qed

end

text \<open>Without constants the total is the exact signed sum: it cannot leave the range.\<close>

lemma term_bound:
  assumes "term_ok t" and "term_Constant t = None"
  shows "\<bar>term_Sign t * term_Subtotal t\<bar> \<le> MaxFaces * int (length (term_Dice t))"
proof -
  have "0 \<le> kept_sum ds \<and> kept_sum ds \<le> MaxFaces * int (length ds)" if "list_all die_ok ds" for ds
    using that
  proof (induction ds)
    case (Cons d ds)
    then have "0 \<le> die_Value d \<and> die_Value d \<le> MaxFaces" by (auto simp: die_ok_def)
    with Cons show ?case by (auto simp: kept_sum_def algebra_simps MaxFaces_def)
  qed (simp add: kept_sum_def)
  with assms show ?thesis by (auto simp: term_ok_def)
qed

lemma signed_sum_bound:
  "list_all term_ok ts \<Longrightarrow> list_all (\<lambda>t. term_Constant t = None) ts \<Longrightarrow>
     \<bar>signed_sum ts\<bar> \<le> MaxFaces * dice_count ts"
proof (induction ts)
  case (Cons t ts)
  then show ?case using term_bound [of t]
    by (simp add: signed_sum_def dice_count_def algebra_simps)
qed (simp add: signed_sum_def dice_count_def)

section \<open>The properties of dice rolls\<close>

text \<open>
  C40: with the cryptographic source, whatever the expression, an accepted roll has at most 200
  dice of 2 to 1000 faces, every value is a face of its die, and the subtotal of a dice term
  is exactly the sum of its kept dice.
\<close>

theorem roll_bounds:
  assumes "draws_below rand_int"
    and "Roll ulower (crypto_Roll rand_int rand_read) expression source = Inr (result, source')"
  shows "r_Terms result \<noteq> [] \<and> list_all term_ok (r_Terms result) \<and> dice_count (r_Terms result) \<le> MaxDice"
  using dice_source.Roll_ok [OF crypto_source [OF assms(1)] assms(2)] by blast

definition sample_rand :: "unit \<Rightarrow> int \<Rightarrow> int option \<times> unit" where
  "sample_rand s n = ((if 3 < n then Some 3 else None), s)"

definition sample_read :: "unit \<Rightarrow> int \<times> unit" where
  "sample_read s = (7, s)"

lemma sample_rand_ok: "draws_below sample_rand"
  by (auto simp: draws_below_def sample_rand_def split: if_splits)

lemma sample_roll:
  obtains result where
    "Roll id (crypto_Roll sample_rand sample_read) '' 2d6kh1 - D2'' () = Inr (result, ())"
    and "list_all (\<lambda>t. term_Constant t = None) (r_Terms result)" and "r_Total result = 2"
proof -
  have "case Roll id (crypto_Roll sample_rand sample_read) '' 2d6kh1 - D2'' () of
      Inl _ \<Rightarrow> False
    | Inr (result, _) \<Rightarrow> list_all (\<lambda>t. term_Constant t = None) (r_Terms result) \<and> r_Total result = 2"
    by code_simp
  then show ?thesis using that by (auto split: sum.splits)
qed

theorem roll_bounds_witness:
  "\<exists>result. Roll id (crypto_Roll sample_rand sample_read) '' 2d6kh1 - D2'' () = Inr (result, ()) \<and>
     dice_count (r_Terms result) \<le> MaxDice"
  by (rule sample_roll) (use roll_bounds [OF sample_rand_ok] in blast)

text \<open>
  The total is the signed sum of the subtotals, reduced to a 64-bit integer; without
  constants it is the exact sum, because 200 dice of 1000 faces cannot leave the range.
\<close>

theorem roll_total_exact:
  assumes "draws_below rand_int"
    and "Roll ulower (crypto_Roll rand_int rand_read) expression source = Inr (result, source')"
  shows "r_Total result = wrap64 (signed_sum (r_Terms result)) \<and>
    (list_all (\<lambda>t. term_Constant t = None) (r_Terms result) \<longrightarrow> r_Total result = signed_sum (r_Terms result))"
proof -
  note ok = dice_source.Roll_ok [OF crypto_source [OF assms(1)] assms(2)]
  have "wrap64 (signed_sum (r_Terms result)) = signed_sum (r_Terms result)"
    if "list_all (\<lambda>t. term_Constant t = None) (r_Terms result)"
  proof -
    have "\<bar>signed_sum (r_Terms result)\<bar> \<le> 1000 * dice_count (r_Terms result)"
      using signed_sum_bound [of "r_Terms result"] ok that by (simp add: MaxFaces_def)
    also have "\<dots> \<le> 200000" using ok by (simp add: MaxDice_def)
    finally have "\<bar>signed_sum (r_Terms result)\<bar> \<le> 200000" .
    then show ?thesis by (intro wrap64_id) (auto simp: min_int64_def max_int64_def)
  qed
  with ok show ?thesis by simp
qed

theorem roll_total_exact_witness:
  "\<exists>result. Roll id (crypto_Roll sample_rand sample_read) '' 2d6kh1 - D2'' () = Inr (result, ()) \<and>
     r_Total result = signed_sum (r_Terms result)"
  by (rule sample_roll) (use roll_total_exact [OF sample_rand_ok] in blast)

text \<open>
  Constants are added modulo \<open>2 ^ 64\<close>: the largest integer plus one is the smallest one.
\<close>

theorem roll_total_wraps:
  "case Roll id fixed_Roll ''9223372036854775807+1'' \<lparr>fs_Values = [], fs_index = 0\<rparr> of
     Inl _ \<Rightarrow> False | Inr (result, _) \<Rightarrow> r_Total result = - 9223372036854775808"
  by code_simp

definition chosen :: "string \<Rightarrow> Die \<Rightarrow> bool" where
  "chosen mode d \<longleftrightarrow> die_Kept d = (mode = ''kh'' \<or> mode = ''kl'')"

text \<open>
  keeping the highest or lowest \<open>amount\<close> dice keeps that many (or all), dropping drops that
  many (or all), and no die outside the selection ranks before a selected one; values and
  faces do not change.
\<close>

theorem selection_correct:
  assumes "\<forall>d \<in> set dice. die_Kept d" and "0 \<le> amount"
  shows "map die_Value (applySelection dice mode amount) = map die_Value dice \<and>
    map die_Faces (applySelection dice mode amount) = map die_Faces dice \<and>
    int (length (filter (chosen mode) (applySelection dice mode amount))) = min (int (length dice)) amount \<and>
    (\<forall>a \<in> set (applySelection dice mode amount). \<forall>b \<in> set (applySelection dice mode amount).
      chosen mode a \<longrightarrow> \<not> chosen mode b \<longrightarrow>
      (if mode = ''kh'' \<or> mode = ''dh'' then die_Value b \<le> die_Value a else die_Value a \<le> die_Value b))"
proof (intro conjI ballI impI)
  show "int (length (filter (chosen mode) (applySelection dice mode amount))) = min (int (length dice)) amount"
    unfolding chosen_def by (rule selection_counts [OF assms])
next
  fix a b
  assume "a \<in> set (applySelection dice mode amount)" "b \<in> set (applySelection dice mode amount)"
    "chosen mode a" "\<not> chosen mode b"
  then show "if mode = ''kh'' \<or> mode = ''dh'' then die_Value b \<le> die_Value a else die_Value a \<le> die_Value b"
    unfolding chosen_def by - (rule selection_ranks [OF assms(1)])
qed (simp_all only: applySelection_def mark_kept_shape)

theorem selection_correct_witness:
  "int (length (filter (chosen ''kh'') (applySelection
     [\<lparr>die_Faces = 6, die_Value = 2, die_Kept = True\<rparr>, \<lparr>die_Faces = 6, die_Value = 5, die_Kept = True\<rparr>]
     ''kh'' 1))) = 1"
  using selection_correct [of "[\<lparr>die_Faces = 6, die_Value = 2, die_Kept = True\<rparr>,
     \<lparr>die_Faces = 6, die_Value = 5, die_Kept = True\<rparr>]" 1 "''kh''"] by simp

end
