(* ===== verification/Chat.thy ===== *)
theory Chat
  imports Intents AuthService Dice
begin

text \<open>
  Chat messages and dice rolls (\<open>internal/transport/ws/chat.go\<close>).  The clock, the random bytes of
  the message id and the source of dice are arguments; \<open>rfc3339\<close> is the formatting of a time by
  the standard library.
\<close>

definition KindMessage :: string where "KindMessage = ''message''"
definition maxMessageLen :: nat where "maxMessageLen = 2000"
definition AudiencePublic :: string where "AudiencePublic = ''public''"
definition AudienceGM :: string where "AudienceGM = ''gm''"

record ChatMessage =
  cm_ID :: string
  cm_Seq :: int
  cm_AuthorID :: string
  cm_Author :: string
  cm_At :: string
  cm_Text :: string
  cm_Key :: string
  cm_Params :: "json gomap"
  cm_Roll :: "Result option"
  cm_Audience :: string
  cm_Reason :: string

definition zero_message :: ChatMessage where
  "zero_message = \<lparr>cm_ID = [], cm_Seq = 0, cm_AuthorID = [], cm_Author = [], cm_At = [], cm_Text = [], cm_Key = [],
     cm_Params = [], cm_Roll = None, cm_Audience = [], cm_Reason = []\<rparr>"

section \<open>Marshalling\<close>

definition marshal_die :: "Die \<Rightarrow> json" where
  "marshal_die d = jobject [member ''faces'' (JInt (die_Faces d)), member ''value'' (JInt (die_Value d)),
     member ''kept'' (JBool (die_Kept d))]"

definition marshal_term :: "Term \<Rightarrow> json" where
  "marshal_term t = jobject [member ''sign'' (JInt (term_Sign t)), member ''expression'' (jstr (term_Expression t)),
     (if term_Dice t = [] then None else Some (''dice'', JArr (map marshal_die (term_Dice t)))),
     map_option (\<lambda>n. (''constant'', JInt n)) (term_Constant t), member ''subtotal'' (JInt (term_Subtotal t))]"

definition marshal_roll :: "Result \<Rightarrow> json" where
  "marshal_roll r = jobject [member ''expression'' (jstr (r_Expression r)), member ''terms'' (JArr (map marshal_term (r_Terms r))),
     member ''total'' (JInt (r_Total r))]"

definition marshal_message :: "ChatMessage \<Rightarrow> raw" where
  "marshal_message m = RawJson (jobject
     [member ''id'' (jstr (cm_ID m)), member ''seq'' (JInt (cm_Seq m)), member ''authorId'' (jstr (cm_AuthorID m)),
      member ''author'' (jstr (cm_Author m)), member ''at'' (jstr (cm_At m)), omit_string ''text'' (cm_Text m),
      omit_string ''key'' (cm_Key m),
      (if cm_Params m = [] then None else Some (''params'', JObj (cm_Params m))),
      map_option (\<lambda>r. (''roll'', marshal_roll r)) (cm_Roll m),
      member ''audience'' (jstr (cm_Audience m)), omit_string ''reason'' (cm_Reason m)])"

section \<open>Posting\<close>

definition audienceOf :: "string \<Rightarrow> Session \<Rightarrow> string" where
  "audienceOf requested s =
     (if requested = AudienceGM \<and> IsStaff (sub_Role (session_Subject s)) then AudienceGM else AudiencePublic)"

definition hears :: "Session \<Rightarrow> Member \<Rightarrow> bool" where
  "hears s m \<longleftrightarrow> m_Role m = ''gm'' \<or> m_Role m = ''assistant'' \<or> m_UserID m = ss_userID s"

text \<open>The nil slice of a public message is written as \<open>null\<close>.\<close>

definition marshal_audience :: "ID list \<Rightarrow> raw" where
  "marshal_audience audience = RawJson (if audience = [] then JNull else JArr (map jstr audience))"

definition message_event :: "Session \<Rightarrow> ChatMessage \<Rightarrow> raw \<Rightarrow> ID list \<Rightarrow> Event" where
  "message_event s message body audience = zero_event\<lparr>e_WorldID := ss_worldID s, e_ActorUserID := ss_userID s,
     e_Kind := ''chat.message'', e_TargetKind := KindMessage, e_TargetID := cm_ID message, e_Payload := body,
     e_Audience := marshal_audience audience\<rparr>"

definition message_document :: "Session \<Rightarrow> ChatMessage \<Rightarrow> raw \<Rightarrow> Document" where
  "message_document s message body = zero_document\<lparr>d_WorldID := ss_worldID s, d_ID := cm_ID message,
     d_Kind := KindMessage, d_Name := cm_Author message, d_Data := body,
     d_Ownership := RawJson (JObj [(''default'', JStr ''observer'')])\<rparr>"

definition message_tx :: "Session \<Rightarrow> ChatMessage \<Rightarrow> raw \<Rightarrow> Conn \<Rightarrow> DB \<Rightarrow> ((int \<times> ID list) \<times> DB) res" where
  "message_tx s message body c db =
     bind_res (if cm_Audience message = AudienceGM
         then bind_res (ListMembers c db (ss_worldID s)) (\<lambda>members. Inr (map m_UserID (filter (hears s) members)))
         else Inr []) (\<lambda>audience.
     bind_res (AppendEvent c (message_event s message body audience) db) (\<lambda>(seq, db).
     bind_res (PutDocument c (message_document s message body) db) (\<lambda>db.
     Inr ((seq, audience), db))))"

definition publishMessage ::
  "Conn \<Rightarrow> string \<Rightarrow> string \<Rightarrow> Session \<Rightarrow> ChatMessage \<Rightarrow> DB \<Rightarrow> IntentResult res \<times> DB \<times> Publication list" where
  "publishMessage c id_random stamp s message db =
     (let message = message\<lparr>cm_ID := GenerateID ''message'' id_random, cm_AuthorID := ss_userID s,
            cm_Author := DisplayName s, cm_At := stamp\<rparr>
      in case store_Tx c (message_tx s message (marshal_message message)) db of
           (Inl e, db) \<Rightarrow> (Inl e, db, [])
         | (Inr (seq, audience), db) \<Rightarrow>
             let final = marshal_message (message\<lparr>cm_Seq := seq\<rparr>)
             in (Inr \<lparr>ir_Seq = seq, ir_Result = final\<rparr>, db,
                 [(world_publication s)\<lparr>pb_Audience := audience,
                    pb_Frame := event_frame seq ''chat.message'' (ss_worldID s) [] final\<rparr>]))"

definition handleChatPost :: "Conn \<Rightarrow> string \<Rightarrow> string \<Rightarrow> handler" where
  "handleChatPost c id_random stamp s intent db =
     (let raw = it_Payload intent
      in if \<not> (struct_shape raw \<and> field_ok dec_string ''text'' raw \<and> field_ok dec_string ''audience'' raw)
         then (Inl malformed, db, [])
         else
           let text = trim_space (field_val dec_string [] ''text'' raw)
           in if text = [] then (Inl (NewIntentError CodeBadRequest ''core.chat.emptyMessage''), db, [])
              else publishMessage c id_random stamp s
                (zero_message\<lparr>cm_Text := (if length text > maxMessageLen then take maxMessageLen text else text),
                   cm_Audience := audienceOf (field_val dec_string [] ''audience'' raw) s\<rparr>) db)"

definition handleChatRoll ::
  "(string \<Rightarrow> string) \<Rightarrow> 's roller \<Rightarrow> 's \<Rightarrow> Conn \<Rightarrow> string \<Rightarrow> string \<Rightarrow> handler" where
  "handleChatRoll ulower roll source c id_random stamp s intent db =
     (let raw = it_Payload intent
      in if \<not> (struct_shape raw \<and> field_ok dec_string ''expression'' raw \<and> field_ok dec_string ''reason'' raw \<and>
           field_ok dec_string ''audience'' raw)
         then (Inl malformed, db, [])
         else case Roll ulower roll (field_val dec_string [] ''expression'' raw) source of
             Inl e \<Rightarrow>
               (Inl (if e = ErrTooManyDice then NewIntentError CodeBadRequest ''core.dice.tooManyDice''
                  else NewIntentError CodeBadRequest ''core.dice.malformedExpression''), db, [])
           | Inr (result, _) \<Rightarrow>
               publishMessage c id_random stamp s
                 (zero_message\<lparr>cm_Key := ''core.chat.rolled'',
                    cm_Params := [(''expression'', jstr (r_Expression result)), (''total'', JInt (r_Total result))],
                    cm_Roll := Some result,
                    cm_Reason := trim_space (field_val dec_string [] ''reason'' raw),
                    cm_Audience := audienceOf (field_val dec_string [] ''audience'' raw) s\<rparr>) db)"

section \<open>Who hears a message\<close>

lemma message_tx_Inr:
  "message_tx s message body c db = Inr ((seq, audience), db') \<longleftrightarrow>
     (\<exists>db1. (if cm_Audience message = AudienceGM
         then \<exists>members. ListMembers c db (ss_worldID s) = Inr members \<and> audience = map m_UserID (filter (hears s) members)
         else audience = []) \<and>
        AppendEvent c (message_event s message body audience) db = Inr (seq, db1) \<and>
        PutDocument c (message_document s message body) db1 = Inr db')"
  by (auto simp: message_tx_def res_simps)

lemma published_message:
  assumes "publishMessage c id_random stamp s message db = (Inr r, db', pubs)"
  obtains seq audience final where "message_tx s (message\<lparr>cm_ID := GenerateID ''message'' id_random, cm_AuthorID := ss_userID s,
        cm_Author := DisplayName s, cm_At := stamp\<rparr>)
      (marshal_message (message\<lparr>cm_ID := GenerateID ''message'' id_random, cm_AuthorID := ss_userID s,
        cm_Author := DisplayName s, cm_At := stamp\<rparr>)) (tx_conn c) db = Inr ((seq, audience), db')"
    and "pubs = [(world_publication s)\<lparr>pb_Audience := audience, pb_Frame := event_frame seq ''chat.message'' (ss_worldID s) [] final\<rparr>]"
    and "ir_Seq r = seq"
  using assms
  by (auto simp: publishMessage_def Let_def store_Tx_ok split: prod.splits sum.splits)

lemma AudienceGM_not_public: "AudienceGM \<noteq> AudiencePublic"
  by (simp add: AudienceGM_def AudiencePublic_def)

text \<open>A member hears a staff message exactly when staff or the author.\<close>

lemma gm_audience:
  assumes "db_ok db" and "ListMembers c db wid = Inr members" and "audience = map m_UserID (filter (hears s) members)"
  shows "uid \<in> set audience \<longleftrightarrow>
    (\<exists>m. row_get member_key (wid, uid) (t_members db) = Some m \<and> (IsStaff (m_Role m) \<or> uid = ss_userID s))"
proof -
  have staff: "IsStaff (m_Role m) \<longleftrightarrow> m_Role m = ''gm'' \<or> m_Role m = ''assistant''" for m
    by (simp add: IsStaff_def role_names)
  have "uid \<in> set audience \<longleftrightarrow> (\<exists>m. m \<in> set members \<and> m_UserID m = uid \<and> hears s m)"
    using assms(3) by auto
  then show ?thesis using ListMembers_iff [OF assms(1,2)] by (auto simp: hears_def staff dest: row_get_SomeD)
qed

lemma to_valid_strings: "string_elems (map jstr xs) = Some (map to_valid xs)"
  by (induction xs) (auto simp: jstr_def)

lemma audience_roundtrip:
  assumes "\<forall>x \<in> set audience. valid_utf8 x" and "audience \<noteq> []"
  shows "audienceAllows (marshal_audience audience) uid \<longleftrightarrow> uid \<in> set audience"
  using assms by (simp add: audienceAllows_def marshal_audience_def to_valid_strings list_ex_iff to_valid_id)

section \<open>The property of chat\<close>

text \<open>
  C19: a message for the game masters stays among them.  When a message with that audience is
  posted, no session the hub hands the frame to, and no session that catches up on the event
  later, belongs to anybody but a staff member of the world or the author (provided the author
  is still a member, and user ids are well-formed UTF-8).
\<close>

theorem gm_message_stays_private:
  assumes "db_ok db" and "cm_Audience message = AudienceGM"
    and "publishMessage c id_random stamp s message db = (Inr r, db', pubs)"
    and "row_get member_key (ss_worldID s, ss_userID s) (t_members db) = Some author"
    and "\<forall>m \<in> set (t_members db). valid_utf8 (m_UserID m)"
    and "(\<exists>p \<in> set pubs. \<exists>sid. frame_for p sid t \<noteq> None) \<or>
      (\<exists>e \<in> set (t_events db') - set (t_events db). audienceAllows (e_Audience e) (ss_userID t))"
  shows "\<exists>m. row_get member_key (ss_worldID s, ss_userID t) (t_members db) = Some m \<and>
    (IsStaff (m_Role m) \<or> ss_userID t = ss_userID s)"
proof -
  obtain seq audience final members db1 where
    members: "ListMembers (tx_conn c) db (ss_worldID s) = Inr members" and a: "audience = map m_UserID (filter (hears s) members)"
    and app: "AppendEvent (tx_conn c) (message_event s (message\<lparr>cm_ID := GenerateID ''message'' id_random, cm_AuthorID := ss_userID s,
        cm_Author := DisplayName s, cm_At := stamp\<rparr>)
      (marshal_message (message\<lparr>cm_ID := GenerateID ''message'' id_random, cm_AuthorID := ss_userID s,
        cm_Author := DisplayName s, cm_At := stamp\<rparr>)) audience) db = Inr (seq, db1)"
    and put: "t_events db' = t_events db1"
    and pubs: "pubs = [(world_publication s)\<lparr>pb_Audience := audience, pb_Frame := event_frame seq ''chat.message'' (ss_worldID s) [] final\<rparr>]"
    using assms(2) by (rule_tac published_message [OF assms(3)])
      (auto simp: message_tx_Inr PutDocument_def op_cases split: if_splits)
  note iff = gm_audience [OF assms(1) members a]
  have ne: "audience \<noteq> []" using iff [of "ss_userID s"] assms(4) by auto
  have valid: "\<forall>x \<in> set audience. valid_utf8 x"
  proof
    fix x assume "x \<in> set audience"
    then obtain m where "row_get member_key (ss_worldID s, x) (t_members db) = Some m" using iff by blast
    then have "m \<in> set (t_members db)" "m_UserID m = x" by (auto simp: member_key_def dest: row_get_SomeD)
    with assms(5) show "valid_utf8 x" by auto
  qed
  have "ss_userID t \<in> set audience"
  proof -
    obtain e where e: "t_events db1 = t_events db @ [e]" "e_Audience e = marshal_audience audience"
      by (rule AppendEvent_cases [OF app]) (auto simp: stored_event_def res_simps message_event_def jsonArg_def marshal_audience_def)
    then show ?thesis using assms(6) pubs put ne audience_roundtrip [OF valid ne]
      by (auto simp: frame_for_Some)
  qed
  then show ?thesis using iff by simp
qed

definition sample_secret :: "IntentResult res \<times> DB \<times> Publication list" where
  "sample_secret = publishMessage sample_conn ''abcde'' ''2024-01-01T00:00:00Z'' sample_gm
     (zero_message\<lparr>cm_Text := ''psst'', cm_Audience := AudienceGM\<rparr>) sample_members_db"

theorem gm_message_stays_private_witness:
  "\<exists>r db' p. sample_secret = (Inr r, db', [p]) \<and> frame_for p ''s1'' sample_gm \<noteq> None \<and>
     (\<exists>m. row_get member_key (''w'', ''g'') (t_members sample_members_db) = Some m \<and> (IsStaff (m_Role m) \<or> ''g'' = ''g''))"
proof -
  have "case sample_secret of (Inr r, db', [p]) \<Rightarrow> frame_for p ''s1'' sample_gm \<noteq> None | _ \<Rightarrow> False"
    by code_simp
  then obtain r db' p where e: "sample_secret = (Inr r, db', [p])" and f: "frame_for p ''s1'' sample_gm \<noteq> None"
    by (auto split: prod.splits sum.splits list.splits)
  have ids: "ss_worldID sample_gm = ''w''" "ss_userID sample_gm = ''g''"
    by (simp_all add: sample_gm_def sample_session_def Subscribe_def)
  have m: "\<exists>m. row_get member_key (ss_worldID sample_gm, ss_userID sample_gm) (t_members sample_members_db) = Some m"
    by (simp add: ids sample_members_db_def row_get_def member_key_def)
  have v: "\<forall>m \<in> set (t_members sample_members_db). valid_utf8 (m_UserID m)"
    by (simp add: sample_members_db_def rune_size_def)
  have a: "cm_Audience (zero_message\<lparr>cm_Text := ''psst'', cm_Audience := AudienceGM\<rparr>) = AudienceGM" by simp
  from m obtain author where "row_get member_key (ss_worldID sample_gm, ss_userID sample_gm) (t_members sample_members_db) = Some author" by blast
  from gm_message_stays_private [OF sample_members_db_ok a e [unfolded sample_secret_def] this v, of sample_gm] f
  show ?thesis using e ids by auto
qed

end
