(* ===== verification/Combat.thy ===== *)
theory Combat
  imports Intents Dice
begin

text \<open>
  The combat tracker (\<open>internal/transport/ws/combat.go\<close>).  The running combat is one document of
  the world, written and read back as JSON.  A slice of combatants is an \<open>option\<close>, because nil and
  empty are written differently; the source of dice is threaded through the rolls.  Stored JSON
  objects have no repeated members.
\<close>

definition KindCombat :: string where "KindCombat = ''combat''"
definition CombatDocumentID :: ID where "CombatDocumentID = ''combat''"
definition DefaultInitiative :: string where "DefaultInitiative = ''1d20''"
definition maxCombatants :: int where "maxCombatants = 60"

record Combatant =
  ct_ID :: string
  ct_Name :: string
  ct_Initiative :: int
  ct_Disposition :: string

record Combat =
  cb_Active :: bool
  cb_Round :: int
  cb_Turn :: int
  cb_Formula :: string
  cb_SceneID :: string
  cb_Combatants :: "Combatant list option"

definition combatants :: "Combat \<Rightarrow> Combatant list" where
  "combatants cb = (case cb_Combatants cb of None \<Rightarrow> [] | Some cs \<Rightarrow> cs)"

section \<open>The stored form\<close>

definition marshal_combatant :: "Combatant \<Rightarrow> json" where
  "marshal_combatant ct = JObj [(''id'', jstr (ct_ID ct)), (''name'', jstr (ct_Name ct)),
     (''initiative'', JInt (ct_Initiative ct)), (''disposition'', jstr (ct_Disposition ct))]"

definition marshal_combat :: "Combat \<Rightarrow> raw" where
  "marshal_combat cb = RawJson (JObj [(''active'', JBool (cb_Active cb)), (''round'', JInt (cb_Round cb)),
     (''turn'', JInt (cb_Turn cb)), (''formula'', jstr (cb_Formula cb)), (''sceneId'', jstr (cb_SceneID cb)),
     (''combatants'', case cb_Combatants cb of None \<Rightarrow> JNull | Some cs \<Rightarrow> JArr (map marshal_combatant cs))])"

definition dec_combatant :: "json \<Rightarrow> Combatant option" where
  "dec_combatant v =
     (let raw = RawJson v
      in if struct_shape raw \<and> field_ok dec_string ''id'' raw \<and> field_ok dec_string ''name'' raw \<and>
            field_ok dec_int ''initiative'' raw \<and> field_ok dec_string ''disposition'' raw
         then Some \<lparr>ct_ID = field_val dec_string [] ''id'' raw, ct_Name = field_val dec_string [] ''name'' raw,
           ct_Initiative = field_val dec_int 0 ''initiative'' raw,
           ct_Disposition = field_val dec_string [] ''disposition'' raw\<rparr>
         else None)"

definition dec_combatants :: "json \<Rightarrow> Combatant list option slot" where
  "dec_combatants v =
     (case v of
        JNull \<Rightarrow> Assign None
      | JArr vs \<Rightarrow>
          (if list_all (\<lambda>v. dec_combatant v \<noteq> None) vs
           then Assign (Some (map (\<lambda>v. the (dec_combatant v)) vs)) else Mismatch)
      | _ \<Rightarrow> Mismatch)"

definition unmarshal_combat :: "raw \<Rightarrow> Combat res" where
  "unmarshal_combat raw =
     (if struct_shape raw \<and> field_ok dec_bool ''active'' raw \<and> field_ok dec_int ''round'' raw \<and>
         field_ok dec_int ''turn'' raw \<and> field_ok dec_string ''formula'' raw \<and> field_ok dec_string ''sceneId'' raw \<and>
         field_ok dec_combatants ''combatants'' raw
      then Inr \<lparr>cb_Active = field_val dec_bool False ''active'' raw, cb_Round = field_val dec_int 0 ''round'' raw,
        cb_Turn = field_val dec_int 0 ''turn'' raw, cb_Formula = field_val dec_string [] ''formula'' raw,
        cb_SceneID = field_val dec_string [] ''sceneId'' raw,
        cb_Combatants = field_val dec_combatants None ''combatants'' raw\<rparr>
      else Inl ErrDecode)"

definition readCombat :: "Session \<Rightarrow> Conn \<Rightarrow> DB \<Rightarrow> Combat res" where
  "readCombat s c db =
     bind_res (GetDocument c db (ss_worldID s) CombatDocumentID) (\<lambda>document. unmarshal_combat (d_Data document))"

definition combatEventKind :: "bool \<Rightarrow> string" where
  "combatEventKind active = (if active then ''combat.update'' else ''combat.end'')"

definition combat_document :: "Session \<Rightarrow> raw \<Rightarrow> int \<Rightarrow> Document" where
  "combat_document s encoded seq = zero_document\<lparr>d_WorldID := ss_worldID s, d_ID := CombatDocumentID, d_Kind := KindCombat,
     d_Name := ''Combat'', d_Data := encoded, d_Ownership := RawJson (JObj [(''default'', JStr ''observer'')]), d_UpdatedSeq := seq\<rparr>"

definition commitCombat :: "Session \<Rightarrow> Combat \<Rightarrow> Conn \<Rightarrow> DB \<Rightarrow> (int \<times> DB) res" where
  "commitCombat s combat c db =
     (let encoded = marshal_combat combat
      in bind_res (AppendEvent c (document_event s (combatEventKind (cb_Active combat)) CombatDocumentID (cb_SceneID combat) encoded) db)
           (\<lambda>(seq, db). bind_res (PutDocument c (combat_document s encoded seq) db) (\<lambda>db. Inr (seq, db))))"

definition finishCombat :: "Session \<Rightarrow> (Combat \<times> int) res \<times> DB \<Rightarrow> IntentResult res \<times> DB \<times> Publication list" where
  "finishCombat s = (\<lambda>(outcome, db).
     case outcome of
       Inl e \<Rightarrow>
         (Inl (if e = ErrNoCombatants then NewIntentError CodeBadRequest ''core.combat.noCombatants''
               else if e = ErrNoCombat \<or> e = ErrNotFound then NewIntentError CodeNotFound ''core.combat.notRunning''
               else e), db, [])
     | Inr (combat, seq) \<Rightarrow>
         let encoded = marshal_combat combat
         in (Inr \<lparr>ir_Seq = seq, ir_Result = encoded\<rparr>, db,
             [(world_publication s)\<lparr>pb_Frame := event_frame seq (combatEventKind (cb_Active combat)) (ss_worldID s)
                (cb_SceneID combat) encoded\<rparr>]))"

section \<open>The handlers\<close>

definition requireStaff :: "Session \<Rightarrow> unit res" where
  "requireStaff s =
     (if \<not> IsStaff (sub_Role (session_Subject s)) then Inl (NewIntentError CodeForbidden ''core.intent.gameMasterOnly'')
      else Inr ())"

text \<open>Bytewise order of names is the order of strings; \<open>sort.SliceStable\<close> is a stable sort.\<close>

definition sortCombatants :: "Combatant list \<Rightarrow> Combatant list" where
  "sortCombatants cs = sort_key (\<lambda>ct. (- ct_Initiative ct, ct_Name ct)) cs"

fun roll_combatants ::
  "(string \<Rightarrow> string) \<Rightarrow> 's roller \<Rightarrow> string \<Rightarrow> Document list \<Rightarrow> 's \<Rightarrow> Combatant list res" where
  "roll_combatants ulower roll formula [] source = Inr []"
| "roll_combatants ulower roll formula (token # tokens) source =
     bind_res (Roll ulower roll formula source) (\<lambda>(result, source).
     bind_res (roll_combatants ulower roll formula tokens source) (\<lambda>cs.
     Inr (\<lparr>ct_ID = d_ID token, ct_Name = d_Name token, ct_Initiative = r_Total result,
       ct_Disposition = field_val dec_string [] ''disposition'' (d_Data token)\<rparr> # cs)))"

definition start_tx ::
  "(string \<Rightarrow> string) \<Rightarrow> 's roller \<Rightarrow> 's \<Rightarrow> Session \<Rightarrow> ID \<Rightarrow> string \<Rightarrow> Conn \<Rightarrow> DB \<Rightarrow> ((Combat \<times> int) \<times> DB) res" where
  "start_tx ulower roll source s sceneID formula c db =
     bind_res (ListDocuments c db (ss_worldID s) ((children_filter ''token'' sceneID)\<lparr>f_Limit := maxCombatants\<rparr>)) (\<lambda>tokens.
     if tokens = [] then Inl ErrNoCombatants
     else bind_res (roll_combatants ulower roll formula tokens source) (\<lambda>cs.
     let combat = \<lparr>cb_Active = True, cb_Round = 1, cb_Turn = 0, cb_Formula = formula, cb_SceneID = sceneID,
           cb_Combatants = Some (sortCombatants cs)\<rparr>
     in bind_res (commitCombat s combat c db) (\<lambda>(seq, db). Inr ((combat, seq), db))))"

definition handleCombatStart :: "(string \<Rightarrow> string) \<Rightarrow> 's roller \<Rightarrow> 's \<Rightarrow> Conn \<Rightarrow> handler" where
  "handleCombatStart ulower roll source c s intent db =
     (case requireStaff s of
        Inl e \<Rightarrow> (Inl e, db, [])
      | Inr _ \<Rightarrow>
          let raw = it_Payload intent
          in if \<not> (struct_shape raw \<and> field_ok dec_string ''sceneId'' raw \<and> field_ok dec_string ''formula'' raw)
             then (Inl malformed, db, [])
             else if field_val dec_string [] ''sceneId'' raw = []
             then (Inl (NewIntentError CodeBadRequest ''core.intent.missingSceneId''), db, [])
             else
               let trimmed = trim_space (field_val dec_string [] ''formula'' raw);
                   formula = (if trimmed = [] then DefaultInitiative else trimmed)
               in case Roll ulower roll formula source of
                    Inl _ \<Rightarrow> (Inl (NewIntentError CodeBadRequest ''core.dice.malformedExpression''), db, [])
                  | Inr (_, source) \<Rightarrow>
                      finishCombat s (store_Tx c
                        (start_tx ulower roll source s (field_val dec_string [] ''sceneId'' raw) formula) db))"

definition advance :: "Combat \<Rightarrow> Combat" where
  "advance loaded =
     (let turn = wrap64 (cb_Turn loaded + 1)
      in if turn \<ge> int (length (combatants loaded))
         then loaded\<lparr>cb_Turn := 0, cb_Round := wrap64 (cb_Round loaded + 1)\<rparr>
         else loaded\<lparr>cb_Turn := turn\<rparr>)"

definition next_tx :: "Session \<Rightarrow> Conn \<Rightarrow> DB \<Rightarrow> ((Combat \<times> int) \<times> DB) res" where
  "next_tx s c db =
     bind_res (readCombat s c db) (\<lambda>loaded.
     if \<not> cb_Active loaded \<or> combatants loaded = [] then Inl ErrNoCombat
     else bind_res (commitCombat s (advance loaded) c db) (\<lambda>(seq, db). Inr ((advance loaded, seq), db)))"

definition handleCombatNext :: "Conn \<Rightarrow> handler" where
  "handleCombatNext c s intent db =
     (case requireStaff s of
        Inl e \<Rightarrow> (Inl e, db, [])
      | Inr _ \<Rightarrow> finishCombat s (store_Tx c (next_tx s) db))"

definition end_tx :: "Session \<Rightarrow> Conn \<Rightarrow> DB \<Rightarrow> ((Combat \<times> int) \<times> DB) res" where
  "end_tx s c db =
     bind_res (readCombat s c db) (\<lambda>loaded.
     let combat = loaded\<lparr>cb_Active := False, cb_Combatants := None\<rparr>
     in bind_res (commitCombat s combat c db) (\<lambda>(seq, db). Inr ((combat, seq), db)))"

definition handleCombatEnd :: "Conn \<Rightarrow> handler" where
  "handleCombatEnd c s intent db =
     (case requireStaff s of
        Inl e \<Rightarrow> (Inl e, db, [])
      | Inr _ \<Rightarrow> finishCombat s (store_Tx c (end_tx s) db))"

section \<open>Reading back what was written\<close>

definition combatant_ok :: "Combatant \<Rightarrow> bool" where
  "combatant_ok ct \<longleftrightarrow> valid_utf8 (ct_ID ct) \<and> valid_utf8 (ct_Name ct) \<and> valid_utf8 (ct_Disposition ct) \<and>
     min_int64 \<le> ct_Initiative ct \<and> ct_Initiative ct \<le> max_int64"

definition combat_ok :: "Combat \<Rightarrow> bool" where
  "combat_ok cb \<longleftrightarrow> valid_utf8 (cb_Formula cb) \<and> valid_utf8 (cb_SceneID cb) \<and> list_all combatant_ok (combatants cb) \<and>
     int (length (combatants cb)) \<le> max_int64 \<and> min_int64 \<le> cb_Round cb \<and> cb_Round cb \<le> max_int64 \<and> min_int64 \<le> cb_Turn cb \<and> cb_Turn cb \<le> max_int64"

lemma combat_names:
  "fold_name ''active'' = ''active''" "fold_name ''round'' = ''round''" "fold_name ''turn'' = ''turn''"
  "fold_name ''formula'' = ''formula''" "fold_name ''sceneId'' = ''sceneid''" "fold_name ''combatants'' = ''combatants''"
  "fold_name ''id'' = ''id''" "fold_name ''name'' = ''name''" "fold_name ''initiative'' = ''initiative''"
  "fold_name ''disposition'' = ''disposition''"
  by code_simp+

lemmas field_defs = field_slots_def struct_members_def struct_shape_def field_ok_def field_val_def

lemma dec_marshal_combatant: "combatant_ok ct \<Longrightarrow> dec_combatant (marshal_combatant ct) = Some ct"
  by (simp add: dec_combatant_def marshal_combatant_def combatant_ok_def field_defs combat_names jstr_def to_valid_id
      del: fold_name.simps)

lemma dec_marshal_combatants: "list_all combatant_ok cs \<Longrightarrow> dec_combatants (JArr (map marshal_combatant cs)) = Assign (Some cs)"
  by (auto simp: dec_combatants_def list_all_iff dec_marshal_combatant map_idI)

lemma combat_roundtrip_json: "combat_ok cb \<Longrightarrow> unmarshal_combat (marshal_combat cb) = Inr cb"
  by (cases "cb_Combatants cb")
    (simp_all add: unmarshal_combat_def marshal_combat_def combat_ok_def field_defs combat_names jstr_def to_valid_id
      dec_marshal_combatants combatants_def dec_combatants_def [of JNull] del: fold_name.simps)

lemma commitCombat_stored:
  assumes "commitCombat s cb c db = Inr (seq, db')"
  obtains d where "row_get doc_key (ss_worldID s, CombatDocumentID) (t_documents db') = Some d" and "d_Data d = marshal_combat cb"
proof -
  obtain db1 where put: "PutDocument c (combat_document s (marshal_combat cb) seq) db1 = Inr db'"
    using assms(1) by (auto simp: commitCombat_def Let_def res_simps)
  let ?doc = "combat_document s (marshal_combat cb) seq"
  obtain doc' where doc': "stored_document c ?doc = Inr doc'" "d_Data doc' = marshal_combat cb"
    by (simp add: stored_document_def combat_document_def zero_document_def jsonArg_def marshal_combat_def)
  have "doc_key ?doc = (ss_worldID s, CombatDocumentID)" by (simp add: combat_document_def doc_key_def)
  with get_after_put_document [OF put doc'(1)] show ?thesis
    using doc'(2) that by (auto simp: merge_document_def split: option.splits)
qed

lemma commitCombat_read:
  assumes "commitCombat s cb c db = Inr (seq, db')" and "combat_ok cb"
  shows "readCombat s c' db' = (if c_fails c' ''GetDocument'' then Inl (ErrDriver ''GetDocument'') else Inr cb)"
  by (rule commitCombat_stored [OF assms(1)])
    (simp add: combat_roundtrip_json [OF assms(2)] readCombat_def GetDocument_def stmt_def)

section \<open>Taking turns\<close>

lemma combatants_update [simp]:
  "combatants (cb\<lparr>cb_Turn := t\<rparr>) = combatants cb" "combatants (cb\<lparr>cb_Turn := t, cb_Round := r\<rparr>) = combatants cb"
  by (simp_all add: combatants_def)

lemma advance_steps:
  assumes "combat_ok cb" and "0 \<le> cb_Turn cb" "cb_Turn cb < int (length (combatants cb))"
    and "0 \<le> cb_Round cb" "cb_Round cb < max_int64"
  shows "cb_Turn (advance cb) = (cb_Turn cb + 1) mod int (length (combatants cb)) \<and>
    cb_Round (advance cb) = cb_Round cb + (cb_Turn cb + 1) div int (length (combatants cb)) \<and>
    combatants (advance cb) = combatants cb \<and> cb_Active (advance cb) = cb_Active cb \<and> combat_ok (advance cb)"
proof -
  have turn: "wrap64 (cb_Turn cb + 1) = cb_Turn cb + 1"
    using assms(1-3) by (intro wrap64_id) (auto simp: combat_ok_def max_int64_def min_int64_def)
  have round: "wrap64 (cb_Round cb + 1) = cb_Round cb + 1"
    using assms(4,5) by (intro wrap64_id) (auto simp: max_int64_def min_int64_def)
  have n: "int (length (combatants cb)) \<noteq> 0" using assms(2,3) by linarith
  show ?thesis
  proof (cases "cb_Turn cb + 1 = int (length (combatants cb))")
    case True
    then have "wrap64 (int (length (combatants cb))) = int (length (combatants cb))" using turn by simp
    with True show ?thesis using assms round n
      by (simp add: advance_def combat_ok_def max_int64_def min_int64_def)
  next
    case False
    then have "cb_Turn cb + 1 < int (length (combatants cb))" using assms(3) by simp
    then show ?thesis using assms turn
      by (simp add: advance_def combat_ok_def max_int64_def min_int64_def div_pos_pos_trivial mod_pos_pos_trivial)
  qed
qed

text \<open>A number of \<open>combat.next\<close> intents in a row, all answered with success.\<close>

fun next_turns :: "Conn \<Rightarrow> Session \<Rightarrow> Intent \<Rightarrow> nat \<Rightarrow> DB \<Rightarrow> DB option" where
  "next_turns c s intent 0 db = Some db"
| "next_turns c s intent (Suc k) db =
     (case handleCombatNext c s intent db of (Inr _, db', _) \<Rightarrow> next_turns c s intent k db' | _ \<Rightarrow> None)"

lemma next_tx_read:
  assumes "handleCombatNext c s intent db = (Inr r, db', pubs)" and "readCombat s c db = Inr cb" and "combat_ok (advance cb)"
  shows "readCombat s c db' = Inr (advance cb)" "cb_Active cb" "combatants cb \<noteq> []"
proof -
  have read: "readCombat s (tx_conn c) db = Inr cb" and ok: "\<not> c_fails c ''GetDocument''"
    using assms(2) by (auto simp: readCombat_def GetDocument_def stmt_def split: if_splits)
  obtain seq where seq: "commitCombat s (advance cb) (tx_conn c) db = Inr (seq, db')" and act: "cb_Active cb" "combatants cb \<noteq> []"
    using assms(1) read
    by (auto simp: handleCombatNext_def finishCombat_def next_tx_def store_Tx_ok res_simps Let_def
        split: sum.splits prod.splits if_splits)
  show "readCombat s c db' = Inr (advance cb)" using commitCombat_read [OF seq assms(3), of c] ok by simp
  show "cb_Active cb" "combatants cb \<noteq> []" by (fact act)+
qed

lemma turns_arith:
  assumes "0 \<le> t" "t < (n::int)"
  shows "((t + 1) mod n + int k) mod n = (t + int (Suc k)) mod n"
    and "(t + 1) div n + ((t + 1) mod n + int k) div n = (t + int (Suc k)) div n"
proof -
  have "t + int (Suc k) = (t + 1) + int k" by simp
  then show "((t + 1) mod n + int k) mod n = (t + int (Suc k)) mod n" by (simp only: mod_add_left_eq)
  have e: "t + int (Suc k) = ((t + 1) mod n + int k) + n * ((t + 1) div n)"
    using mult_div_mod_eq [of n "t + 1"] by simp
  have "n \<noteq> 0" using assms by simp
  then show "(t + 1) div n + ((t + 1) mod n + int k) div n = (t + int (Suc k)) div n"
    unfolding e by (rule div_mult_self2 [symmetric])
qed

section \<open>The properties of combat\<close>

text \<open>
  turns go round.  After any number of successful \<open>combat.next\<close> intents the stored combat has
  the same combatants in the same order, the turn has moved on by that number modulo the number
  of combatants, and the round by the number of times it passed the end.
\<close>

theorem combat_goes_round:
  assumes "readCombat s c db = Inr cb" and "combat_ok cb" and "0 \<le> cb_Turn cb" and "cb_Turn cb < int (length (combatants cb))"
    and "0 \<le> cb_Round cb" and "cb_Round cb + int k < max_int64" and "next_turns c s intent k db = Some db'"
  shows "\<exists>cb'. readCombat s c db' = Inr cb' \<and> combatants cb' = combatants cb \<and> cb_Active cb' = cb_Active cb \<and>
    cb_Turn cb' = (cb_Turn cb + int k) mod int (length (combatants cb)) \<and>
    cb_Round cb' = cb_Round cb + (cb_Turn cb + int k) div int (length (combatants cb))"
  using assms
proof (induction k arbitrary: db cb)
  case (Suc k)
  let ?n = "int (length (combatants cb))"
  obtain r db1 pubs where h: "handleCombatNext c s intent db = (Inr r, db1, pubs)" and rest: "next_turns c s intent k db1 = Some db'"
    using Suc.prems(7) by (auto split: prod.splits sum.splits)
  have "cb_Round cb < max_int64" using Suc.prems(6) by simp
  note a = advance_steps [OF Suc.prems(2-5) this]
  have read: "readCombat s c db1 = Inr (advance cb)" using next_tx_read(1) [OF h Suc.prems(1)] a by blast
  have n: "0 < ?n" using Suc.prems(3,4) by linarith
  have le: "(cb_Turn cb + 1) div ?n \<le> 1"
    using zdiv_mono1 [of "cb_Turn cb + 1" ?n ?n] Suc.prems(4) n by simp
  have "0 \<le> (cb_Turn cb + 1) div ?n" using Suc.prems(3) n by (simp add: pos_imp_zdiv_nonneg_iff)
  then have "\<exists>cb'. readCombat s c db' = Inr cb' \<and> combatants cb' = combatants (advance cb) \<and> cb_Active cb' = cb_Active (advance cb) \<and>
      cb_Turn cb' = (cb_Turn (advance cb) + int k) mod int (length (combatants (advance cb))) \<and>
      cb_Round cb' = cb_Round (advance cb) + (cb_Turn (advance cb) + int k) div int (length (combatants (advance cb)))"
    using a le n Suc.prems(5,6) by (intro Suc.IH [OF read _ _ _ _ _ rest]) auto
  with a turns_arith [OF Suc.prems(3,4), of k] show ?case by auto
qed simp

definition sample_fight :: Intent where
  "sample_fight = \<lparr>it_RequestID = 1, it_Kind = ''combat.start'', it_WorldID = ''w'', it_Payload =
     RawJson (JObj [(''sceneId'', JStr ''s'')])\<rparr>"

definition sample_started :: DB where
  "sample_started = fst (snd (handleCombatStart id fixed_Roll \<lparr>fs_Values = [1, 3, 12, 7], fs_index = 0\<rparr> sample_conn
     sample_gm sample_fight sample_scene_db))"

theorem combat_goes_round_witness:
  "\<exists>db' cb'. next_turns sample_conn sample_gm sample_fight 4 sample_started = Some db' \<and>
     readCombat sample_gm sample_conn db' = Inr cb' \<and> cb_Round cb' = 2 \<and> cb_Turn cb' = 1"
proof -
  have "case readCombat sample_gm sample_conn sample_started of
      Inl _ \<Rightarrow> False
    | Inr cb \<Rightarrow> combat_ok cb \<and> cb_Turn cb = 0 \<and> cb_Round cb = 1 \<and> int (length (combatants cb)) = 3"
    by code_simp
  then obtain cb where cb: "readCombat sample_gm sample_conn sample_started = Inr cb" "combat_ok cb"
    and v: "cb_Turn cb = 0" "cb_Round cb = 1" "int (length (combatants cb)) = 3"
    by (auto split: sum.splits)
  have "next_turns sample_conn sample_gm sample_fight 4 sample_started \<noteq> None" by code_simp
  then obtain db' where db': "next_turns sample_conn sample_gm sample_fight 4 sample_started = Some db'" by auto
  from combat_goes_round [OF cb _ _ _ _ this] v db' show ?thesis by (auto simp: max_int64_def)
qed

text \<open>
  starting a combat stores it in its first round at its first turn; its combatants are the
  tokens of the scene that are not deleted (at most 60), one each, highest initiative first and
  by name among equals.
\<close>

theorem combat_start_order:
  assumes "handleCombatStart ulower roll source c s intent db = (Inr r, db', pubs)"
  shows "\<exists>cb d tokens. ir_Result r = marshal_combat cb \<and>
    row_get doc_key (ss_worldID s, ''combat'') (t_documents db') = Some d \<and> d_Data d = marshal_combat cb \<and>
    cb_Active cb \<and> cb_Round cb = 1 \<and> cb_Turn cb = 0 \<and>
    ListDocuments (tx_conn c) db (ss_worldID s) ((children_filter ''token'' (cb_SceneID cb))\<lparr>f_Limit := 60\<rparr>) = Inr tokens \<and>
    mset (map ct_ID (combatants cb)) = mset (map d_ID tokens) \<and> tokens \<noteq> [] \<and>
    sorted (map (\<lambda>ct. (- ct_Initiative ct, ct_Name ct)) (combatants cb))"
proof -
  obtain source' sceneID formula cb seq where tx: "start_tx ulower roll source' s sceneID formula (tx_conn c) db = Inr ((cb, seq), db')"
    and r: "ir_Result r = marshal_combat cb"
    using assms(1)
    by (auto simp: handleCombatStart_def finishCombat_def Let_def store_Tx_ok
        split: sum.splits prod.splits if_splits)
  from tx obtain tokens cs where t: "ListDocuments (tx_conn c) db (ss_worldID s) ((children_filter ''token'' sceneID)\<lparr>f_Limit := 60\<rparr>) = Inr tokens"
    "tokens \<noteq> []" and cs: "roll_combatants ulower roll formula tokens source' = Inr cs"
    and cb: "cb = \<lparr>cb_Active = True, cb_Round = 1, cb_Turn = 0, cb_Formula = formula, cb_SceneID = sceneID,
           cb_Combatants = Some (sortCombatants cs)\<rparr>" and commit: "commitCombat s cb (tx_conn c) db = Inr (seq, db')"
    by (auto simp: start_tx_def maxCombatants_def res_simps Let_def split: if_splits)
  have "map ct_ID cs = map d_ID tokens" using cs
    by (induction tokens arbitrary: source' cs) (auto simp: res_simps)
  then have "mset (map ct_ID (combatants cb)) = mset (map d_ID tokens)"
    by (simp add: cb combatants_def sortCombatants_def mset_map [symmetric] del: mset_map)
       (metis mset_map mset_sort)
  moreover have "sorted (map (\<lambda>ct. (- ct_Initiative ct, ct_Name ct)) (combatants cb))"
    by (simp add: cb combatants_def sortCombatants_def)
  moreover obtain d where "row_get doc_key (ss_worldID s, CombatDocumentID) (t_documents db') = Some d" "d_Data d = marshal_combat cb"
    by (rule commitCombat_stored [OF commit])
  ultimately show ?thesis using t cb r by (auto simp: CombatDocumentID_def)
qed

theorem combat_start_order_witness:
  "\<exists>r db' pubs cb. handleCombatStart id fixed_Roll \<lparr>fs_Values = [1, 3, 12, 7], fs_index = 0\<rparr> sample_conn
      sample_gm sample_fight sample_scene_db = (Inr r, db', pubs) \<and> ir_Result r = marshal_combat cb \<and>
     sorted (map (\<lambda>ct. (- ct_Initiative ct, ct_Name ct)) (combatants cb))"
proof -
  have "case handleCombatStart id fixed_Roll \<lparr>fs_Values = [1, 3, 12, 7], fs_index = 0\<rparr> sample_conn
      sample_gm sample_fight sample_scene_db of (Inr _, _) \<Rightarrow> True | _ \<Rightarrow> False"
    by code_simp
  then obtain r db' pubs where e: "handleCombatStart id fixed_Roll \<lparr>fs_Values = [1, 3, 12, 7], fs_index = 0\<rparr> sample_conn
      sample_gm sample_fight sample_scene_db = (Inr r, db', pubs)"
    by (auto split: prod.splits sum.splits)
  from combat_start_order [OF this] e show ?thesis by blast
qed

end
