(* ===== verification/Doors.thy ===== *)
theory Doors
  imports Combat
begin

text \<open>
  Doors (\<open>internal/transport/ws/doors.go\<close>): a toggled door is stored, and every member gets the
  tokens that are in sight now.  \<open>parse\<close> is what the JSON decoder makes of a byte string; the code
  builds one payload by concatenation.
\<close>

record DoorState =
  ds_WallID :: string
  ds_SceneID :: string
  ds_DoorOpen :: bool
  ds_Seq :: int

definition marshal_door :: "DoorState \<Rightarrow> raw" where
  "marshal_door ds = RawJson (jobject [member ''wallId'' (jstr (ds_WallID ds)), member ''sceneId'' (jstr (ds_SceneID ds)),
     member ''doorOpen'' (JBool (ds_DoorOpen ds)), member ''seq'' (JInt (ds_Seq ds))])"

text \<open>\<open>value, _ := data[key].(bool)\<close>\<close>

definition bool_at :: "json gomap \<Rightarrow> string \<Rightarrow> bool" where
  "bool_at data key = (case map_of data key of Some (JBool b) \<Rightarrow> b | _ \<Rightarrow> False)"

definition token_brief :: "Document \<Rightarrow> json res" where
  "token_brief d =
     bind_res (raw_member ''data'' (d_Data d)) (\<lambda>data.
     Inr (jobject [member ''id'' (jstr (d_ID d)), member ''name'' (jstr (d_Name d)), omit_string ''img'' (d_Img d), data]))"

definition brief_for :: "Conn \<Rightarrow> DB \<Rightarrow> FieldPolicy \<Rightarrow> Subject \<Rightarrow> Document \<Rightarrow> Document option res" where
  "brief_for c db policy subject token =
     bind_res (resolver_Grant c db subject token) (\<lambda>grant. RedactDocument token subject grant policy)"

fun map_res :: "('a \<Rightarrow> 'b res) \<Rightarrow> 'a list \<Rightarrow> 'b list res" where
  "map_res f [] = Inr []"
| "map_res f (x # xs) = bind_res (f x) (\<lambda>y. bind_res (map_res f xs) (\<lambda>ys. Inr (y # ys)))"

definition visibility_frame ::
  "Conn \<Rightarrow> DB \<Rightarrow> FieldPolicy \<Rightarrow> Session \<Rightarrow> ID \<Rightarrow> int \<Rightarrow> Document list \<Rightarrow> Member \<Rightarrow> (ID \<times> Frame) option res" where
  "visibility_frame c db policy s sceneID seq tokens member' =
     (if \<not> Valid (m_Role member') then Inr None
      else
        let subject = \<lparr>sub_UserID = m_UserID member', sub_Role = m_Role member'\<rparr>
        in bind_res (VisibleTokens c db subject (ss_worldID s) sceneID tokens) (\<lambda>visible.
           bind_res (collect_res (brief_for c db policy subject) visible) (\<lambda>redacted.
           bind_res (map_res token_brief redacted) (\<lambda>briefs.
           Inr (Some (m_UserID member', event_frame seq ''scene.visibility'' (ss_worldID s) sceneID
             (RawJson (jobject [member ''sceneId'' (jstr sceneID), member ''tokens'' (JArr briefs)]))))))))"

definition visibilityFrames ::
  "Conn \<Rightarrow> DB \<Rightarrow> FieldPolicy \<Rightarrow> Session \<Rightarrow> ID \<Rightarrow> int \<Rightarrow> Frame gomap res" where
  "visibilityFrames c db policy s sceneID seq =
     bind_res (ListMembers c db (ss_worldID s)) (\<lambda>members.
     bind_res (ListDocuments c db (ss_worldID s) (children_filter ''token'' sceneID)) (\<lambda>tokens.
     bind_res (collect_res (visibility_frame c db policy s sceneID seq tokens) members) (\<lambda>frames.
     Inr (map_from frames))))"

definition toggled :: "json gomap \<Rightarrow> raw" where
  "toggled data = RawJson (JObj (map_put ''doorOpen'' (JBool (\<not> bool_at data ''doorOpen'')) data))"

definition door_tx ::
  "(string \<Rightarrow> raw) \<Rightarrow> FieldPolicy \<Rightarrow> Session \<Rightarrow> ID \<Rightarrow> Conn \<Rightarrow> DB \<Rightarrow> ((DoorState \<times> Frame gomap) \<times> DB) res" where
  "door_tx parse policy s wallID c db =
     bind_res (GetDocument c db (ss_worldID s) wallID) (\<lambda>wall.
     bind_res (unmarshal_map (d_Data wall)) (\<lambda>data.
     if \<not> bool_at data ''door'' then Inl ErrNotADoor
     else bind_res (AppendEvent c (document_event s ''scene.door.toggle'' (d_ID wall) (d_ParentID wall) (toggled data)) db)
       (\<lambda>(seq, db).
     bind_res (PutDocument c (wall\<lparr>d_Data := toggled data, d_UpdatedSeq := seq\<rparr>) db) (\<lambda>db.
     bind_res (AppendEvent c (document_event s ''scene.visibility'' (d_ParentID wall) (d_ParentID wall)
         (parse (''{\"sceneId\":\"'' @ d_ParentID wall @ ''\"}''))) db) (\<lambda>(visibilitySeq, db).
     bind_res (visibilityFrames c db policy s (d_ParentID wall) visibilitySeq) (\<lambda>perUser.
     Inr ((\<lparr>ds_WallID = d_ID wall, ds_SceneID = d_ParentID wall, ds_DoorOpen = \<not> bool_at data ''doorOpen'', ds_Seq = seq\<rparr>,
           perUser), db)))))))"

definition handleDoorToggle :: "(string \<Rightarrow> raw) \<Rightarrow> Conn \<Rightarrow> FieldPolicy \<Rightarrow> handler" where
  "handleDoorToggle parse c policy s intent db =
     (case requireStaff s of
        Inl e \<Rightarrow> (Inl e, db, [])
      | Inr _ \<Rightarrow>
          let raw = it_Payload intent
          in if \<not> (struct_shape raw \<and> field_ok dec_string ''wallId'' raw) then (Inl malformed, db, [])
             else if field_val dec_string [] ''wallId'' raw = []
             then (Inl (NewIntentError CodeBadRequest ''core.intent.missingDocumentId''), db, [])
             else
               (case store_Tx c (door_tx parse policy s (field_val dec_string [] ''wallId'' raw)) db of
                  (Inl e, db) \<Rightarrow>
                    (Inl (if e = ErrNotADoor then NewIntentError CodeBadRequest ''core.scene.notADoor''
                          else if e = ErrNotFound then NewIntentError CodeNotFound ''core.scene.unknownWall''
                          else e), db, [])
                | (Inr (state, perUser), db) \<Rightarrow>
                    let encoded = marshal_door state
                    in (Inr \<lparr>ir_Seq = ds_Seq state, ir_Result = encoded\<rparr>, db,
                        [(world_publication s)\<lparr>pb_Frame := event_frame (ds_Seq state) ''scene.door.toggle'' (ss_worldID s)
                           (ds_SceneID state) encoded\<rparr>,
                         (world_publication s)\<lparr>pb_PerUser := Some perUser\<rparr>])))"

section \<open>What a toggle does\<close>

lemma AppendEvent_docs:
  assumes "AppendEvent c event db = Inr (seq, db')"
  shows "t_documents db' = t_documents db" "t_members db' = t_members db" "length (t_events db') = Suc (length (t_events db))"
  by (rule AppendEvent_cases [OF assms]; simp)+

lemma PutDocument_others:
  assumes "PutDocument c doc db = Inr db'"
  shows "t_members db' = t_members db" "t_events db' = t_events db"
  using assms by (auto simp: PutDocument_def op_cases split: if_splits)

lemma put_document_data:
  assumes "PutDocument c doc db = Inr db'" and "d_Data doc = RawJson v"
  obtains d where "row_get doc_key (doc_key doc) (t_documents db') = Some d" and "d_Data d = RawJson v"
    and "\<And>k. k \<noteq> doc_key doc \<Longrightarrow> row_get doc_key k (t_documents db') = row_get doc_key k (t_documents db)"
proof -
  obtain doc' where doc': "stored_document c doc = Inr doc'" using assms(1) by (auto simp: PutDocument_def op_cases)
  then have "d_Data doc' = RawJson v" using assms(2) by (auto simp: stored_document_def op_cases jsonArg_def)
  then have "\<exists>d. row_get doc_key (doc_key doc) (t_documents db') = Some d \<and> d_Data d = RawJson v"
    using get_after_put_document [OF assms(1) doc', of "doc_key doc"] by (auto simp: merge_document_def split: option.splits)
  with get_after_put_document [OF assms(1) doc'] that show ?thesis by auto
qed

lemma door_tx_Inr:
  assumes "door_tx parse policy s wallID c db = Inr ((ds, frames), db')"
  obtains wall data seq db1 db2 vseq where "GetDocument c db (ss_worldID s) wallID = Inr wall"
    and "unmarshal_map (d_Data wall) = Inr data" and "bool_at data ''door''"
    and "AppendEvent c (document_event s ''scene.door.toggle'' (d_ID wall) (d_ParentID wall) (toggled data)) db = Inr (seq, db1)"
    and "PutDocument c (wall\<lparr>d_Data := toggled data, d_UpdatedSeq := seq\<rparr>) db1 = Inr db2"
    and "AppendEvent c (document_event s ''scene.visibility'' (d_ParentID wall) (d_ParentID wall)
         (parse (''{\"sceneId\":\"'' @ d_ParentID wall @ ''\"}''))) db2 = Inr (vseq, db')"
    and "visibilityFrames c db' policy s (d_ParentID wall) vseq = Inr frames"
    and "ds_DoorOpen ds = (\<not> bool_at data ''doorOpen'')"
  using assms that by (auto simp: door_tx_def res_simps split: if_splits)

lemma visibility_frame_for:
  assumes "db_ok db" and "visibilityFrames c db policy s sceneID seq = Inr frames" and "map_of frames uid = Some f"
  obtains m tokens visible redacted briefs where "row_get member_key (ss_worldID s, uid) (t_members db) = Some m"
    and "ListDocuments c db (ss_worldID s) (children_filter ''token'' sceneID) = Inr tokens"
    and "VisibleTokens c db \<lparr>sub_UserID = uid, sub_Role = m_Role m\<rparr> (ss_worldID s) sceneID tokens = Inr visible"
    and "collect_res (brief_for c db policy \<lparr>sub_UserID = uid, sub_Role = m_Role m\<rparr>) visible = Inr redacted"
    and "map_res token_brief redacted = Inr briefs"
    and "f = event_frame seq ''scene.visibility'' (ss_worldID s) sceneID
      (RawJson (jobject [member ''sceneId'' (jstr sceneID), member ''tokens'' (JArr briefs)]))"
proof -
  obtain members tokens fs where ms: "ListMembers c db (ss_worldID s) = Inr members"
    and ts: "ListDocuments c db (ss_worldID s) (children_filter ''token'' sceneID) = Inr tokens"
    and fs: "collect_res (visibility_frame c db policy s sceneID seq tokens) members = Inr fs" "frames = map_from fs"
    using assms(2) by (auto simp: visibilityFrames_def res_simps)
  have "(uid, f) \<in> set fs" using assms(3) fs(2) map_of_SomeD [of "rev fs"] by (simp add: map_of_from)
  then obtain m where m: "m \<in> set members" "visibility_frame c db policy s sceneID seq tokens m = Inr (Some (uid, f))"
    using collect_res_set [OF fs(1)] by auto
  then have uid: "m_UserID m = uid" by (auto simp: visibility_frame_def Let_def res_simps split: if_splits)
  have row: "row_get member_key (ss_worldID s, uid) (t_members db) = Some m"
    using ListMembers_iff [OF assms(1) ms] m(1) uid by blast
  from m(2) uid show ?thesis
    by (auto simp: visibility_frame_def Let_def res_simps split: if_splits intro: that [OF row ts])
qed

lemma visibility_frame_shows:
  assumes "db_ok db" and "visibilityFrames c db policy s sceneID vseq = Inr frames" and "map_of frames uid = Some f"
  shows "\<exists>m tokens visible redacted briefs seq.
       row_get member_key (ss_worldID s, uid) (t_members db) = Some m \<and>
       VisibleTokens c db \<lparr>sub_UserID = uid, sub_Role = m_Role m\<rparr> (ss_worldID s) sceneID tokens = Inr visible \<and>
       (\<forall>d \<in> set redacted. \<exists>token \<in> set visible. \<exists>grant.
          RedactDocument token \<lparr>sub_UserID = uid, sub_Role = m_Role m\<rparr> grant policy = Inr (Some d)) \<and>
       map_res token_brief redacted = Inr briefs \<and>
       f = event_frame seq ''scene.visibility'' (ss_worldID s) sceneID
         (RawJson (jobject [member ''sceneId'' (jstr sceneID), member ''tokens'' (JArr briefs)]))"
proof (rule visibility_frame_for [OF assms])
  fix m :: Member and tokens visible redacted briefs
  assume *: "collect_res (brief_for c db policy \<lparr>sub_UserID = uid, sub_Role = m_Role m\<rparr>) visible = Inr redacted"
  have "\<forall>d \<in> set redacted. \<exists>token \<in> set visible. \<exists>grant.
      RedactDocument token \<lparr>sub_UserID = uid, sub_Role = m_Role m\<rparr> grant policy = Inr (Some d)"
    using collect_res_set [OF *] by (auto simp: brief_for_def res_simps)
  moreover assume "row_get member_key (ss_worldID s, uid) (t_members db) = Some m"
    "VisibleTokens c db \<lparr>sub_UserID = uid, sub_Role = m_Role m\<rparr> (ss_worldID s) sceneID tokens = Inr visible"
    "map_res token_brief redacted = Inr briefs" "f = event_frame vseq ''scene.visibility'' (ss_worldID s) sceneID
       (RawJson (jobject [member ''sceneId'' (jstr sceneID), member ''tokens'' (JArr briefs)]))"
  ultimately show ?thesis by blast
qed

section \<open>The property of doors\<close>


definition sample_door :: Document where
  "sample_door = sample_wall\<lparr>d_Data := RawJson (JObj [(''blocksSight'', JBool True), (''door'', JBool True), (''x1'', JInt 1),
     (''x2'', JInt 1), (''y1'', JInt 0), (''y2'', JInt 2)])\<rparr>"

definition sample_door_db :: DB where
  "sample_door_db = sample_members_db\<lparr>t_documents := [sample_door, sample_hero, sample_orc]\<rparr>"

definition sample_toggle :: Intent where
  "sample_toggle = \<lparr>it_RequestID = 1, it_Kind = ''scene.door.toggle'', it_WorldID = ''w'', it_Payload =
     RawJson (JObj [(''wallId'', JStr ''wall1'')])\<rparr>"

lemma sample_door_db_ok: "db_ok sample_door_db"
  using sample_members_db_ok
  by (simp add: db_ok_def sample_door_db_def gapless_def world_log_def keys_unique_def refers_def doc_key_def)
    (simp add: sample_members_db_def sample_door_def sample_wall_def sample_hero_def sample_orc_def sample_token_def sample_defs)


end
