(* ===== verification/Gateway.thy ===== *)
theory Gateway
  imports Chat Doors
begin

text \<open>
  The gateway (\<open>internal/transport/ws/gateway.go\<close>) puts the handlers into one router.  A server's
  handlers share what the outside world supplies: the connection, the field policy, the JSON
  decoder, the Unicode table, the source of dice, random bytes and the formatted time.
\<close>

record 's Supplies =
  sp_conn :: Conn
  sp_policy :: FieldPolicy
  sp_parse :: "string \<Rightarrow> raw"
  sp_ulower :: "string \<Rightarrow> string"
  sp_roll :: "'s roller"
  sp_source :: 's
  sp_random :: string
  sp_stamp :: string

definition RegisterCoreIntents :: "('s, 'm) Supplies_scheme \<Rightarrow> Router \<Rightarrow> Router" where
  "RegisterCoreIntents sp router =
     map_put ''scene.activate'' (handleSceneActivate (sp_conn sp))
      (map_put ''scene.token.move'' (handleTokenMove (sp_conn sp) (sp_policy sp))
        (map_put ''document.patch'' (handleDocumentPatch (sp_conn sp) (sp_policy sp)) router))"

definition RegisterChatIntents :: "('s, 'm) Supplies_scheme \<Rightarrow> Router \<Rightarrow> Router" where
  "RegisterChatIntents sp router =
     map_put ''chat.roll'' (handleChatRoll (sp_ulower sp) (sp_roll sp) (sp_source sp) (sp_conn sp) (sp_random sp) (sp_stamp sp))
      (map_put ''chat.post'' (handleChatPost (sp_conn sp) (sp_random sp) (sp_stamp sp)) router)"

definition RegisterCombatIntents :: "('s, 'm) Supplies_scheme \<Rightarrow> Router \<Rightarrow> Router" where
  "RegisterCombatIntents sp router =
     map_put ''combat.end'' (handleCombatEnd (sp_conn sp))
      (map_put ''combat.next'' (handleCombatNext (sp_conn sp))
        (map_put ''combat.start'' (handleCombatStart (sp_ulower sp) (sp_roll sp) (sp_source sp) (sp_conn sp)) router))"

definition RegisterDoorIntents :: "('s, 'm) Supplies_scheme \<Rightarrow> Router \<Rightarrow> Router" where
  "RegisterDoorIntents sp router =
     map_put ''scene.door.toggle'' (handleDoorToggle (sp_parse sp) (sp_conn sp) (sp_policy sp)) router"

definition NewGateway :: "('s, 'm) Supplies_scheme \<Rightarrow> Router" where
  "NewGateway sp = RegisterDoorIntents sp (RegisterCombatIntents sp (RegisterChatIntents sp (RegisterCoreIntents sp [])))"

section \<open>The connection\<close>

text \<open>
  The codec of a connection, from the \<open>format\<close> of its query, and the reason a connection is closed
  with, which the protocol limits in length.
\<close>

datatype Codec = JSONCodec | ProtoCodec

definition codecFor :: "bool \<Rightarrow> string \<Rightarrow> Codec" where
  "codecFor allowJSON format = (if format = ''json'' \<and> allowJSON then JSONCodec else ProtoCodec)"

definition closeReasonMax :: nat where "closeReasonMax = 120"

definition close_reason :: "string \<Rightarrow> string" where
  "close_reason reason = (if length reason > closeReasonMax then take closeReasonMax reason else reason)"

lemma readable_only_when_allowed: "codecFor allowJSON format = JSONCodec \<longleftrightarrow> allowJSON \<and> format = ''json''"
  by (auto simp: codecFor_def)

lemma close_reason_fits: "length (close_reason reason) \<le> closeReasonMax \<and> (\<exists>rest. reason = close_reason reason @ rest)"
proof (cases "length reason > closeReasonMax")
  case True
  then have "reason = close_reason reason @ drop closeReasonMax reason" by (simp add: close_reason_def)
  moreover have "length (close_reason reason) \<le> closeReasonMax" by (simp add: close_reason_def)
  ultimately show ?thesis by blast
qed (simp add: close_reason_def)

section \<open>Every handler keeps the store's invariant\<close>

definition keeps_store :: "handler \<Rightarrow> bool" where
  "keeps_store h \<longleftrightarrow> (\<forall>s intent db. db_ok db \<longrightarrow> db_ok (fst (snd (h s intent db))))"

lemma store_Tx_keeps:
  assumes "\<And>x db'. fn (tx_conn c) db = Inr (x, db') \<Longrightarrow> db_ok db'" and "db_ok db"
  shows "store_Tx c fn db = (r, db') \<Longrightarrow> db_ok db'"
  using assms by (auto simp: store_Tx_def split: if_splits sum.splits)

lemma patch_tx_keeps: "patch_tx policy s did patch kind payload c db = Inr (x, db') \<Longrightarrow> db_ok db \<Longrightarrow> db_ok db'"
  by (cases x) (auto simp: patch_tx_Inr dest!: AppendEvent_ok PatchDocument_ok)

lemma activate_tx_keeps: "activate_tx s sceneID c db = Inr (x, db') \<Longrightarrow> db_ok db \<Longrightarrow> db_ok db'"
  by (auto simp: activate_tx_def res_simps split: if_splits dest!: AppendEvent_ok PutWorld_ok)

lemma message_tx_keeps: "message_tx s message body c db = Inr (x, db') \<Longrightarrow> db_ok db \<Longrightarrow> db_ok db'"
  by (cases x) (auto simp: message_tx_Inr dest!: AppendEvent_ok PutDocument_ok)

lemma commitCombat_keeps: "commitCombat s cb c db = Inr (seq, db') \<Longrightarrow> db_ok db \<Longrightarrow> db_ok db'"
  by (auto simp: commitCombat_def Let_def res_simps dest!: AppendEvent_ok PutDocument_ok)

lemma combat_tx_keeps:
  "start_tx ulower roll source s sceneID formula c db = Inr (x, db') \<Longrightarrow> db_ok db \<Longrightarrow> db_ok db'"
  "next_tx s c db = Inr (x, db') \<Longrightarrow> db_ok db \<Longrightarrow> db_ok db'"
  "end_tx s c db = Inr (x, db') \<Longrightarrow> db_ok db \<Longrightarrow> db_ok db'"
  by (auto simp: start_tx_def next_tx_def end_tx_def res_simps Let_def split: if_splits dest!: commitCombat_keeps)

lemma door_tx_keeps: "door_tx parse policy s wallID c db = Inr (x, db') \<Longrightarrow> db_ok db \<Longrightarrow> db_ok db'"
  by (cases x) (auto elim!: door_tx_Inr dest!: AppendEvent_ok PutDocument_ok)

lemma applyPatch_keeps: "db_ok db \<Longrightarrow> db_ok (fst (snd (applyPatch c policy s did patch kind payload db)))"
  by (auto simp: applyPatch_def Let_def intro: patch_tx_keeps dest!: store_Tx_keeps [rotated 2]
      split: prod.splits sum.splits option.splits)

lemma publishMessage_keeps: "db_ok db \<Longrightarrow> db_ok (fst (snd (publishMessage c id_random stamp s message db)))"
  by (auto simp: publishMessage_def Let_def intro: message_tx_keeps dest!: store_Tx_keeps [rotated 2]
      split: prod.splits sum.splits)

lemma finishCombat_keeps:
  assumes "\<And>x db'. fn (tx_conn c) db = Inr (x, db') \<Longrightarrow> db_ok db'" and "db_ok db"
  shows "db_ok (fst (snd (finishCombat s (store_Tx c fn db))))"
proof -
  obtain r db' where "store_Tx c fn db = (r, db')" by fastforce
  with store_Tx_keeps [OF assms] show ?thesis
    by (auto simp: finishCombat_def Let_def split: sum.splits prod.splits)
qed

lemma handlers_keep:
  "keeps_store (handleDocumentPatch c policy)" "keeps_store (handleTokenMove c policy)"
  "keeps_store (handleChatPost c id_random stamp)" "keeps_store (handleChatRoll ulower roll source c id_random stamp)"
  "keeps_store (handleCombatNext c)" "keeps_store (handleCombatEnd c)"
  "keeps_store (handleCombatStart ulower roll source c)"
  by (auto simp: keeps_store_def handleDocumentPatch_def handleTokenMove_def handleChatPost_def handleChatRoll_def
      handleCombatNext_def handleCombatEnd_def handleCombatStart_def Let_def applyPatch_keeps publishMessage_keeps
      split: option.splits sum.splits prod.splits intro!: finishCombat_keeps dest: combat_tx_keeps)

lemma activate_keeps: "keeps_store (handleSceneActivate c)"
  by (auto simp: keeps_store_def handleSceneActivate_def Let_def intro: activate_tx_keeps dest!: store_Tx_keeps [rotated 2]
      split: option.splits sum.splits prod.splits)

lemma door_keeps: "keeps_store (handleDoorToggle parse c policy)"
  by (auto simp: keeps_store_def handleDoorToggle_def Let_def intro: door_tx_keeps dest!: store_Tx_keeps [rotated 2]
      split: sum.splits prod.splits)

section \<open>The read loop over a router\<close>

text \<open>The turns of the read loop for the messages that arrive, with everything they publish.\<close>

fun read_loop :: "Router \<Rightarrow> Frame res list \<Rightarrow> Session \<times> DB \<Rightarrow> Session \<times> DB \<times> Publication list" where
  "read_loop router [] (s, db) = (s, db, [])"
| "read_loop router (frame # frames) (s, db) =
     (case read_turn router frame (s, db) of (s, db, pubs) \<Rightarrow>
       (case read_loop router frames (s, db) of (s, db, later) \<Rightarrow> (s, db, pubs @ later)))"

text \<open>What the read loop needs of the handlers it calls.\<close>

locale store_keeping_router =
  fixes router :: Router
  assumes handlers: "map_of router kind = Some h \<Longrightarrow> keeps_store h"
begin

lemma handler_result: "map_of router kind = Some h \<Longrightarrow> db_ok db \<Longrightarrow> h s intent db = (r, db', pubs) \<Longrightarrow> db_ok db'"
  using handlers unfolding keeps_store_def by (metis fst_conv snd_conv)

lemma read_turn_keeps: "db_ok db \<Longrightarrow> read_turn router frame (s, db) = (s', db', pubs) \<Longrightarrow> db_ok db'"
  by (auto simp: read_turn_def handleIntent_def dest: handler_result
      split: sum.splits option.splits prod.splits if_splits)

lemma read_loop_keeps: "db_ok db \<Longrightarrow> read_loop router frames (s, db) = (s', db', pubs) \<Longrightarrow> db_ok db'"
proof (induction frames arbitrary: s db pubs)
  case (Cons frame frames)
  obtain s1 db1 p1 where 1: "read_turn router frame (s, db) = (s1, db1, p1)" by (metis prod_cases3)
  obtain p2 where "read_loop router frames (s1, db1) = (s', db', p2)"
    using Cons.prems(2) 1 by (auto split: prod.splits)
  with Cons.IH read_turn_keeps [OF Cons.prems(1) 1] show ?case by blast
qed simp

end

interpretation gateway: store_keeping_router "NewGateway sp" for sp :: "('s, 'm) Supplies_scheme"
proof
  fix kind h
  assume "map_of (NewGateway sp) kind = Some h"
  then show "keeps_store h"
    by (auto simp: NewGateway_def RegisterCoreIntents_def RegisterChatIntents_def RegisterCombatIntents_def
        RegisterDoorIntents_def handlers_keep activate_keeps door_keeps split: if_splits)
qed

section \<open>The property of the gateway\<close>


definition sample_supplies :: "FixedSource Supplies" where
  "sample_supplies = \<lparr>sp_conn = sample_conn, sp_policy = OpenPolicy, sp_parse = (\<lambda>_. RawNil), sp_ulower = id, sp_roll = fixed_Roll,
     sp_source = \<lparr>fs_Values = [], fs_index = 0\<rparr>, sp_random = ''abcde'', sp_stamp = ''now''\<rparr>"


end
