(* ===== verification/HttpApi.thy ===== *)
theory HttpApi
  imports AuthService Session
begin

text \<open>
  What the HTTP handlers share, and the handlers for accounts and tickets
  (\<open>internal/transport/httpapi/auth.go\<close>, \<open>writeJSON\<close> of \<open>router.go\<close>).  A handler is a
  function of the dependencies, what the environment supplies (\<open>Env\<close>: clock readings and
  random bytes), the request, the user \<open>withUser\<close> found for it, and the state it works on; it
  gives the response it writes and the state it leaves.  A \<open>Request\<close> holds the first JSON value
  of its body and the number of bytes the decoder has to read for it.
\<close>

definition SessionCookie :: string where "SessionCookie = ''tavora_session''"
definition maxBodyBytes :: int where "maxBodyBytes = 8192"

record AuthDeps =
  ad_Service :: Auth
  ad_Store :: Conn
  ad_Policy :: FieldPolicy
  ad_SecureCookies :: bool

record Request =
  rq_Cookie :: "string option"
  rq_RemoteAddr :: string
  rq_UserAgent :: string
  rq_TLS :: bool
  rq_Body :: raw
  rq_BodyBytes :: int

record Env =
  en_now :: time
  en_later :: time
  en_id :: string
  en_user_id :: string
  en_salt :: "string option"
  en_random :: "string option"
  en_login :: login_env

section \<open>Responses\<close>

record Cookie =
  ck_Name :: string
  ck_Value :: string
  ck_Path :: string
  ck_Expires :: time
  ck_MaxAge :: int
  ck_HttpOnly :: bool
  ck_Secure :: bool
  ck_SameSite :: string

datatype body = NoBody | JsonBody json | Content "(string \<times> string) list" string

record Response =
  rp_Status :: int
  rp_Cookie :: "Cookie option"
  rp_Body :: body

text \<open>
  \<open>writeJSON\<close> sends the status before it encodes, so a value that cannot be encoded leaves an
  empty body.
\<close>

definition writeJSON :: "int \<Rightarrow> json res \<Rightarrow> Response" where
  "writeJSON status v = \<lparr>rp_Status = status, rp_Cookie = None,
     rp_Body = (case v of Inl _ \<Rightarrow> NoBody | Inr v \<Rightarrow> JsonBody v)\<rparr>"

definition WriteHeader :: "int \<Rightarrow> Response" where
  "WriteHeader status = \<lparr>rp_Status = status, rp_Cookie = None, rp_Body = NoBody\<rparr>"

definition apiError :: "string \<Rightarrow> string \<Rightarrow> json res" where
  "apiError code messageKey = Inr (jobject [member ''code'' (jstr code), member ''messageKey'' (jstr messageKey)])"

definition internalError :: Response where
  "internalError = writeJSON 500 (apiError ''internal'' ''core.api.internalError'')"

definition issueCookie :: "AuthDeps \<Rightarrow> Request \<Rightarrow> string \<Rightarrow> time \<Rightarrow> Response \<Rightarrow> Response" where
  "issueCookie d rq token expires rp = rp\<lparr>rp_Cookie := Some \<lparr>ck_Name = SessionCookie, ck_Value = token,
     ck_Path = ''/'', ck_Expires = expires, ck_MaxAge = 0, ck_HttpOnly = True,
     ck_Secure = (ad_SecureCookies d \<or> rq_TLS rq), ck_SameSite = ''Lax''\<rparr>\<rparr>"

definition clearCookie :: "AuthDeps \<Rightarrow> Request \<Rightarrow> Response \<Rightarrow> Response" where
  "clearCookie d rq rp = rp\<lparr>rp_Cookie := Some \<lparr>ck_Name = SessionCookie, ck_Value = [],
     ck_Path = ''/'', ck_Expires = 0, ck_MaxAge = -1, ck_HttpOnly = True,
     ck_Secure = (ad_SecureCookies d \<or> rq_TLS rq), ck_SameSite = ''Lax''\<rparr>\<rparr>"

text \<open>A step of a handler either answers the request (\<open>Inl\<close>) or gives a value to go on with.\<close>

definition proceed :: "Response + 'a \<Rightarrow> 's \<Rightarrow> ('a \<Rightarrow> Response \<times> 's) \<Rightarrow> Response \<times> 's" where
  "proceed step st k = (case step of Inl rp \<Rightarrow> (rp, st) | Inr x \<Rightarrow> k x)"

lemma proceed_simps [simp]:
  "proceed (Inl rp) st k = (rp, st)"
  "proceed (Inr x) st k = k x"
  by (simp_all add: proceed_def)

definition answer :: "Response + Response \<Rightarrow> Response" where
  "answer step = (case step of Inl rp \<Rightarrow> rp | Inr rp \<Rightarrow> rp)"

section \<open>The user of a request\<close>

definition withUser :: "AuthDeps \<Rightarrow> time \<Rightarrow> Request \<Rightarrow> DB \<Rightarrow> User option \<times> DB" where
  "withUser d now rq db =
     (case rq_Cookie rq of
        None \<Rightarrow> (None, db)
      | Some value \<Rightarrow>
          if value = [] then (None, db)
          else case Authenticate (ad_Service d) (ad_Store d) now value db of
              (Inl _, db) \<Rightarrow> (None, db)
            | (Inr user, db) \<Rightarrow> (Some user, db))"

definition requireUser :: "User option \<Rightarrow> Response + User" where
  "requireUser user =
     (case user of
        None \<Rightarrow> Inl (writeJSON 401 (apiError ''unauthorized'' ''core.auth.signInRequired''))
      | Some u \<Rightarrow> Inr u)"

definition decodeBody :: "(raw \<Rightarrow> 'a option) \<Rightarrow> Request \<Rightarrow> Response + 'a" where
  "decodeBody unmarshal rq =
     (case if rq_BodyBytes rq > maxBodyBytes then None else unmarshal (rq_Body rq) of
        None \<Rightarrow> Inl (writeJSON 400 (apiError ''bad_request'' ''core.api.malformedBody''))
      | Some x \<Rightarrow> Inr x)"

text \<open>\<open>net.SplitHostPort\<close>, for the host; \<open>None\<close> is an error.\<close>

definition split_host :: "string \<Rightarrow> string option" where
  "split_host hp =
     (if CHR '':'' \<notin> set hp then None
      else if take 1 hp = ''['' then
        (let host = takeWhile (\<lambda>c. c \<noteq> CHR '']'') (drop 1 hp);
             rest = dropWhile (\<lambda>c. c \<noteq> CHR '']'') (drop 1 hp)
         in case rest of
              _ # CHR '':'' # port \<Rightarrow>
                if CHR '':'' \<in> set port \<or> CHR ''['' \<in> set (host @ port) \<or> CHR '']'' \<in> set port then None else Some host
            | _ \<Rightarrow> None)
      else
        (let host = takeWhile (\<lambda>c. c \<noteq> CHR '':'') hp;
             port = drop 1 (dropWhile (\<lambda>c. c \<noteq> CHR '':'') hp)
         in if CHR '':'' \<in> set port \<or> CHR ''['' \<in> set hp \<or> CHR '']'' \<in> set hp then None else Some host))"

definition clientAddr :: "Request \<Rightarrow> string" where
  "clientAddr rq = (case split_host (rq_RemoteAddr rq) of None \<Rightarrow> rq_RemoteAddr rq | Some host \<Rightarrow> host)"

section \<open>Dates\<close>

text \<open>
  \<open>Format(time.RFC3339)\<close> of a UTC time.  Days are counted from 1 March of the year 0, so that a
  leap day ends a year, a century and an era of 400 years.
\<close>

definition civil :: "int \<Rightarrow> int \<times> int \<times> int" where
  "civil days =
     (let z = days + 306;
          era = z div 146097;
          doe = z mod 146097;
          yoe = (doe - doe div 1460 + doe div 36524 - doe div 146096) div 365;
          doy = doe - (365 * yoe + yoe div 4 - yoe div 100);
          mp = (5 * doy + 2) div 153;
          d = doy - (153 * mp + 2) div 5 + 1;
          m = (if mp < 10 then mp + 3 else mp - 9)
      in (yoe + era * 400 + (if m \<le> 2 then 1 else 0), m, d))"

definition padded :: "nat \<Rightarrow> int \<Rightarrow> string" where
  "padded width n =
     (let ds = digits_of (nat \<bar>n\<bar>)
      in (if n < 0 then ''-'' else []) @ replicate (width - length ds) (CHR ''0'') @ ds)"

definition rfc3339 :: "time \<Rightarrow> string" where
  "rfc3339 t =
     (let s = t div second;
          (y, m, d) = civil (s div 86400);
          r = s mod 86400
      in padded 4 y @ ''-'' @ padded 2 m @ ''-'' @ padded 2 d @ ''T'' @
         padded 2 (r div 3600) @ '':'' @ padded 2 (r div 60 mod 60) @ '':'' @ padded 2 (r mod 60) @ ''Z'')"

section \<open>Accounts\<close>

record credentials =
  cr_Username :: string
  cr_Password :: string

definition unmarshal_credentials :: "raw \<Rightarrow> credentials option" where
  "unmarshal_credentials raw =
     (if struct_shape raw \<and> field_ok dec_string ''username'' raw \<and> field_ok dec_string ''password'' raw
      then Some \<lparr>cr_Username = field_val dec_string [] ''username'' raw,
        cr_Password = field_val dec_string [] ''password'' raw\<rparr>
      else None)"

definition identityOf :: "User \<Rightarrow> json res" where
  "identityOf user = Inr (jobject [member ''id'' (jstr (u_ID user)), member ''username'' (jstr (u_Username user)),
     member ''isAdmin'' (JBool (u_IsAdmin user)), omit_string ''locale'' (u_Locale user)])"

definition loginHandler ::
  "AuthDeps \<Rightarrow> Env \<Rightarrow> Request \<Rightarrow> Limiter \<times> DB \<Rightarrow> Response \<times> Limiter \<times> DB" where
  "loginHandler d env rq st =
     proceed (decodeBody unmarshal_credentials rq) st (\<lambda>body.
       case Login (ad_Service d) (ad_Store d) (en_login env) (cr_Username body) (cr_Password body)
         (clientAddr rq) (rq_UserAgent rq) st of
         (Inl e, st) \<Rightarrow>
           (if e = ErrRateLimited then writeJSON 429 (apiError ''rate_limited'' ''core.auth.tooManyAttempts'')
            else writeJSON 401 (apiError ''unauthorized'' ''core.auth.invalidCredentials''), st)
       | (Inr result, st) \<Rightarrow>
           (issueCookie d rq (lr_Token result) (lr_ExpiresAt result) (writeJSON 200 (identityOf (lr_User result))), st))"

definition logoutHandler :: "AuthDeps \<Rightarrow> Request \<Rightarrow> DB \<Rightarrow> Response \<times> DB" where
  "logoutHandler d rq db =
     (clearCookie d rq (WriteHeader 204),
      case rq_Cookie rq of None \<Rightarrow> db | Some value \<Rightarrow> snd (Logout (ad_Service d) (ad_Store d) value db))"

definition meHandler :: "User option \<Rightarrow> Response" where
  "meHandler user = answer (bind_res (requireUser user) (\<lambda>user. Inr (writeJSON 200 (identityOf user))))"

definition setupStateHandler :: "AuthDeps \<Rightarrow> DB \<Rightarrow> Response" where
  "setupStateHandler d db =
     (case NeedsSetup (ad_Store d) db of
        Inl _ \<Rightarrow> internalError
      | Inr needed \<Rightarrow> writeJSON 200 (Inr (jobject [member ''needsSetup'' (JBool needed)])))"

definition setup_tx :: "AuthDeps \<Rightarrow> Env \<Rightarrow> Request \<Rightarrow> credentials \<Rightarrow> Conn \<Rightarrow> DB \<Rightarrow> ((User \<times> string \<times> time) \<times> DB) res" where
  "setup_tx d env rq body c db =
     bind_res (BuildUser (ad_Service d) (en_salt env) (en_user_id env) (en_now env)
       (cr_Username body) (cr_Password body) True) (\<lambda>built.
     if u_PasswordHash built = [] then Inl ErrWeakPassword
     else
       bind_res (insertUser c built db) (\<lambda>db.
       bind_res (IssueSession (ad_Service d) c (en_random env) (en_later env) (u_ID built) (rq_UserAgent rq) db)
         (\<lambda>((token, expires), db). Inr ((built, token, expires), db))))"

definition account_error :: "go_error \<Rightarrow> Response" where
  "account_error e =
     (if e = ErrWeakPassword then writeJSON 400 (apiError ''weak_password'' ''core.auth.passwordTooShort'')
      else if e = ErrUsernameTaken then writeJSON 409 (apiError ''username_taken'' ''core.auth.usernameTaken'')
      else if e = ErrInvalidCredentials then writeJSON 400 (apiError ''bad_request'' ''core.auth.usernameRequired'')
      else internalError)"

definition setupHandler :: "AuthDeps \<Rightarrow> Env \<Rightarrow> Request \<Rightarrow> DB \<Rightarrow> Response \<times> DB" where
  "setupHandler d env rq db =
     (case NeedsSetup (ad_Store d) db of
        Inl _ \<Rightarrow> (internalError, db)
      | Inr needed \<Rightarrow>
          if \<not> needed then (writeJSON 409 (apiError ''already_configured'' ''core.setup.alreadyDone''), db)
          else proceed (decodeBody unmarshal_credentials rq) db (\<lambda>body.
            case store_Tx (ad_Store d) (setup_tx d env rq body) db of
              (Inl e, db) \<Rightarrow> (account_error e, db)
            | (Inr (user, token, expires), db) \<Rightarrow>
                (issueCookie d rq token expires (writeJSON 201 (identityOf user)), db)))"

section \<open>Connection tickets\<close>

definition unmarshal_world_id :: "raw \<Rightarrow> string option" where
  "unmarshal_world_id raw =
     (if struct_shape raw \<and> field_ok dec_string ''worldId'' raw then Some (field_val dec_string [] ''worldId'' raw) else None)"

definition notAMember :: Response where
  "notAMember = writeJSON 403 (apiError ''forbidden'' ''core.auth.notAMemberOfThisWorld'')"

definition ticketHandler :: "AuthDeps \<Rightarrow> Env \<Rightarrow> Request \<Rightarrow> User option \<Rightarrow> DB \<Rightarrow> TicketStore \<Rightarrow> Response \<times> TicketStore" where
  "ticketHandler d env rq user db tickets =
     proceed (requireUser user) tickets (\<lambda>user.
     proceed (decodeBody unmarshal_world_id rq) tickets (\<lambda>worldID.
       if worldID = [] then (writeJSON 400 (apiError ''bad_request'' ''core.api.missingWorldId''), tickets)
       else case store_ReadOnly (ad_Store d) (\<lambda>c db. GetMember c db worldID (u_ID user)) db of
           Inl _ \<Rightarrow> (notAMember, tickets)
         | Inr found \<Rightarrow>
             (case Issue (en_random env) (en_now env) (en_later env) (u_ID user) worldID (m_Role found) tickets of
                (Inl _, tickets) \<Rightarrow> (internalError, tickets)
              | (Inr (token, expires), tickets) \<Rightarrow>
                  (writeJSON 200 (Inr (jobject [member ''ticket'' (jstr token), member ''expiresAt'' (jstr (rfc3339 expires)),
                     member ''worldId'' (jstr worldID), member ''role'' (jstr (m_Role found))])), tickets))))"

section \<open>Lemmas\<close>

lemma status_simps [simp]:
  "rp_Status (writeJSON status v) = status" "rp_Status (WriteHeader status) = status"
  "rp_Status (issueCookie d rq token expires rp) = rp_Status rp" "rp_Status (clearCookie d rq rp) = rp_Status rp"
  "rp_Status internalError = 500" "rp_Status notAMember = 403"
  by (simp_all add: writeJSON_def WriteHeader_def issueCookie_def clearCookie_def internalError_def notAMember_def)

lemma cookie_simps [simp]:
  "rp_Cookie (writeJSON status v) = None"
  "map_option ck_Value (rp_Cookie (issueCookie d rq token expires rp)) = Some token"
  "map_option ck_Expires (rp_Cookie (issueCookie d rq token expires rp)) = Some expires"
  by (simp_all add: writeJSON_def issueCookie_def)

lemma account_error_status [simp]: "rp_Status (account_error e) \<noteq> 201" "rp_Status (account_error e) \<noteq> 200"
  by (simp_all add: account_error_def)

lemma requireUser_Inr [simp]: "requireUser user = Inr u \<longleftrightarrow> user = Some u"
  by (auto simp: requireUser_def split: option.splits)

lemma requireUser_Inl [simp]: "requireUser user = Inl rp \<longleftrightarrow>
    user = None \<and> rp = writeJSON 401 (apiError ''unauthorized'' ''core.auth.signInRequired'')"
  by (auto simp: requireUser_def split: option.splits)

lemma decodeBody_Inr: "decodeBody unmarshal rq = Inr x \<longleftrightarrow> rq_BodyBytes rq \<le> maxBodyBytes \<and> unmarshal (rq_Body rq) = Some x"
  by (auto simp: decodeBody_def split: option.splits)

lemma decodeBody_Inl: "decodeBody unmarshal rq = Inl rp \<Longrightarrow> rp_Status rp = 400"
  by (auto simp: decodeBody_def split: option.splits)

lemma NeedsSetup_Inr: "NeedsSetup c db = Inr b \<longleftrightarrow> \<not> c_fails c ''CountUsers'' \<and> b = (t_users db = [])"
  by (auto simp: NeedsSetup_def store_ReadOnly_def CountUsers_def res_simps)

lemma NeedsSetup_Inl: "NeedsSetup c db = Inl e \<Longrightarrow> c_fails c ''CountUsers''"
  by (auto simp: NeedsSetup_def store_ReadOnly_def CountUsers_def stmt_def res_simps split: if_splits)

lemma BuildUser_Inr:
  "BuildUser a salt raw now username password admin = Inr u \<Longrightarrow>
     u_ID u = ''user-'' @ randomID raw \<and> u_Username u = NormaliseUsername a username \<and> u_Username u \<noteq> [] \<and>
     u_IsAdmin u = admin \<and> u_CreatedAt u = now \<and> u_DisabledAt u = None"
  by (auto simp: BuildUser_def Let_def new_user_def res_simps split: if_splits)

lemma insertUser_Inr:
  "insertUser c u db = Inr db' \<longleftrightarrow>
     \<not> c_fails c ''GetUserByUsername'' \<and> row_get u_Username (u_Username u) (t_users db) = None \<and> PutUser c u db = Inr db'"
  by (auto simp: insertUser_def GetUserByUsername_def stmt_def split: option.splits sum.splits if_splits)

lemma IssueSession_Inr:
  "IssueSession a c random now uid agent db = Inr ((token, expires), db') \<longleftrightarrow>
     expires = now + au_sessionTTL a \<and> (\<exists>raw. random = Some raw \<and> token = base64_url raw) \<and>
     PutUserSession c (new_session a token now uid agent) db = Inr db'"
  by (auto simp: IssueSession_def newToken_def res_simps split: option.splits)

lemma fresh_session_authenticates:
  assumes "PutUserSession c (new_session a token now uid agent) db = Inr db'"
    and "row_get s_TokenHash (HashToken a token) (t_sessions db) = None"
    and "row_get u_ID uid (t_users db) = Some user" and "\<not> Disabled user"
    and "token \<noteq> []" and "reads_users c'" and "later \<le> now + au_sessionTTL a"
  shows "Authenticate a c' later token db' = (Inr user, db')"
  using put_session_fresh [OF assms(1)] assms(2-7)
  by (simp add: Authenticate_Inr) (simp add: new_session_def stored_session_def)

lemma setup_tx_Inr:
  assumes "setup_tx d env rq body c db = Inr ((user, token, expires), db')"
  obtains db1 where
    "BuildUser (ad_Service d) (en_salt env) (en_user_id env) (en_now env) (cr_Username body) (cr_Password body) True = Inr user"
    "u_PasswordHash user \<noteq> []" "insertUser c user db = Inr db1"
    "IssueSession (ad_Service d) c (en_random env) (en_later env) (u_ID user) (rq_UserAgent rq) db1 = Inr ((token, expires), db')"
  using assms by (auto simp: setup_tx_def res_simps split: if_splits)

section \<open>The properties of the account handlers\<close>

text \<open>
  C22: the setup request succeeds only while there is no account.  It then leaves exactly one, an
  enabled administrator of the normalised name with a password hash, and the cookie it sets
  authenticates as that account until it expires; from then on every setup request is refused,
  with 409 or, when counting the accounts fails, with 500, and changes nothing.
\<close>

theorem setup_once:
  assumes "setupHandler d env rq db = (rp, db')" and "rp_Status rp = 201"
    and "t_sessions db = []" and "en_now env \<noteq> 0" and "en_random env \<noteq> Some []" and "reads_users c"
  shows "t_users db = [] \<and>
    (\<exists>user token expires body. t_users db' = [user] \<and> u_IsAdmin user \<and> \<not> Disabled user \<and> u_PasswordHash user \<noteq> [] \<and>
       unmarshal_credentials (rq_Body rq) = Some body \<and>
       u_Username user = NormaliseUsername (ad_Service d) (cr_Username body) \<and>
       map_option ck_Value (rp_Cookie rp) = Some token \<and> map_option ck_Expires (rp_Cookie rp) = Some expires \<and>
       (\<forall>now. now \<le> expires \<longrightarrow> Authenticate (ad_Service d) c now token db' = (Inr user, db'))) \<and>
    (\<forall>d2 env2 rq2. rp_Status (fst (setupHandler d2 env2 rq2 db')) \<in> {409, 500} \<and> snd (setupHandler d2 env2 rq2 db') = db')"
proof -
  have empty: "t_users db = []"
    using assms(1,2) by (auto simp: setupHandler_def NeedsSetup_Inr split: sum.splits if_splits)
  obtain body where body: "unmarshal_credentials (rq_Body rq) = Some body" "decodeBody unmarshal_credentials rq = Inr body"
    using assms(1,2) decodeBody_Inl [of unmarshal_credentials rq]
    by (cases "decodeBody unmarshal_credentials rq")
      (auto simp: setupHandler_def decodeBody_Inr split: sum.splits if_splits)
  obtain user token expires where "store_Tx (ad_Store d) (setup_tx d env rq body) db = (Inr (user, token, expires), db')"
    and rp: "rp = issueCookie d rq token expires (writeJSON 201 (identityOf user))"
    using assms(1,2) body(2) by (cases "store_Tx (ad_Store d) (setup_tx d env rq body) db")
      (auto simp: setupHandler_def split: sum.splits if_splits)
  then have "setup_tx d env rq body (ad_Store d\<lparr>c_writable := True\<rparr>) db = Inr ((user, token, expires), db')"
    by (simp add: store_Tx_ok)
  then obtain db1 where b: "BuildUser (ad_Service d) (en_salt env) (en_user_id env) (en_now env)
        (cr_Username body) (cr_Password body) True = Inr user" "u_PasswordHash user \<noteq> []"
      and i: "insertUser (ad_Store d\<lparr>c_writable := True\<rparr>) user db = Inr db1"
      and se: "IssueSession (ad_Service d) (ad_Store d\<lparr>c_writable := True\<rparr>) (en_random env) (en_later env)
        (u_ID user) (rq_UserAgent rq) db1 = Inr ((token, expires), db')"
    by (rule setup_tx_Inr)
  note u = BuildUser_Inr [OF b(1)]
  have db1: "t_users db1 = [user]" "t_sessions db1 = []"
    using i empty assms(3,4) u
    by (auto simp: insertUser_Inr PutUser_def row_upsert_def stored_user_def split: if_splits)
  have put: "PutUserSession (ad_Store d\<lparr>c_writable := True\<rparr>)
      (new_session (ad_Service d) token (en_later env) (u_ID user) (rq_UserAgent rq)) db1 = Inr db'"
    and ex: "expires = en_later env + au_sessionTTL (ad_Service d)" and tok: "token \<noteq> []"
    using se assms(5) base64_url_inject [of _ "[]"] by (auto simp: IssueSession_Inr base64_url_def)
  have db': "t_users db' = [user]" using put db1 by (auto simp: PutUserSession_def split: if_splits)
  have "\<not> Disabled user" using u by (simp add: Disabled_def)
  moreover have "Authenticate (ad_Service d) c now token db' = (Inr user, db')" if "now \<le> expires" for now
    by (rule fresh_session_authenticates [OF put])
      (use that ex tok assms(6) db1 \<open>\<not> Disabled user\<close> in \<open>simp_all add: row_get_Cons\<close>)
  moreover have "rp_Status (fst (setupHandler d2 env2 rq2 db')) \<in> {409, 500} \<and> snd (setupHandler d2 env2 rq2 db') = db'"
    for d2 env2 rq2 using db' by (auto simp: setupHandler_def NeedsSetup_Inr split: sum.split)
  ultimately show ?thesis using empty db' u b body rp by auto
qed

definition sample_deps :: AuthDeps where
  "sample_deps = \<lparr>ad_Service = sample_auth, ad_Store = sample_conn, ad_Policy = OpenPolicy, ad_SecureCookies = True\<rparr>"

definition sample_http_env :: Env where
  "sample_http_env = \<lparr>en_now = 12, en_later = 13, en_id = ''abcdefgh'', en_user_id = ''01234567'',
     en_salt = Some ''salt'', en_random = Some ''0123456789'', en_login = sample_env\<rparr>"

definition sample_request :: "json \<Rightarrow> Request" where
  "sample_request v = \<lparr>rq_Cookie = None, rq_RemoteAddr = ''10.0.0.1:5000'', rq_UserAgent = ''agent'', rq_TLS = False,
     rq_Body = RawJson v, rq_BodyBytes = 60\<rparr>"

definition sample_setup :: "Response \<times> DB" where
  "sample_setup = setupHandler sample_deps sample_http_env
     (sample_request (JObj [(''username'', JStr '' Ann''), (''password'', JStr ''0123456789'')])) empty_db"

lemma sample_setup_status: "rp_Status (fst sample_setup) = 201"
  by code_simp

theorem setup_once_witness:
  "\<exists>user. t_users (snd sample_setup) = [user] \<and> u_IsAdmin user \<and>
     rp_Status (fst (setupHandler sample_deps sample_http_env (sample_request JNull) (snd sample_setup))) \<in> {409, 500}"
proof -
  have "reads_users sample_conn" by (simp add: reads_users_def sample_conn_def)
  then show ?thesis
    using setup_once [of sample_deps sample_http_env
        "sample_request (JObj [(''username'', JStr '' Ann''), (''password'', JStr ''0123456789'')])" empty_db
        "fst sample_setup" "snd sample_setup" sample_conn] sample_setup_status
    by (force simp: sample_setup_def empty_db_def sample_http_env_def)
qed

text \<open>
  C23: a ticket the API hands out opens a connection.  When a signed-in user asked for a ticket
  and got one, the user was a member of the world named in the request; a hello with that
  ticket before it expires is accepted, whatever other tickets were issued and redeemed
  meanwhile, as long as the user is then still a member with a known role.  The session
  acts as that user in that world with the role of that moment, and the ticket is used up.
\<close>

theorem ticket_then_connect:
  assumes ok: "tickets_ok tickets"
    and served: "ticketHandler d env rq (Some user) db tickets = (rp, tickets')" "rp_Status rp = 200"
    and sweep: "en_later env \<le> en_now env + ts_ttl tickets"
    and wid: "unmarshal_world_id (rq_Body rq) = Some wid" and raw: "en_random env = Some raw"
    and calls: "list_all (spares (base64_url raw) (en_now env + ts_ttl tickets)) calls"
    and hello: "fr_Type frame = TypeHello" "fr_Hello frame = Some hello" "h_ProtocolVersion hello = 1"
      "h_Ticket hello = base64_url raw" "h_WorldID hello = [] \<or> h_WorldID hello = wid"
    and now: "now \<le> en_now env + ts_ttl tickets"
    and role: "\<not> c_fails c ''GetMember''" "row_get member_key (wid, u_ID user) (t_members db2) = Some m" "Valid (m_Role m)"
  shows "(wid, u_ID user) \<in> member_key ` set (t_members db) \<and>
    (\<exists>v. rp_Body rp = JsonBody v \<and> json_at v [''ticket''] = Some (jstr (base64_url raw))) \<and>
    (\<exists>s' tickets''. authenticate c db2 now (Inr frame) (s, after_calls calls tickets') = (Inr hello, s', tickets'') \<and>
       ss_userID s' = u_ID user \<and> ss_worldID s' = wid \<and> ss_role s' = m_Role m \<and>
       map_of (ts_tickets tickets'') (base64_url raw) = None)"
proof -
  let ?tok = "base64_url raw" and ?exp = "en_now env + ts_ttl tickets"
  obtain w where w: "decodeBody unmarshal_world_id rq = Inr w"
    using served decodeBody_Inl [of unmarshal_world_id rq]
    by (cases "decodeBody unmarshal_world_id rq") (auto simp: ticketHandler_def requireUser_def)
  then have w: "decodeBody unmarshal_world_id rq = Inr wid" using wid by (simp add: decodeBody_Inr)
  obtain m0 where m0: "store_ReadOnly (ad_Store d) (\<lambda>c db. GetMember c db wid (u_ID user)) db = Inr m0"
    using served w by (cases "store_ReadOnly (ad_Store d) (\<lambda>c db. GetMember c db wid (u_ID user)) db")
      (auto simp: ticketHandler_def requireUser_def split: if_splits)
  let ?t = "\<lparr>tk_UserID = u_ID user, tk_WorldID = wid, tk_Role = m_Role m0, tk_ExpiresAt = ?exp\<rparr>"
  have iss: "snd (Issue (en_random env) (en_now env) (en_later env) (u_ID user) wid (m_Role m0) tickets) = tickets'"
    and body: "\<exists>v. rp_Body rp = JsonBody v \<and> json_at v [''ticket''] = Some (jstr ?tok)"
    using served w m0 raw
    by (auto simp: ticketHandler_def requireUser_def Issue_def Let_def writeJSON_def jobject_def member_def List.map_filter_def
        split: if_splits)
  have "(wid, u_ID user) \<in> member_key ` set (t_members db)"
    using m0 by (auto simp: store_ReadOnly_def GetMember_def split: option.splits dest!: row_get_SomeD intro: rev_image_eqI)
  moreover have "tickets_ok tickets'"
    using after_call_ok [OF ok, of "CallIssue (en_random env) (en_now env) (en_later env) (u_ID user) wid (m_Role m0)"] iss by simp
  moreover have "map_of (ts_tickets tickets') ?tok = Some ?t"
    using iss raw sweep ok by (auto simp: Issue_def Let_def sweepLocked_def map_of_keep tickets_ok_def)
  ultimately have "Redeem now ?tok (after_calls calls tickets') = (Inr ?t, (after_calls calls tickets')
      \<lparr>ts_tickets := map_del ?tok (ts_tickets (after_calls calls tickets'))\<rparr>)"
    using present_stays_calls [of tickets' ?tok ?t calls] calls now by (simp add: Redeem_Inr)
  moreover have "resolveRole c db2 (s\<lparr>ss_userID := u_ID user, ss_worldID := wid\<rparr>) = Inr (m_Role m)"
    using role by (simp add: resolveRole_Inr)
  ultimately have "\<exists>s' tickets''. authenticate c db2 now (Inr frame) (s, after_calls calls tickets') = (Inr hello, s', tickets'') \<and>
       ss_userID s' = u_ID user \<and> ss_worldID s' = wid \<and> ss_role s' = m_Role m \<and> map_of (ts_tickets tickets'') ?tok = None"
    using hello by (auto simp: authenticate_Some Subscribe_def)
  with \<open>(wid, u_ID user) \<in> _\<close> body show ?thesis by blast
qed

definition sample_ticket_request :: Request where
  "sample_ticket_request = sample_request (JObj [(''worldId'', JStr ''w'')])"

definition sample_opening :: Hello where
  "sample_opening = sample_hello\<lparr>h_Ticket := base64_url ''0123456789''\<rparr>"

lemma sample_ticket_status:
  "rp_Status (fst (ticketHandler sample_deps sample_http_env sample_ticket_request
     (Some (sample_user\<lparr>u_ID := ''g''\<rparr>)) sample_members_db (NewTicketStore 50))) = 200"
  by code_simp

theorem ticket_then_connect_witness:
  "\<exists>rp tickets' s' tickets''.
     ticketHandler sample_deps sample_http_env sample_ticket_request
       (Some (sample_user\<lparr>u_ID := ''g''\<rparr>)) sample_members_db (NewTicketStore 50) = (rp, tickets') \<and>
     authenticate sample_conn sample_members_db 40 (Inr (frame_with 0 (Frame_Hello sample_opening)))
       (NewSession ''s1'' 4 4, tickets') = (Inr sample_opening, s', tickets'') \<and>
     ss_userID s' = ''g'' \<and> ss_role s' = RoleGM"
proof -
  obtain rp tickets' where t: "ticketHandler sample_deps sample_http_env sample_ticket_request
       (Some (sample_user\<lparr>u_ID := ''g''\<rparr>)) sample_members_db (NewTicketStore 50) = (rp, tickets')"
    by fastforce
  have "rp_Status rp = 200" using sample_ticket_status t by simp
  moreover have "unmarshal_world_id (rq_Body sample_ticket_request) = Some ''w''" by code_simp
  moreover have "row_get member_key (''w'', ''g'') (t_members sample_members_db) =
      Some \<lparr>m_WorldID = ''w'', m_UserID = ''g'', m_Role = RoleGM, m_JoinedAt = 1\<rparr>" by code_simp
  moreover have "Valid RoleGM" by code_simp
  ultimately show ?thesis
    using ticket_then_connect [OF _ t, of "''w''" "''0123456789''" "[]" "frame_with 0 (Frame_Hello sample_opening)"
        sample_opening 40 sample_conn sample_members_db _ "NewSession ''s1'' 4 4"] t
    by (fastforce simp: tickets_ok_def NewTicketStore_def sample_http_env_def empty_frame_def sample_opening_def
        sample_hello_def sample_conn_def after_calls_def)
qed

end
