(* ===== verification/Worlds.thy ===== *)
theory Worlds
  imports HttpApi
begin

text \<open>
  Worlds, members and invites over HTTP (\<open>internal/transport/httpapi/worlds.go\<close>).  The bodies
  of the transactions are definitions of their own, \<open>*_tx\<close>.
\<close>

definition DefaultInviteTTL :: duration where "DefaultInviteTTL = 7 * 24 * hour"
definition maxInviteTTL :: duration where "maxInviteTTL = 90 * 24 * hour"

section \<open>Membership\<close>

definition memberOf :: "AuthDeps \<Rightarrow> DB \<Rightarrow> ID \<Rightarrow> ID \<Rightarrow> Member res" where
  "memberOf d db worldID userID = store_ReadOnly (ad_Store d) (\<lambda>c db. GetMember c db worldID userID) db"

definition requireRole :: "AuthDeps \<Rightarrow> DB \<Rightarrow> User option \<Rightarrow> ID \<Rightarrow> bool \<Rightarrow> Response + User" where
  "requireRole d db user worldID gmOnly =
     bind_res (requireUser user) (\<lambda>user.
     case memberOf d db worldID (u_ID user) of
       Inl _ \<Rightarrow> Inl notAMember
     | Inr found \<Rightarrow>
         if gmOnly \<and> m_Role found \<noteq> RoleGM
         then Inl (writeJSON 403 (apiError ''forbidden'' ''core.auth.gameMasterOnly''))
         else Inr user)"

definition world_view :: "World \<Rightarrow> string \<Rightarrow> json" where
  "world_view w role = jobject [member ''id'' (jstr (w_ID w)), member ''slug'' (jstr (w_Slug w)),
     member ''title'' (jstr (w_Title w)), member ''systemId'' (jstr (w_SystemID w)), omit_string ''role'' role]"

fun members_of :: "Conn \<Rightarrow> DB \<Rightarrow> ID \<Rightarrow> World list \<Rightarrow> Member list res" where
  "members_of c db uid [] = Inr []"
| "members_of c db uid (w # ws) =
     bind_res (GetMember c db (w_ID w) uid) (\<lambda>m. bind_res (members_of c db uid ws) (\<lambda>ms. Inr (m # ms)))"

definition listWorldsHandler :: "AuthDeps \<Rightarrow> User option \<Rightarrow> DB \<Rightarrow> Response" where
  "listWorldsHandler d user db = answer (bind_res (requireUser user) (\<lambda>user.
     case store_ReadOnly (ad_Store d) (\<lambda>c db. bind_res (ListWorldsForUser c db (u_ID user)) (\<lambda>worlds.
         bind_res (members_of c db (u_ID user) worlds) (\<lambda>members. Inr (zip worlds members)))) db of
       Inl _ \<Rightarrow> Inl internalError
     | Inr rows \<Rightarrow> Inr (writeJSON 200 (Inr (JArr (map (\<lambda>(w, m). world_view w (m_Role m)) rows))))))"

section \<open>Slugs\<close>

definition slug_char :: "char \<Rightarrow> bool" where
  "slug_char r \<longleftrightarrow> (CHR ''a'' \<le> r \<and> r \<le> CHR ''z'') \<or> is_digit r"

text \<open>
  One turn of the loop of \<open>slugify\<close>, with \<open>builder\<close> and \<open>previousDash\<close>.  A character outside ASCII
  is a run of bytes none of which is a letter or digit, so going byte by byte adds the same
  single dash.
\<close>

fun slug_turn :: "char \<Rightarrow> string \<times> bool \<Rightarrow> string \<times> bool" where
  "slug_turn r (builder, previousDash) =
     (if slug_char r then (builder @ [r], False)
      else if \<not> previousDash \<and> builder \<noteq> [] then (builder @ ''-'', True)
      else (builder, previousDash))"

definition trim_dashes :: "string \<Rightarrow> string" where
  "trim_dashes s = rev (dropWhile (\<lambda>c. c = CHR ''-'') (rev (dropWhile (\<lambda>c. c = CHR ''-'') s)))"

definition slugify :: "(string \<Rightarrow> string) \<Rightarrow> string \<Rightarrow> string \<Rightarrow> string" where
  "slugify ulower slug fallback =
     (let source = (if trim_space slug = [] then fallback else slug)
      in trim_dashes (fst (fold slug_turn (to_lower ulower (trim_space source)) ([], False))))"

definition takenSlugs :: "Conn \<Rightarrow> DB \<Rightarrow> bool gomap res" where
  "takenSlugs c db = bind_res (ListWorlds c db) (\<lambda>worlds. Inr (fold (\<lambda>w. map_put (w_Slug w) True) worlds []))"

definition candidate :: "string \<Rightarrow> nat \<Rightarrow> string" where
  "candidate base suffix = base @ ''-'' @ digits_of suffix"

lemma digits_of_inject: "digits_of m = digits_of n \<Longrightarrow> m = n"
  by (metis of_nat_eq_iff parse_digits_of)

lemma candidate_inject [simp]: "candidate base m = candidate base n \<longleftrightarrow> m = n"
  by (auto simp: candidate_def dest: digits_of_inject)

text \<open>
  The loop of \<open>nextFreeSlug\<close>: only finitely many slugs are taken, and each suffix gives another
  candidate, so a free one is found.
\<close>

definition taken_from :: "string \<Rightarrow> bool gomap \<Rightarrow> nat \<Rightarrow> string set" where
  "taken_from base taken suffix = {s \<in> dom (map_of taken). \<exists>k \<ge> suffix. s = candidate base k}"

lemma taken_from_less:
  assumes "map_of taken (candidate base suffix) = Some b"
  shows "card (taken_from base taken (Suc suffix)) < card (taken_from base taken suffix)"
proof (rule psubset_card_mono)
  show "finite (taken_from base taken suffix)"
    unfolding taken_from_def by (rule finite_subset [OF _ finite_dom_map_of [of taken]]) auto
  have "candidate base suffix \<in> taken_from base taken suffix - taken_from base taken (Suc suffix)"
    using assms by (auto simp: taken_from_def)
  moreover have "taken_from base taken (Suc suffix) \<subseteq> taken_from base taken suffix"
    using Suc_leD by (fastforce simp: taken_from_def)
  ultimately show "taken_from base taken (Suc suffix) \<subset> taken_from base taken suffix" by blast
qed

function free_from :: "string \<Rightarrow> bool gomap \<Rightarrow> nat \<Rightarrow> string" where
  "free_from base taken suffix =
     (if map_of taken (candidate base suffix) = Some True then free_from base taken (Suc suffix)
      else candidate base suffix)"
  by pat_completeness auto
termination
  by (relation "measure (\<lambda>(base, taken, suffix). card (taken_from base taken suffix))") (auto dest: taken_from_less)

declare free_from.simps [simp del]

definition nextFreeSlug :: "string \<Rightarrow> bool gomap \<Rightarrow> string" where
  "nextFreeSlug base taken = free_from base taken 2"

section \<open>Creating a world\<close>

record createWorldRequest =
  cw_Title :: string
  cw_Slug :: string
  cw_SystemID :: string

definition unmarshal_create_world :: "raw \<Rightarrow> createWorldRequest option" where
  "unmarshal_create_world raw =
     (if struct_shape raw \<and> field_ok dec_string ''title'' raw \<and> field_ok dec_string ''slug'' raw \<and>
         field_ok dec_string ''systemId'' raw
      then Some \<lparr>cw_Title = field_val dec_string [] ''title'' raw, cw_Slug = field_val dec_string [] ''slug'' raw,
        cw_SystemID = field_val dec_string [] ''systemId'' raw\<rparr>
      else None)"

definition new_world :: "Env \<Rightarrow> string \<Rightarrow> string \<Rightarrow> string \<Rightarrow> World" where
  "new_world env slug title systemID =
     \<lparr>w_ID = GenerateID ''world'' (en_id env), w_Slug = slug, w_Title = title, w_SystemID = systemID,
      w_SystemVersion = ''0.0.0'', w_DefaultLocale = [], w_ActiveScene = [], w_Settings = RawNil, w_EventSeq = 0,
      w_CreatedAt = en_now env, w_ArchivedAt = None\<rparr>"

definition new_member :: "ID \<Rightarrow> ID \<Rightarrow> string \<Rightarrow> Member" where
  "new_member worldID userID role = \<lparr>m_WorldID = worldID, m_UserID = userID, m_Role = role, m_JoinedAt = 0\<rparr>"

definition create_world_tx :: "bool \<Rightarrow> ID \<Rightarrow> World \<Rightarrow> Conn \<Rightarrow> DB \<Rightarrow> (World \<times> DB) res" where
  "create_world_tx chosen uid w c db =
     bind_res (takenSlugs c db) (\<lambda>taken.
     bind_res (if map_of taken (w_Slug w) = Some True
         then (if chosen then Inl ErrAlreadyExists else Inr (w\<lparr>w_Slug := nextFreeSlug (w_Slug w) taken\<rparr>))
         else Inr w) (\<lambda>w.
     bind_res (PutWorld c w db) (\<lambda>db.
     bind_res (PutMember c (new_member (w_ID w) uid RoleGM) db) (\<lambda>db.
     Inr (w, db)))))"

definition createWorldHandler :: "AuthDeps \<Rightarrow> Env \<Rightarrow> Request \<Rightarrow> User option \<Rightarrow> DB \<Rightarrow> Response \<times> DB" where
  "createWorldHandler d env rq user db =
     proceed (requireUser user) db (\<lambda>user.
     proceed (decodeBody unmarshal_create_world rq) db (\<lambda>body.
       let title = trim_space (cw_Title body);
           chosen = (trim_space (cw_Slug body) \<noteq> []);
           slug = slugify (au_ulower (ad_Service d)) (cw_Slug body) title
       in if title = [] \<or> slug = [] \<or> cw_SystemID body = []
          then (writeJSON 400 (apiError ''bad_request'' ''core.world.titleAndSystemRequired''), db)
          else case store_Tx (ad_Store d)
              (create_world_tx chosen (u_ID user) (new_world env slug title (cw_SystemID body))) db of
            (Inl e, db) \<Rightarrow>
              (if e = ErrAlreadyExists then writeJSON 409 (apiError ''slug_taken'' ''core.world.slugTaken'')
               else internalError, db)
          | (Inr w, db) \<Rightarrow> (writeJSON 201 (Inr (world_view w RoleGM)), db)))"

section \<open>Members\<close>

definition member_view :: "Conn \<Rightarrow> DB \<Rightarrow> Member \<Rightarrow> json" where
  "member_view c db m = jobject [member ''userId'' (jstr (m_UserID m)),
     member ''username'' (jstr (case GetUser c db (m_UserID m) of Inl _ \<Rightarrow> m_UserID m | Inr user \<Rightarrow> u_Username user)),
     member ''role'' (jstr (m_Role m))]"

definition listMembersHandler :: "AuthDeps \<Rightarrow> User option \<Rightarrow> ID \<Rightarrow> DB \<Rightarrow> Response" where
  "listMembersHandler d user worldID db = answer (bind_res (requireRole d db user worldID False) (\<lambda>_.
     case store_ReadOnly (ad_Store d) (\<lambda>c db. bind_res (ListMembers c db worldID) (\<lambda>members.
         Inr (map (member_view c db) members))) db of
       Inl _ \<Rightarrow> Inl internalError
     | Inr views \<Rightarrow> Inr (writeJSON 200 (Inr (JArr views)))))"

definition unmarshal_role :: "raw \<Rightarrow> string option" where
  "unmarshal_role raw =
     (if struct_shape raw \<and> field_ok dec_string ''role'' raw then Some (field_val dec_string [] ''role'' raw) else None)"

definition unknownRole :: Response where
  "unknownRole = writeJSON 400 (apiError ''bad_request'' ''core.world.unknownRole'')"

definition set_role_tx :: "ID \<Rightarrow> ID \<Rightarrow> string \<Rightarrow> Conn \<Rightarrow> DB \<Rightarrow> (unit \<times> DB) res" where
  "set_role_tx worldID target role c db =
     bind_res (GetUser c db target) (\<lambda>_.
     bind_res (PutMember c (new_member worldID target role) db) (\<lambda>db. Inr ((), db)))"

text \<open>The end of a handler whose transaction reports a missing row as 404.\<close>

definition done_or_missing :: "string \<Rightarrow> unit res \<times> DB \<Rightarrow> Response \<times> DB" where
  "done_or_missing messageKey = (\<lambda>(r, db).
     (case r of
        Inl e \<Rightarrow> if e = ErrNotFound then writeJSON 404 (apiError ''not_found'' messageKey) else internalError
      | Inr _ \<Rightarrow> WriteHeader 204, db))"

definition setMemberRoleHandler :: "AuthDeps \<Rightarrow> Request \<Rightarrow> User option \<Rightarrow> ID \<Rightarrow> ID \<Rightarrow> DB \<Rightarrow> Response \<times> DB" where
  "setMemberRoleHandler d rq user worldID target db =
     proceed (requireRole d db user worldID True) db (\<lambda>actor.
     proceed (decodeBody unmarshal_role rq) db (\<lambda>role.
       if \<not> Valid role then (unknownRole, db)
       else if target = u_ID actor \<and> role \<noteq> RoleGM
       then (writeJSON 409 (apiError ''would_lock_out'' ''core.world.cannotDemoteYourself''), db)
       else done_or_missing ''core.world.unknownUser'' (store_Tx (ad_Store d) (set_role_tx worldID target role) db)))"

definition remove_member_tx :: "ID \<Rightarrow> ID \<Rightarrow> Conn \<Rightarrow> DB \<Rightarrow> (unit \<times> DB) res" where
  "remove_member_tx worldID target c db = bind_res (DeleteMember c worldID target db) (\<lambda>db. Inr ((), db))"

definition removeMemberHandler :: "AuthDeps \<Rightarrow> User option \<Rightarrow> ID \<Rightarrow> ID \<Rightarrow> DB \<Rightarrow> Response \<times> DB" where
  "removeMemberHandler d user worldID target db =
     proceed (requireRole d db user worldID True) db (\<lambda>actor.
       if target = u_ID actor
       then (writeJSON 409 (apiError ''would_lock_out'' ''core.world.cannotRemoveYourself''), db)
       else done_or_missing ''core.world.notAMember'' (store_Tx (ad_Store d) (remove_member_tx worldID target) db))"

section \<open>Invites\<close>

record createInviteRequest =
  ci_Role :: string
  ci_MaxUses :: int
  ci_TTLSeconds :: int

definition unmarshal_create_invite :: "raw \<Rightarrow> createInviteRequest option" where
  "unmarshal_create_invite raw =
     (if struct_shape raw \<and> field_ok dec_string ''role'' raw \<and> field_ok dec_int ''maxUses'' raw \<and>
         field_ok dec_int ''ttlSeconds'' raw
      then Some \<lparr>ci_Role = field_val dec_string [] ''role'' raw, ci_MaxUses = field_val dec_int 0 ''maxUses'' raw,
        ci_TTLSeconds = field_val dec_int 0 ''ttlSeconds'' raw\<rparr>
      else None)"

text \<open>The product is one of 64-bit integers.\<close>

definition invite_ttl :: "int \<Rightarrow> duration" where
  "invite_ttl seconds =
     (let ttl = (if seconds > 0 then wrap64 (seconds * second) else DefaultInviteTTL)
      in if ttl > maxInviteTTL then maxInviteTTL else ttl)"

definition new_invite :: "AuthDeps \<Rightarrow> Env \<Rightarrow> ID \<Rightarrow> ID \<Rightarrow> string \<Rightarrow> createInviteRequest \<Rightarrow> Invite" where
  "new_invite d env worldID uid token body =
     \<lparr>i_ID = GenerateID ''invite'' (en_id env), i_TokenHash = HashToken (ad_Service d) token, i_WorldID = worldID,
      i_Role = (if ci_Role body = [] then RolePlayer else ci_Role body), i_CreatedBy = uid, i_CreatedAt = en_now env,
      i_ExpiresAt = en_later env + invite_ttl (ci_TTLSeconds body), i_MaxUses = max 0 (ci_MaxUses body), i_Uses = 0,
      i_RevokedAt = None\<rparr>"

definition invite_view :: "Invite \<Rightarrow> string \<Rightarrow> json" where
  "invite_view i token = jobject [member ''id'' (jstr (i_ID i)), member ''role'' (jstr (i_Role i)),
     member ''expiresAt'' (jstr (rfc3339 (i_ExpiresAt i))), member ''maxUses'' (JInt (i_MaxUses i)),
     member ''uses'' (JInt (i_Uses i)), member ''revoked'' (JBool (i_RevokedAt i \<noteq> None)), omit_string ''token'' token]"

definition put_invite_tx :: "Invite \<Rightarrow> Conn \<Rightarrow> DB \<Rightarrow> (unit \<times> DB) res" where
  "put_invite_tx i c db = bind_res (PutInvite c i db) (\<lambda>db. Inr ((), db))"

definition createInviteHandler :: "AuthDeps \<Rightarrow> Env \<Rightarrow> Request \<Rightarrow> User option \<Rightarrow> ID \<Rightarrow> DB \<Rightarrow> Response \<times> DB" where
  "createInviteHandler d env rq user worldID db =
     proceed (requireRole d db user worldID True) db (\<lambda>actor.
     proceed (decodeBody unmarshal_create_invite rq) db (\<lambda>body.
       if \<not> Valid (if ci_Role body = [] then RolePlayer else ci_Role body) then (unknownRole, db)
       else case newToken (en_random env) of
           Inl _ \<Rightarrow> (internalError, db)
         | Inr token \<Rightarrow>
             let i = new_invite d env worldID (u_ID actor) token body
             in case store_Tx (ad_Store d) (put_invite_tx i) db of
                  (Inl _, db) \<Rightarrow> (internalError, db)
                | (Inr _, db) \<Rightarrow> (writeJSON 201 (Inr (invite_view i token)), db)))"

definition listInvitesHandler :: "AuthDeps \<Rightarrow> User option \<Rightarrow> ID \<Rightarrow> DB \<Rightarrow> Response" where
  "listInvitesHandler d user worldID db = answer (bind_res (requireRole d db user worldID True) (\<lambda>_.
     case store_ReadOnly (ad_Store d) (\<lambda>c db. ListInvites c db worldID) db of
       Inl _ \<Rightarrow> Inl internalError
     | Inr invites \<Rightarrow> Inr (writeJSON 200 (Inr (JArr (map (\<lambda>i. invite_view i []) invites))))))"

definition revoke_invite_tx :: "ID \<Rightarrow> ID \<Rightarrow> Conn \<Rightarrow> DB \<Rightarrow> (unit \<times> DB) res" where
  "revoke_invite_tx worldID inviteID c db = bind_res (RevokeInvite c worldID inviteID db) (\<lambda>db. Inr ((), db))"

definition revokeInviteHandler :: "AuthDeps \<Rightarrow> User option \<Rightarrow> ID \<Rightarrow> ID \<Rightarrow> DB \<Rightarrow> Response \<times> DB" where
  "revokeInviteHandler d user worldID inviteID db =
     proceed (requireRole d db user worldID True) db (\<lambda>_.
       done_or_missing ''core.world.unknownInvite'' (store_Tx (ad_Store d) (revoke_invite_tx worldID inviteID) db))"

definition previewInviteHandler :: "AuthDeps \<Rightarrow> Env \<Rightarrow> string \<Rightarrow> DB \<Rightarrow> Response" where
  "previewInviteHandler d env token db =
     (case store_ReadOnly (ad_Store d) (\<lambda>c db.
          bind_res (GetInviteByTokenHash c db (HashToken (ad_Service d) token)) (\<lambda>invite.
          bind_res (GetWorld c db (i_WorldID invite)) (\<lambda>world. Inr (invite, world)))) db of
        Inl _ \<Rightarrow> writeJSON 404 (apiError ''not_found'' ''core.invite.unknown'')
      | Inr (invite, world) \<Rightarrow> writeJSON 200 (Inr (jobject [member ''worldTitle'' (jstr (w_Title world)),
          member ''role'' (jstr (i_Role invite)), member ''valid'' (JBool (Usable invite (en_now env)))])))"

text \<open>Who accepts: the signed-in user, or a new account with a new session.\<close>

definition accepting_user ::
  "AuthDeps \<Rightarrow> Env \<Rightarrow> Request \<Rightarrow> credentials \<Rightarrow> User option \<Rightarrow> Conn \<Rightarrow> DB \<Rightarrow> ((User \<times> (string \<times> time) option) \<times> DB) res" where
  "accepting_user d env rq body existing c db =
     (case existing of
        Some user \<Rightarrow> Inr ((user, None), db)
      | None \<Rightarrow>
          bind_res (BuildUser (ad_Service d) (en_salt env) (en_user_id env) (en_now env)
            (cr_Username body) (cr_Password body) False) (\<lambda>built.
          bind_res (insertUser c built db) (\<lambda>db.
          bind_res (IssueSession (ad_Service d) c (en_random env) (en_later env) (u_ID built) (rq_UserAgent rq) db)
            (\<lambda>(signed, db). Inr ((built, Some signed), db)))))"

definition accept_tx ::
  "AuthDeps \<Rightarrow> Env \<Rightarrow> Request \<Rightarrow> credentials \<Rightarrow> User option \<Rightarrow> string \<Rightarrow> Conn \<Rightarrow> DB \<Rightarrow>
     ((User \<times> (string \<times> time) option) \<times> DB) res" where
  "accept_tx d env rq body existing h c db =
     bind_res (GetInviteByTokenHash c db h) (\<lambda>invite.
     if \<not> Usable invite (en_now env) then Inl ErrInviteSpent
     else
       bind_res (accepting_user d env rq body existing c db) (\<lambda>((user, signed), db).
       bind_res (PutMember c (new_member (i_WorldID invite) (u_ID user) (i_Role invite)) db) (\<lambda>db.
       bind_res (ConsumeInvite c (i_WorldID invite) (i_ID invite) db) (\<lambda>db.
       Inr ((user, signed), db)))))"

definition accept_error :: "go_error \<Rightarrow> Response" where
  "accept_error e =
     (if e = ErrInviteSpent \<or> e = ErrNotFound then writeJSON 410 (apiError ''invite_spent'' ''core.invite.noLongerValid'')
      else account_error e)"

definition acceptInviteHandler :: "AuthDeps \<Rightarrow> Env \<Rightarrow> Request \<Rightarrow> User option \<Rightarrow> string \<Rightarrow> DB \<Rightarrow> Response \<times> DB" where
  "acceptInviteHandler d env rq existing token db =
     proceed (decodeBody unmarshal_credentials rq) db (\<lambda>body.
       case store_Tx (ad_Store d) (accept_tx d env rq body existing (HashToken (ad_Service d) token)) db of
         (Inl e, db) \<Rightarrow> (accept_error e, db)
       | (Inr (user, signed), db) \<Rightarrow>
           ((case signed of
               None \<Rightarrow> writeJSON 200 (identityOf user)
             | Some (token, expires) \<Rightarrow>
                 if token \<noteq> [] then issueCookie d rq token expires (writeJSON 200 (identityOf user))
                 else writeJSON 200 (identityOf user)), db))"

section \<open>Lemmas on slugs\<close>

lemma free_from_least:
  "\<exists>k \<ge> n. free_from base taken n = candidate base k \<and> map_of taken (candidate base k) \<noteq> Some True \<and>
     (\<forall>j. n \<le> j \<and> j < k \<longrightarrow> map_of taken (candidate base j) = Some True)"
proof (induction base taken n rule: free_from.induct)
  case (1 base taken n)
  show ?case
  proof (cases "map_of taken (candidate base n) = Some True")
    case True
    then obtain k where k: "k \<ge> Suc n" "free_from base taken n = candidate base k"
        "map_of taken (candidate base k) \<noteq> Some True"
        "\<forall>j. Suc n \<le> j \<and> j < k \<longrightarrow> map_of taken (candidate base j) = Some True"
      using 1 free_from.simps [of base taken n] by auto
    moreover have "map_of taken (candidate base j) = Some True" if "n \<le> j" "j < k" for j
      using that k(4) True by (cases "j = n") auto
    ultimately show ?thesis by (metis Suc_leD)
  qed (auto simp: free_from.simps [of base taken n])
qed

definition is_slug :: "string \<Rightarrow> bool" where
  "is_slug s \<longleftrightarrow> s \<noteq> [] \<and> list_all (\<lambda>c. slug_char c \<or> c = CHR ''-'') s \<and> hd s \<noteq> CHR ''-'' \<and> last s \<noteq> CHR ''-'' \<and>
     successively (\<lambda>a b. a \<noteq> CHR ''-'' \<or> b \<noteq> CHR ''-'') s"

text \<open>The builder of \<open>slugify\<close>: a slug, possibly followed by one dash.\<close>

fun slug_built :: "string \<times> bool \<Rightarrow> bool" where
  "slug_built (b, dash) \<longleftrightarrow> list_all (\<lambda>c. slug_char c \<or> c = CHR ''-'') b \<and> (b \<noteq> [] \<longrightarrow> hd b \<noteq> CHR ''-'') \<and>
     successively (\<lambda>a b. a \<noteq> CHR ''-'' \<or> b \<noteq> CHR ''-'') b \<and> (dash \<longleftrightarrow> b \<noteq> [] \<and> last b = CHR ''-'')"

lemma slug_char_not_dash [simp]: "\<not> slug_char (CHR ''-'')"
  by code_simp

lemma slug_turn_built: "slug_built st \<Longrightarrow> slug_built (slug_turn r st)"
  by (cases st; cases "slug_char r") (auto simp: successively_append_iff hd_append)

lemma slug_fold_built: "slug_built st \<Longrightarrow> slug_built (fold slug_turn rs st)"
  by (induction rs arbitrary: st) (auto simp: slug_turn_built simp del: slug_turn.simps)

lemma dropWhile_hd: "s \<noteq> [] \<Longrightarrow> \<not> P (hd s) \<Longrightarrow> dropWhile P s = s"
  by (cases s) auto

lemma trim_dashes_id: "s \<noteq> [] \<Longrightarrow> hd s \<noteq> CHR ''-'' \<Longrightarrow> last s \<noteq> CHR ''-'' \<Longrightarrow> trim_dashes s = s"
  by (simp add: trim_dashes_def dropWhile_hd hd_rev)

lemma trim_dashes_snoc:
  "s \<noteq> [] \<Longrightarrow> hd s \<noteq> CHR ''-'' \<Longrightarrow> last s \<noteq> CHR ''-'' \<Longrightarrow> trim_dashes (s @ ''-'') = s"
  by (simp add: trim_dashes_def dropWhile_hd hd_rev)

lemma trim_dashes_built:
  assumes "slug_built (b, dash)"
  shows "trim_dashes b = [] \<or> is_slug (trim_dashes b)"
proof (cases "b = [] \<or> \<not> dash")
  case True
  then have "trim_dashes b = b" using assms trim_dashes_id [of b] by (cases "b = []") (auto simp: trim_dashes_def)
  then show ?thesis using assms True by (auto simp: is_slug_def)
next
  case False
  then obtain c where b: "b = c @ ''-''" using assms by (cases b rule: rev_cases) auto
  have c: "c \<noteq> []" "last c \<noteq> CHR ''-''" using assms b by (auto simp: successively_append_iff)
  moreover from c(1) have "hd c \<noteq> CHR ''-''" using assms b by (cases c) simp_all
  ultimately have "trim_dashes b = c" by (simp add: b trim_dashes_snoc)
  then show ?thesis using assms b c by (auto simp: is_slug_def successively_append_iff)
qed

lemma slug_fold_kept:
  "slug_built (b @ s, e) \<Longrightarrow> dash = (b \<noteq> [] \<and> last b = CHR ''-'') \<Longrightarrow> fst (fold slug_turn s (b, dash)) = b @ s"
proof (induction s arbitrary: b dash)
  case (Cons r s)
  have turn: "slug_turn r (b, dash) = (b @ [r], r = CHR ''-'')"
  proof (cases "slug_char r")
    case False
    then have r: "r = CHR ''-''" using Cons.prems(1) by simp
    then have "b \<noteq> []" using Cons.prems(1) by (cases b) simp_all
    then have "last b \<noteq> CHR ''-''" using Cons.prems(1) by (simp add: r successively_append_iff)
    then show ?thesis using Cons.prems(2) \<open>b \<noteq> []\<close> by (simp add: r)
  next
    case True
    then have "r \<noteq> CHR ''-''" by (metis slug_char_not_dash)
    then show ?thesis using True by simp
  qed
  have "slug_built ((b @ [r]) @ s, e)" using Cons.prems(1) by (simp only: append_assoc append_Cons append_Nil)
  then have "fst (fold slug_turn s (b @ [r], r = CHR ''-'')) = (b @ [r]) @ s"
    by (rule Cons.IH) (simp del: slug_turn.simps)
  then show ?case by (simp add: turn del: slug_turn.simps)
qed simp

lemma strip_front_none:
  assumes "s \<noteq> []" and "\<forall>c \<in> set codes. c \<noteq> [] \<and> hd c \<noteq> hd s"
  shows "strip_front codes s = s"
proof -
  have "find (\<lambda>c. is_prefix c s) codes = None"
    using assms by (auto simp: find_None_iff is_prefix_def) (metis hd_take length_greater_0_conv)
  then show ?thesis by (simp add: strip_front.simps [of codes s] strip_one_def)
qed

lemma space_codes_foreign: "c \<in> set space_codes \<Longrightarrow> c \<noteq> [] \<and> \<not> slug_char (hd c) \<and> \<not> slug_char (last c)"
proof -
  have "list_all (\<lambda>c. c \<noteq> [] \<and> \<not> slug_char (hd c) \<and> \<not> slug_char (last c)) space_codes" by code_simp
  then show "c \<in> set space_codes \<Longrightarrow> c \<noteq> [] \<and> \<not> slug_char (hd c) \<and> \<not> slug_char (last c)" by (simp add: list_all_iff)
qed

lemma slug_ends: "is_slug s \<Longrightarrow> slug_char (hd s) \<and> slug_char (last s)"
  by (auto simp: is_slug_def list_all_iff)

lemma trim_space_slug: "is_slug s \<Longrightarrow> trim_space s = s"
proof -
  assume s: "is_slug s"
  then have "s \<noteq> []" by (simp add: is_slug_def)
  then have "strip_front space_codes s = s" "strip_front (map rev space_codes) (rev s) = rev s"
    using space_codes_foreign slug_ends [OF s] by (auto 0 3 intro!: strip_front_none simp: hd_rev) metis+
  then show ?thesis by (simp add: trim_space_def)
qed

lemma slug_char_code: "slug_char c \<or> c = CHR ''-'' \<Longrightarrow> (of_char c :: nat) < 128 \<and> lower_byte c = c"
  by (auto simp: slug_char_def is_digit_def less_eq_char_def lower_byte_def)

lemma to_lower_slug: "is_slug s \<Longrightarrow> to_lower ulower s = s"
  using slug_char_code by (auto simp: is_slug_def to_lower_def is_ascii_def list_all_iff intro!: map_idI)

lemma is_slug_candidate: "is_slug base \<Longrightarrow> is_slug (candidate base k)"
proof -
  assume b: "is_slug base"
  have d: "list_all slug_char (digits_of k)" "digits_of k \<noteq> []"
    using digits_of_digits digits_of_nonempty by (auto simp: list_all_iff slug_char_def)
  then have "CHR ''-'' \<notin> set (digits_of k)" by (auto simp: list_all_iff)
  then have "successively (\<lambda>a b. a \<noteq> CHR ''-'' \<or> b \<noteq> CHR ''-'') (digits_of k)"
    by (induction "digits_of k" rule: induct_list012) (auto simp: successively_conv_nth in_set_conv_nth)
  moreover have "hd (digits_of k) \<noteq> CHR ''-''" "last (digits_of k) \<noteq> CHR ''-''"
    using d(2) \<open>CHR ''-'' \<notin> set (digits_of k)\<close> by (metis hd_in_set, metis last_in_set)
  ultimately show ?thesis using b d
    by (auto simp: is_slug_def candidate_def successively_append_iff successively_Cons list_all_iff)
qed

section \<open>Lemmas on the handlers\<close>

lemma requireRole_Inr:
  "requireRole d db user wid gmOnly = Inr u \<longleftrightarrow>
     user = Some u \<and> \<not> c_fails (ad_Store d) ''GetMember'' \<and>
     (\<exists>m. row_get member_key (wid, u_ID u) (t_members db) = Some m \<and> (gmOnly \<longrightarrow> m_Role m = RoleGM))"
  by (auto simp: requireRole_def memberOf_def store_ReadOnly_def GetMember_def stmt_def res_simps requireUser_def
      split: sum.splits if_splits option.splits)

lemma requireRole_Inl: "requireRole d db user wid gmOnly = Inl rp \<Longrightarrow> rp_Status rp = 401 \<or> rp_Status rp = 403"
  by (cases user; cases "memberOf d db wid (u_ID (the user))") (auto simp: requireRole_def requireUser_def split: if_splits)

lemma takenSlugs_Inr:
  assumes "takenSlugs c db = Inr taken"
  shows "map_of taken s = (if s \<in> w_Slug ` set (t_worlds db) then Some True else None)"
proof -
  have "is_gomap (fold (\<lambda>w. map_put (w_Slug w) True) ws m) \<and>
      map_of (fold (\<lambda>w. map_put (w_Slug w) True) ws m) s = (if s \<in> w_Slug ` set ws then Some True else map_of m s)"
    if "is_gomap m" for ws :: "World list" and m
    using that by (induction ws arbitrary: m) auto
  from this [of "[]" "sort_key w_Title (t_worlds db)"] show ?thesis
    using assms by (auto simp: takenSlugs_def ListWorlds_def res_simps)
qed

lemma create_world_tx_Inr:
  assumes "create_world_tx chosen uid w c db = Inr (w', db')"
  obtains db1 where "PutWorld c w' db = Inr db1" "PutMember c (new_member (w_ID w) uid RoleGM) db1 = Inr db'"
    "w_Slug w' \<notin> w_Slug ` set (t_worlds db)"
    "w' = w \<or> (\<not> chosen \<and> (\<exists>k. w' = w\<lparr>w_Slug := candidate (w_Slug w) k\<rparr>))"
proof -
  from assms obtain taken where t: "takenSlugs c db = Inr taken" by (auto simp: create_world_tx_def res_simps)
  note taken = takenSlugs_Inr [OF t]
  obtain k where k: "nextFreeSlug (w_Slug w) taken = candidate (w_Slug w) k"
      "map_of taken (candidate (w_Slug w) k) \<noteq> Some True"
    using free_from_least [of 2 "w_Slug w" taken] by (auto simp: nextFreeSlug_def)
  show ?thesis
  proof (cases "w_Slug w \<in> w_Slug ` set (t_worlds db)")
    case True
    then show ?thesis using assms t taken k by (auto simp: create_world_tx_def res_simps split: if_splits intro!: that)
  next
    case False
    then show ?thesis using assms t taken by (auto simp: create_world_tx_def res_simps intro!: that)
  qed
qed

lemma PutMember_error: "PutMember c m db = Inl e \<Longrightarrow> e \<noteq> ErrAlreadyExists \<and> e \<noteq> ErrNotFound"
  by (auto simp: PutMember_def requireWritable_def stmt_def split: if_splits)

lemma create_world_tx_taken:
  assumes "create_world_tx chosen uid w c db = Inl ErrAlreadyExists" and "w_Settings w = RawNil"
  shows "chosen \<and> w_Slug w \<in> w_Slug ` set (t_worlds db)"
proof -
  from assms obtain taken where t: "takenSlugs c db = Inr taken"
    by (cases "takenSlugs c db") (auto simp: create_world_tx_def takenSlugs_def ListWorlds_def stmt_def split: if_splits)
  note taken = takenSlugs_Inr [OF t]
  obtain k where k: "nextFreeSlug (w_Slug w) taken = candidate (w_Slug w) k"
      "map_of taken (candidate (w_Slug w) k) \<noteq> Some True"
    using free_from_least [of 2 "w_Slug w" taken] by (auto simp: nextFreeSlug_def)
  have put: "PutWorld c v db \<noteq> Inl ErrAlreadyExists" if "w_Slug v \<notin> w_Slug ` set (t_worlds db)" "w_Settings v = RawNil" for v
    using that by (auto simp: PutWorld_def requireWritable_def stmt_def stored_world_def jsonArg_def list_ex_iff image_iff)
  show ?thesis
    using assms t taken k put [of w] put [of "w\<lparr>w_Slug := candidate (w_Slug w) k\<rparr>"]
    by (auto simp: create_world_tx_def res_simps dest: PutMember_error split: if_splits)
qed

lemma slugify_shape: "slugify ulower slug fallback = [] \<or> is_slug (slugify ulower slug fallback)"
proof -
  have "slug_built (fold slug_turn t ([], False))" for t by (rule slug_fold_built) simp
  then show ?thesis unfolding slugify_def Let_def by (metis prod.collapse trim_dashes_built)
qed

lemma put_new_world:
  assumes "PutWorld c w db = Inr db'" and "row_get w_ID i (t_worlds db) = None" and "w_ID w = i" "w_Settings w = RawNil"
  obtains v where "t_worlds db' = t_worlds db @ [v]" "w_ID v = w_ID w" "w_Slug v = w_Slug w" "w_Title v = w_Title w"
    "w_EventSeq v = w_EventSeq w"
proof -
  from assms(2,3) have "\<not> list_ex (\<lambda>r. w_ID r = w_ID w) (t_worlds db)" by (auto simp: row_get_None_iff list_ex_iff image_iff)
  with assms(1,4) that show ?thesis
    by (auto simp: PutWorld_def stored_world_def jsonArg_def row_upsert_def split: if_splits)
qed

lemma put_member_role:
  assumes "PutMember c m db = Inr db'"
  shows "map_option m_Role (row_get member_key (m_WorldID m, m_UserID m) (t_members db')) = Some (m_Role m) \<and>
    t_worlds db' = t_worlds db \<and> t_users db' = t_users db \<and> t_invites db' = t_invites db \<and> t_sessions db' = t_sessions db \<and>
    (\<forall>k. k \<noteq> (m_WorldID m, m_UserID m) \<longrightarrow> row_get member_key k (t_members db') = row_get member_key k (t_members db))"
proof -
  let ?m = "stored_member c m"
  have k: "member_key ?m = (m_WorldID m, m_UserID m)" "m_Role ?m = m_Role m" by (simp_all add: stored_member_def member_key_def)
  have "db' = db\<lparr>t_members := row_upsert member_key merge_member ?m (t_members db)\<rparr>"
    using assms by (simp add: PutMember_def split: if_splits)
  then show ?thesis
    using members.get_upsert_same [of ?m "t_members db"] members.get_upsert_other [of _ ?m "t_members db"] k
    by (auto simp: merge_member_def split: option.splits)
qed

lemma create_world_stored:
  assumes "store_Tx c (create_world_tx chosen uid (new_world env slug title systemID)) db = (Inr w, db')"
    and "row_get w_ID (GenerateID ''world'' (en_id env)) (t_worlds db) = None" and "is_slug slug"
  shows "\<exists>v. t_worlds db' = t_worlds db @ [v] \<and> w_ID v = GenerateID ''world'' (en_id env) \<and> w_Title v = title \<and> w_EventSeq v = 0 \<and>
    is_slug (w_Slug v) \<and> w_Slug v \<notin> w_Slug ` set (t_worlds db) \<and> (chosen \<longrightarrow> w_Slug v = slug) \<and>
    map_option m_Role (row_get member_key (w_ID v, uid) (t_members db')) = Some RoleGM"
proof -
  let ?w = "new_world env slug title systemID"
  have "create_world_tx chosen uid ?w (c\<lparr>c_writable := True\<rparr>) db = Inr (w, db')" using assms(1) by (simp add: store_Tx_ok)
  then obtain db1 where put: "PutWorld (c\<lparr>c_writable := True\<rparr>) w db = Inr db1"
      "PutMember (c\<lparr>c_writable := True\<rparr>) (new_member (w_ID ?w) uid RoleGM) db1 = Inr db'"
      "w_Slug w \<notin> w_Slug ` set (t_worlds db)"
      and w: "w = ?w \<or> (\<not> chosen \<and> (\<exists>k. w = ?w\<lparr>w_Slug := candidate (w_Slug ?w) k\<rparr>))"
    by (rule create_world_tx_Inr)
  have wf: "w_ID w = GenerateID ''world'' (en_id env)" "w_Settings w = RawNil" "w_Title w = title" "w_EventSeq w = 0"
      "is_slug (w_Slug w)" "chosen \<longrightarrow> w_Slug w = slug"
    using w assms(3) is_slug_candidate by (auto simp: new_world_def)
  obtain v where v: "t_worlds db1 = t_worlds db @ [v]" "w_ID v = w_ID w" "w_Slug v = w_Slug w" "w_Title v = w_Title w"
      "w_EventSeq v = w_EventSeq w"
    by (rule put_new_world [OF put(1) assms(2) wf(1,2)])
  have "t_worlds db' = t_worlds db1" "map_option m_Role (row_get member_key (w_ID ?w, uid) (t_members db')) = Some RoleGM"
    using put_member_role [OF put(2)] by (simp_all add: new_member_def)
  then show ?thesis using v wf put(3) by (auto simp: new_world_def)
qed

text \<open>Requests that change who is a member.\<close>

datatype member_call = SetRole Request "User option" ID ID | RemoveMember "User option" ID ID

fun serve_member_call :: "AuthDeps \<Rightarrow> member_call \<Rightarrow> DB \<Rightarrow> Response \<times> DB" where
  "serve_member_call d (SetRole rq user wid target) = setMemberRoleHandler d rq user wid target"
| "serve_member_call d (RemoveMember user wid target) = removeMemberHandler d user wid target"

fun call_user :: "member_call \<Rightarrow> User option" where
  "call_user (SetRole rq user wid target) = user"
| "call_user (RemoveMember user wid target) = user"

fun call_key :: "member_call \<Rightarrow> ID \<times> ID" where
  "call_key (SetRole rq user wid target) = (wid, target)"
| "call_key (RemoveMember user wid target) = (wid, target)"

definition role_in :: "DB \<Rightarrow> ID \<times> ID \<Rightarrow> string option" where
  "role_in db k = map_option m_Role (row_get member_key k (t_members db))"

definition has_gm :: "DB \<Rightarrow> ID \<Rightarrow> bool" where
  "has_gm db wid \<longleftrightarrow> list_ex (\<lambda>m. m_WorldID m = wid \<and> m_Role m = RoleGM) (t_members db)"

lemma has_gm_iff:
  assumes "db_ok db"
  shows "has_gm db wid \<longleftrightarrow> (\<exists>uid. role_in db (wid, uid) = Some RoleGM)"
proof
  assume "has_gm db wid"
  then obtain m where m: "m \<in> set (t_members db)" "m_WorldID m = wid" "m_Role m = RoleGM"
    by (auto simp: has_gm_def list_ex_iff)
  then have "row_get member_key (wid, m_UserID m) (t_members db) = Some m"
    using row_get_unique [of member_key "t_members db" m] assms by (simp add: db_ok_def member_key_def)
  with m show "\<exists>uid. role_in db (wid, uid) = Some RoleGM" by (auto simp: role_in_def)
next
  assume "\<exists>uid. role_in db (wid, uid) = Some RoleGM"
  then show "has_gm db wid"
    by (auto simp: has_gm_def role_in_def list_ex_iff member_key_def dest!: row_get_SomeD)
qed

lemma set_role_effect:
  "snd (done_or_missing key (store_Tx c (set_role_tx wid target role) db)) = db' \<Longrightarrow>
     db' = db \<or> PutMember (c\<lparr>c_writable := True\<rparr>) (new_member wid target role) db = Inr db'"
  by (auto simp: done_or_missing_def store_Tx_def set_role_tx_def res_simps split: sum.splits if_splits prod.splits)

lemma remove_effect:
  "snd (done_or_missing key (store_Tx c (remove_member_tx wid target) db)) = db' \<Longrightarrow>
     db' = db \<or> DeleteMember (c\<lparr>c_writable := True\<rparr>) wid target db = Inr db'"
  by (auto simp: done_or_missing_def store_Tx_def remove_member_tx_def res_simps split: sum.splits if_splits prod.splits)

lemma DeleteMember_role:
  "DeleteMember c wid target db = Inr db' \<Longrightarrow> db_ok db \<Longrightarrow> k \<noteq> (wid, target) \<Longrightarrow> role_in db' k = role_in db k"
  by (auto simp: DeleteMember_def role_in_def row_get_delete db_ok_def split: if_splits option.splits dest: row_get_SomeD)

lemma PutMember_role_in:
  "PutMember c (new_member wid uid role) db = Inr db' \<Longrightarrow>
     role_in db' (wid, uid) = Some role \<and> (k \<noteq> (wid, uid) \<longrightarrow> role_in db' k = role_in db k)"
  using put_member_role [of c "new_member wid uid role" db db'] by (cases k) (auto simp: role_in_def new_member_def)

text \<open>What one request does: nothing, or a change of one membership by a game master, who stays one.\<close>

lemma member_call_effect:
  assumes "serve_member_call d call db = (rp, db')" and "db_ok db"
  shows "db' = db \<or> (db_ok db' \<and> (\<exists>actor. call_user call = Some actor \<and>
    role_in db (fst (call_key call), u_ID actor) = Some RoleGM \<and> role_in db' (fst (call_key call), u_ID actor) = Some RoleGM \<and>
    (\<forall>k. k \<noteq> call_key call \<longrightarrow> role_in db' k = role_in db k)))"
proof (cases call)
  case (SetRole rq user wid target)
  show ?thesis
  proof (cases "db' = db")
    case False
    then obtain actor role where a: "requireRole d db user wid True = Inr actor"
        and nd: "target = u_ID actor \<longrightarrow> role = RoleGM"
        and tx: "snd (done_or_missing ''core.world.unknownUser'' (store_Tx (ad_Store d) (set_role_tx wid target role) db)) = db'"
      using assms(1) SetRole by (auto simp: setMemberRoleHandler_def proceed_def split: sum.splits if_splits)
    from set_role_effect [OF tx] False
    have put: "PutMember (ad_Store d\<lparr>c_writable := True\<rparr>) (new_member wid target role) db = Inr db'" by blast
    have "role_in db (wid, u_ID actor) = Some RoleGM" using a by (auto simp: requireRole_Inr role_in_def)
    moreover have "role_in db' (wid, u_ID actor) = Some RoleGM"
      using PutMember_role_in [OF put] nd calculation by (cases "target = u_ID actor") auto
    ultimately show ?thesis using SetRole a PutMember_role_in [OF put] PutMember_ok [OF put assms(2)] by (auto simp: requireRole_Inr)
  qed simp
next
  case (RemoveMember user wid target)
  show ?thesis
  proof (cases "db' = db")
    case False
    then obtain actor where a: "requireRole d db user wid True = Inr actor" and nd: "target \<noteq> u_ID actor"
        and tx: "snd (done_or_missing ''core.world.notAMember'' (store_Tx (ad_Store d) (remove_member_tx wid target) db)) = db'"
      using assms(1) RemoveMember by (auto simp: removeMemberHandler_def proceed_def split: sum.splits if_splits)
    from remove_effect [OF tx] False have del: "DeleteMember (ad_Store d\<lparr>c_writable := True\<rparr>) wid target db = Inr db'" by blast
    have "role_in db (wid, u_ID actor) = Some RoleGM" using a by (auto simp: requireRole_Inr role_in_def)
    then show ?thesis
      using RemoveMember a nd DeleteMember_role [OF del assms(2)] DeleteMember_ok [OF del assms(2)] by (auto simp: requireRole_Inr)
  qed simp
qed

lemma accept_error_status [simp]: "rp_Status (accept_error e) \<noteq> 200"
  by (simp add: accept_error_def)

lemma accepting_user_effect:
  assumes "accepting_user d env rq body existing c db = Inr ((user, signed), db')" and "db_ok db"
  shows "db_ok db' \<and> t_invites db' = t_invites db \<and> t_members db' = t_members db \<and>
    (case existing of Some u \<Rightarrow> user = u | None \<Rightarrow> \<not> u_IsAdmin user \<and> u_Username user = NormaliseUsername (ad_Service d) (cr_Username body))"
proof (cases existing)
  case None
  then obtain db1 where b: "BuildUser (ad_Service d) (en_salt env) (en_user_id env) (en_now env)
        (cr_Username body) (cr_Password body) False = Inr user"
      and i: "PutUser c user db = Inr db1"
      and s: "\<exists>token expires. IssueSession (ad_Service d) c (en_random env) (en_later env) (u_ID user) (rq_UserAgent rq) db1 =
        Inr ((token, expires), db')"
    using assms(1) by (auto simp: accepting_user_def res_simps insertUser_Inr)
  then obtain session where s: "PutUserSession c session db1 = Inr db'" by (auto simp: IssueSession_Inr)
  have "db_ok db'" using PutUserSession_ok [OF s PutUser_ok [OF i assms(2)]] .
  then show ?thesis using i s BuildUser_Inr [OF b] None by (auto simp: PutUser_def PutUserSession_def split: if_splits)
qed (use assms in \<open>auto simp: accepting_user_def\<close>)

lemma consumed_by_hash:
  assumes "ConsumeInvite c (i_WorldID i) (i_ID i) db = Inr db'" and "db_ok db" and "row_get i_TokenHash h (t_invites db) = Some i"
  shows "consumable (i_WorldID i) (i_ID i) i \<and> row_get i_TokenHash h (t_invites db') = Some (i\<lparr>i_Uses := i_Uses i + 1\<rparr>) \<and>
    t_members db' = t_members db"
proof -
  from assms(1) obtain j where j: "j \<in> set (t_invites db)" "consumable (i_WorldID i) (i_ID i) j"
    by (auto simp: ConsumeInvite_def list_ex_iff split: if_splits)
  have "i \<in> set (t_invites db)" using assms(3) row_get_SomeD by fastforce
  then have "row_get i_ID (i_ID i) (t_invites db) = Some i" "row_get i_ID (i_ID j) (t_invites db) = Some j"
    using j(1) assms(2) by (auto simp: db_ok_def intro: row_get_unique)
  then have "j = i" using j(2) by (simp add: consumable_def)
  then show ?thesis using j assms(1,3) by (auto simp: ConsumeInvite_def row_get_update split: if_splits)
qed

text \<open>What accepting an invite does: nothing, or one admission that uses the invite once.\<close>

lemma accept_effect:
  assumes "acceptInviteHandler d env rq existing token db = (rp, db')" and "db_ok db"
    and h: "h = HashToken (ad_Service d) token"
  shows "(rp_Status rp \<noteq> 200 \<and> db' = db) \<or>
    (\<exists>i user. rp_Status rp = 200 \<and> db_ok db' \<and> row_get i_TokenHash h (t_invites db) = Some i \<and> Usable i (en_now env) \<and>
       (\<forall>u. existing = Some u \<longrightarrow> user = u) \<and> (existing = None \<longrightarrow> \<not> u_IsAdmin user) \<and>
       role_in db' (i_WorldID i, u_ID user) = Some (i_Role i) \<and>
       (\<forall>k. k \<noteq> (i_WorldID i, u_ID user) \<longrightarrow> role_in db' k = role_in db k) \<and>
       row_get i_TokenHash h (t_invites db') = Some (i\<lparr>i_Uses := i_Uses i + 1\<rparr>))"
proof (cases "decodeBody unmarshal_credentials rq")
  case (Inl r)
  then show ?thesis using assms(1) decodeBody_Inl [OF Inl] by (auto simp: acceptInviteHandler_def)
next
  case (Inr body)
  let ?c = "ad_Store d\<lparr>c_writable := True\<rparr>"
  obtain r db2 where tx: "store_Tx (ad_Store d) (accept_tx d env rq body existing h) db = (r, db2)" by fastforce
  show ?thesis
  proof (cases r)
    case (Inl e)
    then show ?thesis using assms(1) Inr tx store_Tx_error [of "ad_Store d" "accept_tx d env rq body existing h" db e db2] h
      by (auto simp: acceptInviteHandler_def)
  next
    case (Inr us)
    then have ok: "accept_tx d env rq body existing h ?c db = Inr (us, db2)" using tx by (simp add: store_Tx_ok)
    then obtain i user signed db3 db4 where i: "row_get i_TokenHash h (t_invites db) = Some i" "Usable i (en_now env)"
        and a: "accepting_user d env rq body existing ?c db = Inr ((user, signed), db3)"
        and p: "PutMember ?c (new_member (i_WorldID i) (u_ID user) (i_Role i)) db3 = Inr db4"
        and co: "ConsumeInvite ?c (i_WorldID i) (i_ID i) db4 = Inr db2"
      by (auto simp: accept_tx_def res_simps GetInviteByTokenHash_def split: if_splits option.splits)
    have "db' = db2" "rp_Status rp = 200"
      using assms(1) Inr tx h \<open>decodeBody unmarshal_credentials rq = Inr body\<close>
      by (auto simp: acceptInviteHandler_def split: option.splits prod.splits)
    moreover note u = accepting_user_effect [OF a assms(2)]
    moreover have ok4: "db_ok db4" using PutMember_ok [OF p] u by blast
    moreover have "t_invites db4 = t_invites db" using put_member_role [OF p] u by simp
    moreover note ConsumeInvite_ok [OF co ok4]
    ultimately show ?thesis
      using i consumed_by_hash [OF co ok4] PutMember_role_in [OF p]
      by (auto simp: role_in_def split: option.splits)
  qed
qed

section \<open>The properties of worlds and invites\<close>

text \<open>
  C39: whatever text it is given, \<open>slugify\<close> gives nothing or a slug, lower-case letters and digits
  in groups separated by single dashes, and it leaves a slug as it is; \<open>nextFreeSlug\<close> ends and
  gives the base with the least suffix from 2 on that is not taken.
\<close>

theorem slugs_exact:
  "(slugify ulower slug fallback = [] \<or> is_slug (slugify ulower slug fallback)) \<and>
   (is_slug slug \<longrightarrow> slugify ulower slug fallback = slug) \<and>
   (\<exists>k \<ge> 2. nextFreeSlug base taken = base @ ''-'' @ digits_of k \<and> map_of taken (base @ ''-'' @ digits_of k) \<noteq> Some True \<and>
      (\<forall>j. 2 \<le> j \<and> j < k \<longrightarrow> map_of taken (base @ ''-'' @ digits_of j) = Some True))"
proof (intro conjI impI)
  show "slugify ulower slug fallback = [] \<or> is_slug (slugify ulower slug fallback)" by (rule slugify_shape)
next
  assume s: "is_slug slug"
  then have "slug_built ([] @ slug, False)" by (auto simp: is_slug_def)
  then have "fst (fold slug_turn slug ([], False)) = slug" using slug_fold_kept [of "[]" slug False False] by simp
  moreover have "trim_dashes slug = slug"
    using s by (simp add: is_slug_def trim_dashes_id)
  ultimately show "slugify ulower slug fallback = slug"
    using s by (simp add: slugify_def trim_space_slug to_lower_slug) (simp add: is_slug_def)
next
  show "\<exists>k \<ge> 2. nextFreeSlug base taken = base @ ''-'' @ digits_of k \<and> map_of taken (base @ ''-'' @ digits_of k) \<noteq> Some True \<and>
      (\<forall>j. 2 \<le> j \<and> j < k \<longrightarrow> map_of taken (base @ ''-'' @ digits_of j) = Some True)"
    using free_from_least [of 2 base taken] by (simp add: nextFreeSlug_def candidate_def)
qed

theorem slugs_exact_witness:
  "is_slug ''my-world'' \<and> slugify id ''my-world'' [] = ''my-world'' \<and> slugify id [] ''The  Dark & Damp!'' = ''the-dark-damp'' \<and>
   nextFreeSlug ''w'' [(''w-2'', True)] = ''w-3''"
proof -
  have m: "is_slug ''my-world''" by (simp add: is_slug_def slug_char_def is_digit_def less_eq_char_def)
  have s: "slugify id [] ''The  Dark & Damp!'' = ''the-dark-damp''" by code_simp
  have n: "nextFreeSlug ''w'' [(''w-2'', True)] = ''w-3''"
    by (simp add: nextFreeSlug_def free_from.simps candidate_def digits_of.simps char_of_def bit_iff_odd)
  from slugs_exact [of id "''my-world''" "[]" "[]" "[]"] m s n show ?thesis by blast
qed

text \<open>
  a request to create a world that is answered with 201 was made by a signed-in user and adds
  one world with the trimmed title, no events and a slug no other world has, the requested
  one if the user chose one, and makes the user its game master; any other answer leaves the
  database as it was; and only a chosen slug that another world has is answered with 409.
\<close>

theorem create_world_spec:
  assumes "createWorldHandler d env rq user db = (rp, db')"
    and "row_get w_ID (GenerateID ''world'' (en_id env)) (t_worlds db) = None"
  shows "(rp_Status rp \<noteq> 201 \<longrightarrow> db' = db) \<and>
    (rp_Status rp \<in> {201, 409} \<longrightarrow> (\<exists>u body slug. user = Some u \<and> unmarshal_create_world (rq_Body rq) = Some body \<and>
       slug = slugify (au_ulower (ad_Service d)) (cw_Slug body) (trim_space (cw_Title body)) \<and>
       (rp_Status rp = 409 \<longrightarrow> trim_space (cw_Slug body) \<noteq> [] \<and> slug \<in> w_Slug ` set (t_worlds db)) \<and>
       (rp_Status rp = 201 \<longrightarrow> (\<exists>w. t_worlds db' = t_worlds db @ [w] \<and> w_ID w = GenerateID ''world'' (en_id env) \<and>
          w_Title w = trim_space (cw_Title body) \<and> w_EventSeq w = 0 \<and> is_slug (w_Slug w) \<and>
          w_Slug w \<notin> w_Slug ` set (t_worlds db) \<and> (trim_space (cw_Slug body) \<noteq> [] \<longrightarrow> w_Slug w = slug) \<and>
          map_option m_Role (row_get member_key (w_ID w, u_ID u) (t_members db')) = Some RoleGM))))"
proof -
  consider (early) "db' = db" "rp_Status rp \<notin> {201, 409}"
    | (tx) u body slug r where "user = Some u" "decodeBody unmarshal_create_world rq = Inr body"
        "slug = slugify (au_ulower (ad_Service d)) (cw_Slug body) (trim_space (cw_Title body))" "slug \<noteq> []"
        "store_Tx (ad_Store d) (create_world_tx (trim_space (cw_Slug body) \<noteq> []) (u_ID u)
           (new_world env slug (trim_space (cw_Title body)) (cw_SystemID body))) db = (r, db')"
        "rp = (case r of Inl e \<Rightarrow> if e = ErrAlreadyExists then writeJSON 409 (apiError ''slug_taken'' ''core.world.slugTaken'')
               else internalError | Inr w \<Rightarrow> writeJSON 201 (Inr (world_view w RoleGM)))"
    using assms(1) decodeBody_Inl [of unmarshal_create_world rq]
    by (auto simp: createWorldHandler_def requireUser_def proceed_def Let_def split: option.splits sum.splits prod.splits if_splits)
  then show ?thesis
  proof cases
    case tx
    have slug: "is_slug slug" using tx(3,4) slugify_shape by blast
    have body: "unmarshal_create_world (rq_Body rq) = Some body" using tx(2) by (simp add: decodeBody_Inr)
    show ?thesis
    proof (cases r)
      case (Inl e)
      then have "db' = db" using tx(5) store_Tx_error by blast
      moreover have "e = ErrAlreadyExists \<Longrightarrow> trim_space (cw_Slug body) \<noteq> [] \<and> slug \<in> w_Slug ` set (t_worlds db)"
        using tx(5) Inl by (auto simp: store_Tx_def new_world_def dest!: create_world_tx_taken split: if_splits sum.splits)
      ultimately show ?thesis using tx Inl body by (auto split: if_splits)
    next
      case (Inr w)
      show ?thesis using create_world_stored [OF tx(5) [unfolded Inr] assms(2) slug] tx Inr body by auto
    qed
  qed auto
qed

definition sample_create :: "Response \<times> DB" where
  "sample_create = createWorldHandler sample_deps sample_http_env
     (sample_request (JObj [(''title'', JStr '' W ''), (''systemId'', JStr ''v5'')])) (Some sample_user) sample_db"

lemma sample_create_status: "rp_Status (fst sample_create) = 201"
  by code_simp

theorem create_world_spec_witness:
  "\<exists>w. t_worlds (snd sample_create) = t_worlds sample_db @ [w] \<and> w_Slug w \<notin> w_Slug ` set (t_worlds sample_db)"
proof -
  have "row_get w_ID (GenerateID ''world'' (en_id sample_http_env)) (t_worlds sample_db) = None" by code_simp
  then show ?thesis
    using create_world_spec [of sample_deps sample_http_env
        "sample_request (JObj [(''title'', JStr '' W ''), (''systemId'', JStr ''v5'')])" "Some sample_user" sample_db
        "fst sample_create" "snd sample_create"] sample_create_status
    by (auto simp: sample_create_def)
qed

text \<open>
  C20: a request to set a role or to remove a member changes the database only if a game master of
  that world made it, and then only the membership it names; whatever it does, every world that
  had a game master still has one, since a game master can neither remove nor demote
  himself this way.
\<close>

theorem membership_governed:
  assumes "db_ok db" and "serve_member_call d call db = (rp, db')"
  shows "(db' \<noteq> db \<longrightarrow> (\<exists>actor. call_user call = Some actor \<and> role_in db (fst (call_key call), u_ID actor) = Some RoleGM)) \<and>
    (\<forall>k. k \<noteq> call_key call \<longrightarrow> role_in db' k = role_in db k) \<and>
    (\<forall>wid. has_gm db wid \<longrightarrow> has_gm db' wid)"
proof (cases "db' = db")
  case False
  then obtain actor where a: "db_ok db'" "call_user call = Some actor"
      "role_in db (fst (call_key call), u_ID actor) = Some RoleGM" "role_in db' (fst (call_key call), u_ID actor) = Some RoleGM"
      "\<And>k. k \<noteq> call_key call \<Longrightarrow> role_in db' k = role_in db k"
    using member_call_effect [OF assms(2,1)] by auto
  have "has_gm db' wid" if h: "has_gm db wid" for wid
  proof (cases "wid = fst (call_key call)")
    case True
    then show ?thesis using a(1,4) by (auto simp: has_gm_iff)
  next
    case False
    then have "(wid, uid) \<noteq> call_key call" for uid by (metis fst_conv)
    then show ?thesis using h a(1,5) assms(1) by (auto simp: has_gm_iff)
  qed
  then show ?thesis using a by blast
qed simp

definition sample_promotion :: member_call where
  "sample_promotion = SetRole (sample_request (JObj [(''role'', JStr ''gm'')])) (Some (sample_user\<lparr>u_ID := ''g''\<rparr>)) ''w'' ''p''"

definition sample_crew_db :: DB where
  "sample_crew_db = sample_members_db\<lparr>t_users := [sample_user\<lparr>u_ID := ''p''\<rparr>], t_sessions := [],
     t_invites := [sample_invite\<lparr>i_TokenHash := ''61'', i_ExpiresAt := 20, i_MaxUses := 1, i_Uses := 0\<rparr>]\<rparr>"

lemma sample_crew_db_ok: "db_ok sample_crew_db"
  using sample_members_db_ok
  by (simp add: db_ok_def sample_crew_db_def gapless_def world_log_def keys_unique_def refers_def emails_unique_def
      sample_members_db_def) (simp add: sample_defs)

theorem membership_governed_witness:
  "role_in (snd (serve_member_call sample_deps sample_promotion sample_crew_db)) (''w'', ''p'') = Some RoleGM \<and>
   role_in sample_crew_db (''w'', ''g'') = Some RoleGM"
proof -
  define db' where "db' = snd (serve_member_call sample_deps sample_promotion sample_crew_db)"
  have p: "role_in db' (''w'', ''p'') = Some RoleGM" "role_in sample_crew_db (''w'', ''p'') \<noteq> Some RoleGM"
    unfolding db'_def by code_simp+
  then have "db' \<noteq> sample_crew_db" by auto
  then have "role_in sample_crew_db (''w'', ''g'') = Some RoleGM"
    using membership_governed [OF sample_crew_db_ok, of sample_deps sample_promotion
        "fst (serve_member_call sample_deps sample_promotion sample_crew_db)" db']
    by (simp add: db'_def sample_promotion_def)
  with p show ?thesis by (simp add: db'_def)
qed

text \<open>
  The check of the role and the transaction are two steps.  Two game masters who are removed by
  each other at the same time both pass the check; the transactions then leave nobody to run
  the world.
\<close>

definition sample_pair_db :: DB where
  "sample_pair_db = sample_members_db\<lparr>t_members :=
     [new_member ''w'' ''g'' RoleGM, new_member ''w'' ''h'' RoleGM]\<rparr>"

theorem removals_can_cross:
  "(\<exists>u. requireRole sample_deps sample_pair_db (Some (sample_user\<lparr>u_ID := ''g''\<rparr>)) ''w'' True = Inr u) \<and>
   (\<exists>u. requireRole sample_deps sample_pair_db (Some (sample_user\<lparr>u_ID := ''h''\<rparr>)) ''w'' True = Inr u) \<and>
   has_gm sample_pair_db ''w'' \<and>
   \<not> has_gm (snd (store_Tx sample_conn (remove_member_tx ''w'' ''g'')
        (snd (store_Tx sample_conn (remove_member_tx ''w'' ''h'') sample_pair_db)))) ''w''"
proof (intro conjI)
  show "\<exists>u. requireRole sample_deps sample_pair_db (Some (sample_user\<lparr>u_ID := ''g''\<rparr>)) ''w'' True = Inr u"
    "\<exists>u. requireRole sample_deps sample_pair_db (Some (sample_user\<lparr>u_ID := ''h''\<rparr>)) ''w'' True = Inr u"
    by (simp_all add: requireRole_Inr sample_deps_def sample_conn_def sample_pair_db_def row_get_Cons member_key_def
        new_member_def)
qed code_simp+

text \<open>
  Accepting an invite either changes nothing, or admits exactly one user, the signed-in one or
  a new account that is no administrator, to the invite's world with the invite's role, for a
  token that names an invite which is not revoked, not expired and not used up, and counts one
  use of it; every other membership stays as it was.
\<close>

theorem accept_invite_spec:
  assumes "db_ok db" and "acceptInviteHandler d env rq existing token db = (rp, db')"
  shows "(rp_Status rp \<noteq> 200 \<and> db' = db) \<or>
    (\<exists>i user. rp_Status rp = 200 \<and> row_get i_TokenHash (HashToken (ad_Service d) token) (t_invites db) = Some i \<and>
       Usable i (en_now env) \<and> (\<forall>u. existing = Some u \<longrightarrow> user = u) \<and> (existing = None \<longrightarrow> \<not> u_IsAdmin user) \<and>
       role_in db' (i_WorldID i, u_ID user) = Some (i_Role i) \<and>
       (\<forall>k. k \<noteq> (i_WorldID i, u_ID user) \<longrightarrow> role_in db' k = role_in db k) \<and>
       row_get i_TokenHash (HashToken (ad_Service d) token) (t_invites db') = Some (i\<lparr>i_Uses := i_Uses i + 1\<rparr>))"
  using accept_effect [OF assms(2,1) refl] by blast

theorem accept_invite_spec_witness:
  "role_in (snd (acceptInviteHandler sample_deps sample_http_env (sample_request JNull)
     (Some (sample_user\<lparr>u_ID := ''n''\<rparr>)) ''a'' sample_crew_db)) (''w'', ''n'') = Some RolePlayer"
proof -
  obtain rp db' where e: "acceptInviteHandler sample_deps sample_http_env (sample_request JNull)
     (Some (sample_user\<lparr>u_ID := ''n''\<rparr>)) ''a'' sample_crew_db = (rp, db')" by fastforce
  have st: "rp_Status (fst (acceptInviteHandler sample_deps sample_http_env (sample_request JNull)
     (Some (sample_user\<lparr>u_ID := ''n''\<rparr>)) ''a'' sample_crew_db)) = 200" by code_simp
  have h: "HashToken sample_auth ''a'' = ''61''" by code_simp
  obtain i where i: "row_get i_TokenHash ''61'' (t_invites sample_crew_db) = Some i" "i_WorldID i = ''w''" "i_Role i = RolePlayer"
    by (simp add: sample_crew_db_def row_get_Cons sample_invite_def RolePlayer_def)
  show ?thesis
    using accept_invite_spec [OF sample_crew_db_ok e] st e h i by (auto simp: sample_deps_def)
qed

text \<open>
  The guard against locking oneself out has a gap: a game master who accepts an invite to the own
  world takes the invite's role, and the world can be left without a game master.
\<close>

theorem invite_can_demote_last_gm:
  "has_gm sample_crew_db ''w'' \<and>
   \<not> has_gm (snd (acceptInviteHandler sample_deps sample_http_env (sample_request JNull)
     (Some (sample_user\<lparr>u_ID := ''g''\<rparr>)) ''a'' sample_crew_db)) ''w''"
  by code_simp

text \<open>
  No invite lasts longer than 90 days, but a number of seconds whose nanoseconds do not fit into 64
  bits gives an invite that has already expired.
\<close>

theorem invite_ttl_bounds:
  "invite_ttl seconds \<le> maxInviteTTL \<and>
   (0 < seconds \<and> seconds * second \<le> max_int64 \<longrightarrow> 0 < invite_ttl seconds) \<and> invite_ttl 9223372037 < 0"
proof (intro conjI impI)
  show "invite_ttl seconds \<le> maxInviteTTL" by (simp add: invite_ttl_def Let_def)
next
  assume "0 < seconds \<and> seconds * second \<le> max_int64"
  moreover from this have "wrap64 (seconds * second) = seconds * second"
    by (intro wrap64_id) (simp_all add: min_int64_def second_def)
  ultimately show "0 < invite_ttl seconds"
    by (simp add: invite_ttl_def Let_def second_def maxInviteTTL_def hour_def minute_def)
next
  show "invite_ttl 9223372037 < 0" by code_simp
qed

text \<open>A series of requests to accept the same invite, and how many of them it admits.\<close>

fun accept_all :: "AuthDeps \<Rightarrow> string \<Rightarrow> (Env \<times> Request \<times> User option) list \<Rightarrow> DB \<Rightarrow> Response list \<times> DB" where
  "accept_all d token [] db = ([], db)"
| "accept_all d token ((env, rq, user) # calls) db =
     (case acceptInviteHandler d env rq user token db of (rp, db) \<Rightarrow>
       (case accept_all d token calls db of (rps, db) \<Rightarrow> (rp # rps, db)))"

definition admitted :: "Response list \<Rightarrow> nat" where
  "admitted rps = length (filter (\<lambda>rp. rp_Status rp = 200) rps)"

text \<open>
  C21: however many requests present the token of an invite with a limit, the invite admits no more
  than the uses it has left.
\<close>

theorem invite_admits_bounded:
  assumes "db_ok db" and "accept_all d token calls db = (rps, db')"
    and "row_get i_TokenHash (HashToken (ad_Service d) token) (t_invites db) = Some i"
    and "0 < i_MaxUses i" and "i_Uses i \<le> i_MaxUses i"
  shows "int (admitted rps) \<le> i_MaxUses i - i_Uses i"
  using assms
proof (induction calls arbitrary: db i rps)
  case Nil
  then show ?case by (simp add: admitted_def)
next
  case (Cons call calls)
  obtain env rq user where call: "call = (env, rq, user)" by (cases call)
  obtain rp db1 where step: "acceptInviteHandler d env rq user token db = (rp, db1)" by fastforce
  obtain rest where rest: "accept_all d token calls db1 = (rest, db')" "rps = rp # rest"
    using Cons.prems(2) call step by (auto split: prod.splits)
  from accept_effect [OF step Cons.prems(1) refl] show ?case
  proof (elim disjE exE conjE)
    assume "rp_Status rp \<noteq> 200" "db1 = db"
    then show ?thesis using Cons.IH [OF Cons.prems(1) _ Cons.prems(3-5)] rest by (simp add: admitted_def)
  next
    fix j u
    assume j: "rp_Status rp = 200" "db_ok db1" "row_get i_TokenHash (HashToken (ad_Service d) token) (t_invites db) = Some j"
      "Usable j (en_now env)" "row_get i_TokenHash (HashToken (ad_Service d) token) (t_invites db1) = Some (j\<lparr>i_Uses := i_Uses j + 1\<rparr>)"
    have i: "j = i" "i_Uses i < i_MaxUses i" using j(3,4) Cons.prems(3-5) by (auto simp: Usable_def split: if_splits)
    have "int (admitted rest) \<le> i_MaxUses (i\<lparr>i_Uses := i_Uses i + 1\<rparr>) - i_Uses (i\<lparr>i_Uses := i_Uses i + 1\<rparr>)"
      using Cons.prems(4) i j(5) by (intro Cons.IH [OF j(2) rest(1)]) auto
    then show ?thesis using j(1) rest(2) by (simp add: admitted_def)
  qed
qed

theorem invite_admits_bounded_witness:
  "\<exists>rps db'. accept_all sample_deps ''a''
       [(sample_http_env, sample_request JNull, Some (sample_user\<lparr>u_ID := ''n''\<rparr>)),
        (sample_http_env, sample_request JNull, Some (sample_user\<lparr>u_ID := ''m''\<rparr>))] sample_crew_db = (rps, db') \<and>
     int (admitted rps) \<le> 1"
proof -
  let ?calls = "[(sample_http_env, sample_request JNull, Some (sample_user\<lparr>u_ID := ''n''\<rparr>)),
        (sample_http_env, sample_request JNull, Some (sample_user\<lparr>u_ID := ''m''\<rparr>))]"
  obtain rps db' where e: "accept_all sample_deps ''a'' ?calls sample_crew_db = (rps, db')" by fastforce
  have h: "HashToken sample_auth ''a'' = ''61''" by code_simp
  obtain i where i: "row_get i_TokenHash ''61'' (t_invites sample_crew_db) = Some i" "i_MaxUses i = 1" "i_Uses i = 0"
    by (simp add: sample_crew_db_def row_get_Cons)
  show ?thesis
    using invite_admits_bounded [OF sample_crew_db_ok e, of i] e h i by (auto simp: sample_deps_def)
qed

end
