(* ===== verification/Scenes.thy ===== *)
theory Scenes
  imports Worlds Intents
begin

text \<open>
  Scenes, tokens, actors and walls over HTTP (\<open>internal/transport/httpapi/scenes.go\<close>).
\<close>

definition KindScene :: string where "KindScene = ''scene''"
definition KindToken :: string where "KindToken = ''token''"
definition KindActor :: string where "KindActor = ''actor''"
definition KindWall :: string where "KindWall = ''wall''"

text \<open>An array is encoded when each of its elements is.\<close>

fun json_array :: "json res list \<Rightarrow> json res" where
  "json_array [] = Inr (JArr [])"
| "json_array (v # vs) = bind_res v (\<lambda>v. bind_res (json_array vs) (\<lambda>w.
     Inr (JArr (v # (case w of JArr ws \<Rightarrow> ws | _ \<Rightarrow> [])))))"

definition observer_default :: raw where
  "observer_default = RawJson (JObj [(''default'', JStr ''observer'')])"

definition put_tx :: "Document \<Rightarrow> Conn \<Rightarrow> DB \<Rightarrow> (unit \<times> DB) res" where
  "put_tx document c db = bind_res (PutDocument c document db) (\<lambda>db. Inr ((), db))"

definition put_in_scene_tx :: "ID \<Rightarrow> ID \<Rightarrow> Document \<Rightarrow> Conn \<Rightarrow> DB \<Rightarrow> (unit \<times> DB) res" where
  "put_in_scene_tx worldID sceneID document c db = bind_res (GetDocument c db worldID sceneID) (\<lambda>_. put_tx document c db)"

text \<open>The end of the handlers that create a document.\<close>

definition created :: "string \<Rightarrow> json res \<Rightarrow> unit res \<times> DB \<Rightarrow> Response \<times> DB" where
  "created missing view = (\<lambda>(r, db).
     (case r of
        Inl e \<Rightarrow> if e = ErrNotFound \<and> missing \<noteq> [] then writeJSON 404 (apiError ''not_found'' missing) else internalError
      | Inr _ \<Rightarrow> writeJSON 201 view, db))"

section \<open>Scenes\<close>

record SceneData =
  sd_Width :: int
  sd_Height :: int
  sd_GridSize :: int
  sd_GridType :: string
  sd_Background :: string

record createSceneRequest =
  cs_Name :: string
  cs_Width :: int
  cs_Height :: int
  cs_GridSize :: int

definition unmarshal_create_scene :: "raw \<Rightarrow> createSceneRequest option" where
  "unmarshal_create_scene raw =
     (if struct_shape raw \<and> field_ok dec_string ''name'' raw \<and> field_ok dec_int ''width'' raw \<and>
         field_ok dec_int ''height'' raw \<and> field_ok dec_int ''gridSize'' raw
      then Some \<lparr>cs_Name = field_val dec_string [] ''name'' raw, cs_Width = field_val dec_int 0 ''width'' raw,
        cs_Height = field_val dec_int 0 ''height'' raw, cs_GridSize = field_val dec_int 0 ''gridSize'' raw\<rparr>
      else None)"

text \<open>The error of \<open>json.Unmarshal\<close> is dropped: what could be assigned stays assigned.\<close>

definition scene_data :: "raw \<Rightarrow> SceneData" where
  "scene_data raw = \<lparr>sd_Width = field_val dec_int 0 ''width'' raw, sd_Height = field_val dec_int 0 ''height'' raw,
     sd_GridSize = field_val dec_int 0 ''gridSize'' raw, sd_GridType = field_val dec_string [] ''gridType'' raw,
     sd_Background = field_val dec_string [] ''background'' raw\<rparr>"

definition marshal_scene_data :: "SceneData \<Rightarrow> json" where
  "marshal_scene_data data = jobject [member ''width'' (JInt (sd_Width data)), member ''height'' (JInt (sd_Height data)),
     member ''gridSize'' (JInt (sd_GridSize data)), member ''gridType'' (jstr (sd_GridType data)),
     omit_string ''background'' (sd_Background data)]"

definition defaultSceneData :: "createSceneRequest \<Rightarrow> SceneData" where
  "defaultSceneData body = \<lparr>sd_Width = (if cs_Width body \<le> 0 then 2400 else cs_Width body),
     sd_Height = (if cs_Height body \<le> 0 then 1600 else cs_Height body),
     sd_GridSize = (if cs_GridSize body \<le> 0 then 100 else cs_GridSize body),
     sd_GridType = ''square'', sd_Background = []\<rparr>"

definition scene_view :: "ID \<Rightarrow> string \<Rightarrow> bool \<Rightarrow> SceneData \<Rightarrow> json" where
  "scene_view sid name active data = jobject [member ''id'' (jstr sid), member ''name'' (jstr name),
     member ''active'' (JBool active), member ''data'' (marshal_scene_data data)]"

definition listScenesHandler :: "AuthDeps \<Rightarrow> User option \<Rightarrow> ID \<Rightarrow> DB \<Rightarrow> Response" where
  "listScenesHandler d user worldID db = answer (bind_res (requireRole d db user worldID False) (\<lambda>_.
     case store_ReadOnly (ad_Store d) (\<lambda>c db.
         bind_res (GetWorld c db worldID) (\<lambda>world.
         bind_res (ListDocuments c db worldID (zero_filter\<lparr>f_Kind := KindScene\<rparr>)) (\<lambda>documents.
         Inr (map (\<lambda>doc. scene_view (d_ID doc) (d_Name doc) (d_ID doc = w_ActiveScene world) (scene_data (d_Data doc)))
           documents)))) db of
       Inl _ \<Rightarrow> Inl internalError
     | Inr views \<Rightarrow> Inr (writeJSON 200 (Inr (JArr views)))))"

definition new_scene :: "Env \<Rightarrow> ID \<Rightarrow> createSceneRequest \<Rightarrow> Document" where
  "new_scene env worldID body = zero_document\<lparr>d_WorldID := worldID, d_ID := GenerateID ''scene'' (en_id env), d_Kind := KindScene,
     d_Name := trim_space (if trim_space (cs_Name body) = [] then ''New scene'' else cs_Name body),
     d_Data := RawJson (marshal_scene_data (defaultSceneData body)), d_Ownership := observer_default\<rparr>"

definition createSceneHandler :: "AuthDeps \<Rightarrow> Env \<Rightarrow> Request \<Rightarrow> User option \<Rightarrow> ID \<Rightarrow> DB \<Rightarrow> Response \<times> DB" where
  "createSceneHandler d env rq user worldID db =
     proceed (requireRole d db user worldID True) db (\<lambda>_.
     proceed (decodeBody unmarshal_create_scene rq) db (\<lambda>body.
       let document = new_scene env worldID body
       in created [] (Inr (scene_view (d_ID document) (d_Name document) False (scene_data (d_Data document))))
            (store_Tx (ad_Store d) (put_tx document) db)))"

section \<open>Redacted listings\<close>

text \<open>The loop of the token and actor lists: what the subject may read, as it may see it.\<close>

definition redacted ::
  "AuthDeps \<Rightarrow> Conn \<Rightarrow> DB \<Rightarrow> Subject \<Rightarrow> (Grant \<Rightarrow> Document \<Rightarrow> 'v) \<Rightarrow> Document \<Rightarrow> 'v option res" where
  "redacted d c db subject view document =
     bind_res (resolver_Grant c db subject document) (\<lambda>grant.
     bind_res (RedactDocument document subject grant (ad_Policy d)) (\<lambda>visible.
     Inr (map_option (view grant) visible)))"

definition token_view :: "ID \<Rightarrow> string \<Rightarrow> string \<Rightarrow> raw \<Rightarrow> json res" where
  "token_view tid name img data = bind_res (raw_value data) (\<lambda>data.
     Inr (jobject [member ''id'' (jstr tid), member ''name'' (jstr name), omit_string ''img'' img, member ''data'' data]))"

definition listed_tokens :: "AuthDeps \<Rightarrow> ID \<Rightarrow> ID \<Rightarrow> ID \<Rightarrow> Conn \<Rightarrow> DB \<Rightarrow> Document list res" where
  "listed_tokens d worldID sceneID uid c db =
     bind_res (RoleOf c db worldID uid) (\<lambda>role.
     let subject = \<lparr>sub_UserID = uid, sub_Role = role\<rparr>
     in bind_res (ListDocuments c db worldID (children_filter KindToken sceneID)) (\<lambda>documents.
        bind_res (VisibleTokens c db subject worldID sceneID documents) (\<lambda>documents.
        collect_res (redacted d c db subject (\<lambda>_ visible. visible)) documents)))"

definition listTokensHandler :: "AuthDeps \<Rightarrow> User option \<Rightarrow> ID \<Rightarrow> ID \<Rightarrow> DB \<Rightarrow> Response" where
  "listTokensHandler d user worldID sceneID db = answer (bind_res (requireRole d db user worldID False) (\<lambda>user.
     case store_ReadOnly (ad_Store d) (listed_tokens d worldID sceneID (u_ID user)) db of
       Inl _ \<Rightarrow> Inl internalError
     | Inr visible \<Rightarrow>
         Inr (writeJSON 200 (json_array (map (\<lambda>v. token_view (d_ID v) (d_Name v) (d_Img v) (d_Data v)) visible)))))"

definition actor_view :: "Document \<Rightarrow> bool \<Rightarrow> json res" where
  "actor_view v canEdit = bind_res (raw_value (d_Data v)) (\<lambda>data. bind_res (omit_raw ''ownership'' (d_Ownership v)) (\<lambda>ownership.
     Inr (jobject [member ''id'' (jstr (d_ID v)), member ''name'' (jstr (d_Name v)), member ''subtype'' (jstr (d_Subtype v)),
       member ''data'' data, ownership, member ''canEdit'' (JBool canEdit)])))"

definition listed_actors :: "AuthDeps \<Rightarrow> ID \<Rightarrow> ID \<Rightarrow> Conn \<Rightarrow> DB \<Rightarrow> (Document \<times> bool) list res" where
  "listed_actors d worldID uid c db =
     bind_res (RoleOf c db worldID uid) (\<lambda>role.
     let subject = \<lparr>sub_UserID = uid, sub_Role = role\<rparr>
     in bind_res (ListDocuments c db worldID (zero_filter\<lparr>f_Kind := KindActor\<rparr>)) (\<lambda>documents.
        collect_res (redacted d c db subject (\<lambda>grant visible. (visible, CanEdit grant))) documents))"

definition listActorsHandler :: "AuthDeps \<Rightarrow> User option \<Rightarrow> ID \<Rightarrow> DB \<Rightarrow> Response" where
  "listActorsHandler d user worldID db = answer (bind_res (requireRole d db user worldID False) (\<lambda>user.
     case store_ReadOnly (ad_Store d) (listed_actors d worldID (u_ID user)) db of
       Inl _ \<Rightarrow> Inl internalError
     | Inr visible \<Rightarrow> Inr (writeJSON 200 (json_array (map (\<lambda>(v, canEdit). actor_view v canEdit) visible)))))"

section \<open>Tokens\<close>

record createTokenRequest =
  ct_Name :: string
  ct_X :: f64
  ct_Y :: f64
  ct_Img :: string
  ct_Disposition :: string

definition unmarshal_create_token :: "raw \<Rightarrow> createTokenRequest option" where
  "unmarshal_create_token raw =
     (if struct_shape raw \<and> field_ok dec_string ''name'' raw \<and> field_ok dec_float ''x'' raw \<and> field_ok dec_float ''y'' raw \<and>
         field_ok dec_string ''img'' raw \<and> field_ok dec_string ''disposition'' raw
      then Some \<lparr>ct_Name = field_val dec_string [] ''name'' raw, ct_X = field_val dec_float (Fin 0) ''x'' raw,
        ct_Y = field_val dec_float (Fin 0) ''y'' raw, ct_Img = field_val dec_string [] ''img'' raw,
        ct_Disposition = field_val dec_string [] ''disposition'' raw\<rparr>
      else None)"

definition marshal_token_data :: "f64 \<Rightarrow> f64 \<Rightarrow> string \<Rightarrow> raw res" where
  "marshal_token_data x y disposition =
     bind_res (marshal_float x) (\<lambda>x. bind_res (marshal_float y) (\<lambda>y.
     Inr (RawJson (jobject [member ''x'' x, member ''y'' y, member ''width'' (JInt 1), member ''height'' (JInt 1),
       member ''disposition'' (jstr disposition), member ''hidden'' (JBool False)]))))"

definition new_token :: "Env \<Rightarrow> ID \<Rightarrow> ID \<Rightarrow> createTokenRequest \<Rightarrow> raw \<Rightarrow> Document" where
  "new_token env worldID sceneID body data = zero_document\<lparr>d_WorldID := worldID, d_ID := GenerateID ''token'' (en_id env),
     d_Kind := KindToken, d_ParentID := sceneID,
     d_Name := trim_space (if trim_space (ct_Name body) = [] then ''Token'' else ct_Name body),
     d_Img := ct_Img body, d_Data := data, d_Ownership := observer_default\<rparr>"

definition createTokenHandler :: "AuthDeps \<Rightarrow> Env \<Rightarrow> Request \<Rightarrow> User option \<Rightarrow> ID \<Rightarrow> ID \<Rightarrow> DB \<Rightarrow> Response \<times> DB" where
  "createTokenHandler d env rq user worldID sceneID db =
     proceed (requireRole d db user worldID True) db (\<lambda>_.
     proceed (decodeBody unmarshal_create_token rq) db (\<lambda>body.
       case marshal_token_data (ct_X body) (ct_Y body)
         (if ct_Disposition body = [] then ''neutral'' else ct_Disposition body) of
         Inl _ \<Rightarrow> (internalError, db)
       | Inr data \<Rightarrow>
           let document = new_token env worldID sceneID body data
           in created ''core.scene.unknown'' (token_view (d_ID document) (d_Name document) (d_Img document) (d_Data document))
                (store_Tx (ad_Store d) (put_in_scene_tx worldID sceneID document) db)))"

section \<open>Actors\<close>

definition unmarshal_create_actor :: "raw \<Rightarrow> (string \<times> string) option" where
  "unmarshal_create_actor raw =
     (if struct_shape raw \<and> field_ok dec_string ''name'' raw \<and> field_ok dec_string ''subtype'' raw
      then Some (field_val dec_string [] ''name'' raw, field_val dec_string [] ''subtype'' raw)
      else None)"

text \<open>Maps are written in the order of their keys.\<close>

definition defaultVampireData :: json where
  "defaultVampireData =
     JObj [(''attributes'', JObj [(''charisma'', JInt 1), (''composure'', JInt 1), (''dexterity'', JInt 1),
             (''intelligence'', JInt 1), (''manipulation'', JInt 1), (''resolve'', JInt 1), (''stamina'', JInt 1),
             (''strength'', JInt 1), (''wits'', JInt 1)]),
           (''clan'', JStr []),
           (''health'', JObj [(''aggravated'', JInt 0), (''max'', JInt 4), (''superficial'', JInt 0)]),
           (''hunger'', JInt 1),
           (''notes'', JStr []),
           (''willpower'', JObj [(''aggravated'', JInt 0), (''max'', JInt 2), (''superficial'', JInt 0)])]"

definition new_actor :: "Env \<Rightarrow> ID \<Rightarrow> ID \<Rightarrow> string \<times> string \<Rightarrow> Document" where
  "new_actor env worldID uid = (\<lambda>(name, subtype). zero_document\<lparr>d_WorldID := worldID,
     d_ID := GenerateID ''actor'' (en_id env), d_Kind := KindActor,
     d_Subtype := (if subtype = [] then ''vampire'' else subtype),
     d_Name := trim_space (if trim_space name = [] then ''New character'' else name),
     d_Data := RawJson defaultVampireData,
     d_Ownership := marshal_string_map (map_put ''default'' ''limited'' (map_put uid ''owner'' [])),
     d_SchemaVersion := ''0.1.0''\<rparr>)"

definition createActorHandler :: "AuthDeps \<Rightarrow> Env \<Rightarrow> Request \<Rightarrow> User option \<Rightarrow> ID \<Rightarrow> DB \<Rightarrow> Response \<times> DB" where
  "createActorHandler d env rq user worldID db =
     proceed (requireRole d db user worldID True) db (\<lambda>actor.
     proceed (decodeBody unmarshal_create_actor rq) db (\<lambda>body.
       let document = new_actor env worldID (u_ID actor) body
       in created [] (actor_view document True) (store_Tx (ad_Store d) (put_tx document) db)))"

section \<open>Access to a document\<close>

definition unmarshal_access :: "raw \<Rightarrow> (string \<times> string) option" where
  "unmarshal_access raw =
     (if struct_shape raw \<and> field_ok dec_string ''userId'' raw \<and> field_ok dec_string ''level'' raw
      then Some (field_val dec_string [] ''userId'' raw, field_val dec_string [] ''level'' raw)
      else None)"

definition encoded_acl :: "ACL \<Rightarrow> raw" where
  "encoded_acl acl = marshal_string_map (map (\<lambda>(key, value). (key, Level_String value)) acl)"

definition access_tx :: "ID \<Rightarrow> ID \<Rightarrow> ID \<Rightarrow> Level \<Rightarrow> Conn \<Rightarrow> DB \<Rightarrow> (unit \<times> DB) res" where
  "access_tx worldID documentID uid level c db =
     bind_res (GetDocument c db worldID documentID) (\<lambda>document.
     bind_res (ParseACL (d_Ownership document)) (\<lambda>acl.
     put_tx (document\<lparr>d_Ownership := encoded_acl (map_put uid level acl)\<rparr>) c db))"

definition setDocumentAccessHandler :: "AuthDeps \<Rightarrow> Request \<Rightarrow> User option \<Rightarrow> ID \<Rightarrow> ID \<Rightarrow> DB \<Rightarrow> Response \<times> DB" where
  "setDocumentAccessHandler d rq user worldID documentID db =
     proceed (requireRole d db user worldID True) db (\<lambda>_.
     proceed (decodeBody unmarshal_access rq) db (\<lambda>(uid, name).
       case ParseLevel name of
         Inl _ \<Rightarrow> (writeJSON 400 (apiError ''bad_request'' ''core.world.unknownLevel''), db)
       | Inr level \<Rightarrow>
           done_or_missing ''core.document.unknown'' (store_Tx (ad_Store d) (access_tx worldID documentID uid level) db)))"

section \<open>Walls\<close>

record WallData =
  wd_X1 :: f64
  wd_Y1 :: f64
  wd_X2 :: f64
  wd_Y2 :: f64
  wd_BlocksSight :: bool
  wd_BlocksMove :: bool
  wd_BlocksSound :: bool
  wd_Door :: bool
  wd_DoorOpen :: bool

definition marshal_wall_data :: "WallData \<Rightarrow> json res" where
  "marshal_wall_data w =
     bind_res (marshal_float (wd_X1 w)) (\<lambda>x1. bind_res (marshal_float (wd_Y1 w)) (\<lambda>y1.
     bind_res (marshal_float (wd_X2 w)) (\<lambda>x2. bind_res (marshal_float (wd_Y2 w)) (\<lambda>y2.
     Inr (jobject [member ''x1'' x1, member ''y1'' y1, member ''x2'' x2, member ''y2'' y2,
       member ''blocksSight'' (JBool (wd_BlocksSight w)), member ''blocksMovement'' (JBool (wd_BlocksMove w)),
       member ''blocksSound'' (JBool (wd_BlocksSound w)), member ''door'' (JBool (wd_Door w)),
       member ''doorOpen'' (JBool (wd_DoorOpen w))])))))"

definition wall_data :: "raw \<Rightarrow> WallData" where
  "wall_data raw = \<lparr>wd_X1 = field_val dec_float (Fin 0) ''x1'' raw, wd_Y1 = field_val dec_float (Fin 0) ''y1'' raw,
     wd_X2 = field_val dec_float (Fin 0) ''x2'' raw, wd_Y2 = field_val dec_float (Fin 0) ''y2'' raw,
     wd_BlocksSight = field_val dec_bool False ''blocksSight'' raw, wd_BlocksMove = field_val dec_bool False ''blocksMovement'' raw,
     wd_BlocksSound = field_val dec_bool False ''blocksSound'' raw, wd_Door = field_val dec_bool False ''door'' raw,
     wd_DoorOpen = field_val dec_bool False ''doorOpen'' raw\<rparr>"

definition wall_view :: "ID \<Rightarrow> WallData \<Rightarrow> json res" where
  "wall_view wid w = bind_res (marshal_wall_data w) (\<lambda>data. Inr (jobject [member ''id'' (jstr wid), member ''data'' data]))"

definition listWallsHandler :: "AuthDeps \<Rightarrow> User option \<Rightarrow> ID \<Rightarrow> ID \<Rightarrow> DB \<Rightarrow> Response" where
  "listWallsHandler d user worldID sceneID db = answer (bind_res (requireRole d db user worldID False) (\<lambda>_.
     case store_ReadOnly (ad_Store d) (\<lambda>c db. ListDocuments c db worldID (children_filter KindWall sceneID)) db of
       Inl _ \<Rightarrow> Inl internalError
     | Inr documents \<Rightarrow>
         Inr (writeJSON 200 (json_array (map (\<lambda>doc. wall_view (d_ID doc) (wall_data (d_Data doc))) documents)))))"

record createWallRequest =
  wr_X1 :: f64
  wr_Y1 :: f64
  wr_X2 :: f64
  wr_Y2 :: f64
  wr_Door :: bool
  wr_BlocksSight :: "bool option"

definition unmarshal_create_wall :: "raw \<Rightarrow> createWallRequest option" where
  "unmarshal_create_wall raw =
     (if struct_shape raw \<and> field_ok dec_float ''x1'' raw \<and> field_ok dec_float ''y1'' raw \<and> field_ok dec_float ''x2'' raw \<and>
         field_ok dec_float ''y2'' raw \<and> field_ok dec_bool ''door'' raw \<and> field_ok (dec_ptr dec_bool) ''blocksSight'' raw
      then Some \<lparr>wr_X1 = field_val dec_float (Fin 0) ''x1'' raw, wr_Y1 = field_val dec_float (Fin 0) ''y1'' raw,
        wr_X2 = field_val dec_float (Fin 0) ''x2'' raw, wr_Y2 = field_val dec_float (Fin 0) ''y2'' raw,
        wr_Door = field_val dec_bool False ''door'' raw, wr_BlocksSight = field_val (dec_ptr dec_bool) None ''blocksSight'' raw\<rparr>
      else None)"

definition requested_wall :: "createWallRequest \<Rightarrow> WallData" where
  "requested_wall body = \<lparr>wd_X1 = wr_X1 body, wd_Y1 = wr_Y1 body, wd_X2 = wr_X2 body, wd_Y2 = wr_Y2 body,
     wd_BlocksSight = (case wr_BlocksSight body of None \<Rightarrow> True | Some b \<Rightarrow> b), wd_BlocksMove = True,
     wd_BlocksSound = (\<not> wr_Door body), wd_Door = wr_Door body, wd_DoorOpen = False\<rparr>"

definition new_wall :: "Env \<Rightarrow> ID \<Rightarrow> ID \<Rightarrow> json \<Rightarrow> Document" where
  "new_wall env worldID sceneID data = zero_document\<lparr>d_WorldID := worldID, d_ID := GenerateID ''wall'' (en_id env),
     d_Kind := KindWall, d_ParentID := sceneID, d_Name := ''Wall'', d_Data := RawJson data, d_Ownership := observer_default\<rparr>"

definition createWallHandler :: "AuthDeps \<Rightarrow> Env \<Rightarrow> Request \<Rightarrow> User option \<Rightarrow> ID \<Rightarrow> ID \<Rightarrow> DB \<Rightarrow> Response \<times> DB" where
  "createWallHandler d env rq user worldID sceneID db =
     proceed (requireRole d db user worldID True) db (\<lambda>_.
     proceed (decodeBody unmarshal_create_wall rq) db (\<lambda>body.
       if f_eq (wr_X1 body) (wr_X2 body) \<and> f_eq (wr_Y1 body) (wr_Y2 body)
       then (writeJSON 400 (apiError ''bad_request'' ''core.scene.wallHasNoLength''), db)
       else case marshal_wall_data (requested_wall body) of
           Inl _ \<Rightarrow> (internalError, db)
         | Inr data \<Rightarrow>
             let document = new_wall env worldID sceneID data
             in created ''core.scene.unknown'' (wall_view (d_ID document) (wall_data (d_Data document)))
                  (store_Tx (ad_Store d) (put_in_scene_tx worldID sceneID document) db)))"

section \<open>Lemmas on ownership\<close>

lemma parse_levels_keys: "parse_levels m = Inr acl \<Longrightarrow> map fst acl = map fst m"
  by (induction m arbitrary: acl rule: parse_levels.induct) (auto simp: res_simps)

lemma ParseACL_gomap: "ParseACL raw = Inr acl \<Longrightarrow> is_gomap acl"
proof -
  assume "ParseACL raw = Inr acl"
  then consider "acl = []" | m where "is_gomap m" "parse_levels m = Inr acl"
    by (auto simp: ParseACL_def unmarshal_string_map_def res_simps split: if_splits raw.splits json.splits option.splits)
  then show ?thesis by cases (auto simp: is_gomap_def dest: parse_levels_keys)
qed

lemma parse_encoded: "is_gomap acl \<Longrightarrow> ParseACL (encoded_acl acl) = Inr acl"
proof -
  assume acl: "is_gomap acl"
  let ?m = "map (\<lambda>(k, l). (k, Level_String l)) acl"
  have "map fst ?m = map fst acl" by (simp add: case_prod_unfold)
  then have "is_gomap ?m" using acl by (simp only: is_gomap_def)
  moreover have "parse_levels ?m = Inr acl" by (induction acl) (auto simp: ParseLevel_String)
  ultimately show ?thesis
    by (simp add: ParseACL_def encoded_acl_def string_map_roundtrip) (simp add: marshal_string_map_def)
qed

lemma access_tx_Inr:
  assumes "access_tx wid did uid level c db = Inr (x, db')"
  obtains doc acl where "row_get doc_key (wid, did) (t_documents db) = Some doc" "ParseACL (d_Ownership doc) = Inr acl"
    "PutDocument c (doc\<lparr>d_Ownership := encoded_acl (map_put uid level acl)\<rparr>) db = Inr db'"
  using assms by (auto simp: access_tx_def put_tx_def GetDocument_def res_simps split: option.splits)

lemma put_again:
  assumes "PutDocument c (doc\<lparr>d_Ownership := own\<rparr>) db = Inr db'" and "row_get doc_key (wid, did) (t_documents db) = Some doc"
    and "own \<noteq> RawNil"
  obtains doc' where "row_get doc_key (wid, did) (t_documents db') = Some doc'" "d_Ownership doc' = own"
    "d_FolderID doc' = d_FolderID doc" "d_WorldID doc' = d_WorldID doc" "d_Kind doc' = d_Kind doc" "d_Subtype doc' = d_Subtype doc"
    "\<And>k. k \<noteq> (wid, did) \<Longrightarrow> row_get doc_key k (t_documents db') = row_get doc_key k (t_documents db)"
    "t_worlds db' = t_worlds db" "t_members db' = t_members db"
proof -
  obtain st where st: "stored_document c (doc\<lparr>d_Ownership := own\<rparr>) = Inr st"
    using assms(1) by (auto simp: PutDocument_def res_simps)
  have f: "d_Ownership st = own" "d_FolderID st = d_FolderID doc" "d_WorldID st = d_WorldID doc" "d_Kind st = d_Kind doc"
      "d_Subtype st = d_Subtype doc"
    using st assms(3) by (auto simp: stored_document_def res_simps jsonArg_def split: raw.splits)
  have k: "doc_key (doc\<lparr>d_Ownership := own\<rparr>) = (wid, did)"
    using row_get_SomeD [OF assms(2)] by (auto simp: doc_key_def)
  have t: "t_worlds db' = t_worlds db" "t_members db' = t_members db"
    using assms(1) by (auto simp: PutDocument_def res_simps split: if_splits)
  have g: "row_get doc_key (wid, did) (t_documents db') = Some (merge_document doc st)"
    using get_after_put_document [OF assms(1) st, of "(wid, did)"] assms(2) k by simp
  show ?thesis
    by (rule that [OF g]) (use f t k get_after_put_document [OF assms(1) st] in \<open>simp_all add: merge_document_def\<close>)
qed

lemma grant_inputs_reowned:
  assumes "grant_inputs c db doc = Inr inputs" and "ParseACL (d_Ownership doc') = Inr acl"
    and "d_FolderID doc' = d_FolderID doc" "d_WorldID doc' = d_WorldID doc" "d_Kind doc' = d_Kind doc" "d_Subtype doc' = d_Subtype doc"
    and "row_get doc_key (d_WorldID doc, d_FolderID doc) (t_documents db') = row_get doc_key (d_WorldID doc, d_FolderID doc) (t_documents db)"
    and "t_worlds db' = t_worlds db"
  shows "grant_inputs c db' doc' = Inr (inputs\<lparr>in_Document := acl\<rparr>)"
proof -
  have "folderACL c db' doc' = folderACL c db doc" using assms(3,4,7) by (simp add: folderACL_def GetDocument_def)
  moreover have "worldDefault c db' doc' = worldDefault c db doc" 
    unfolding worldDefault_def GetWorld_def assms(4-6,8) ..
  ultimately show ?thesis using assms(1,2) by (auto simp: grant_inputs_def res_simps)
qed

section \<open>Lemmas on walls\<close>

text \<open>A number that survives being written and read: a finite \<open>float64\<close>.\<close>

definition representable :: "f64 \<Rightarrow> bool" where
  "representable x = (case x of Fin r \<Rightarrow> fl r = Fin r | _ \<Rightarrow> False)"

lemma dec_float_representable: "dec_float v = Assign x \<Longrightarrow> representable x"
  by (cases v) (auto simp: dec_f64_def representable_def dest: fl_idem split: f64.splits)

lemma field_float_representable: "representable (field_val dec_float (Fin 0) name raw)"
proof -
  have "representable (fold (\<lambda>s acc. case s of Assign v \<Rightarrow> v | _ \<Rightarrow> acc) slots x)"
    if "representable x" "\<forall>s \<in> set slots. \<forall>v. s = Assign v \<longrightarrow> representable v" for slots and x
    using that by (induction slots arbitrary: x) (auto split: slot.splits)
  moreover have "representable (Fin 0)" by (simp add: representable_def fl_def)
  moreover have "\<forall>s \<in> set (field_slots dec_float name raw). \<forall>v. s = Assign v \<longrightarrow> representable v"
    by (auto simp: field_slots_def intro: dec_float_representable)
  ultimately show ?thesis unfolding field_val_def by blast
qed

lemma dec_marshal_float: "representable x \<Longrightarrow> marshal_float x = Inr v \<Longrightarrow> dec_float v = Assign x"
  by (auto simp: representable_def marshal_float_def json_of_float_def dec_f64_def split: f64.splits)

lemma wall_names:
  "fold_name ''x1'' = ''x1''" "fold_name ''y1'' = ''y1''" "fold_name ''x2'' = ''x2''" "fold_name ''y2'' = ''y2''"
  "fold_name ''blocksSight'' = ''blockssight''" "fold_name ''blocksMovement'' = ''blocksmovement''"
  "fold_name ''blocksSound'' = ''blockssound''" "fold_name ''door'' = ''door''" "fold_name ''doorOpen'' = ''dooropen''"
  by code_simp+

definition wall_ok :: "WallData \<Rightarrow> bool" where
  "wall_ok w \<longleftrightarrow> representable (wd_X1 w) \<and> representable (wd_Y1 w) \<and> representable (wd_X2 w) \<and> representable (wd_Y2 w)"

lemma wall_roundtrip:
  assumes "wall_ok w" and "marshal_wall_data w = Inr data"
  shows "wall_data (RawJson data) = w \<and> wall_geometry (RawJson data) = Some
    \<lparr>wg_X1 = wd_X1 w, wg_Y1 = wd_Y1 w, wg_X2 = wd_X2 w, wg_Y2 = wd_Y2 w, wg_BlocksSight = wd_BlocksSight w,
     wg_Door = wd_Door w, wg_DoorOpen = wd_DoorOpen w\<rparr>"
proof -
  obtain x1 y1 x2 y2 where m: "marshal_float (wd_X1 w) = Inr x1" "marshal_float (wd_Y1 w) = Inr y1"
      "marshal_float (wd_X2 w) = Inr x2" "marshal_float (wd_Y2 w) = Inr y2"
      and data: "data = jobject [member ''x1'' x1, member ''y1'' y1, member ''x2'' x2, member ''y2'' y2,
        member ''blocksSight'' (JBool (wd_BlocksSight w)), member ''blocksMovement'' (JBool (wd_BlocksMove w)),
        member ''blocksSound'' (JBool (wd_BlocksSound w)), member ''door'' (JBool (wd_Door w)),
        member ''doorOpen'' (JBool (wd_DoorOpen w))]"
    using assms(2) by (auto simp: marshal_wall_data_def res_simps)
  have f: "dec_float x1 = Assign (wd_X1 w)" "dec_float y1 = Assign (wd_Y1 w)" "dec_float x2 = Assign (wd_X2 w)"
      "dec_float y2 = Assign (wd_Y2 w)"
    using assms(1) m dec_marshal_float by (auto simp: wall_ok_def)
  show ?thesis
    by (simp add: wall_data_def wall_geometry_def data jobject_def member_def List.map_filter_def struct_defs wall_names f
        del: fold_name.simps)
qed

lemma put_in_scene_Inr:
  assumes "put_in_scene_tx wid sid document c db = Inr (x, db')" and "row_get doc_key (doc_key document) (t_documents db) = None"
  obtains st where "stored_document c document = Inr st" "t_documents db' = t_documents db @ [st]" "doc_key st = doc_key document"
proof -
  have put: "PutDocument c document db = Inr db'"
    using assms(1) by (auto simp: put_in_scene_tx_def put_tx_def res_simps)
  then obtain st where st: "stored_document c document = Inr st"
      and db': "db' = db\<lparr>t_documents := row_upsert doc_key merge_document st (t_documents db)\<rparr>"
    by (auto simp: PutDocument_def res_simps split: if_splits)
  have k: "doc_key st = doc_key document" using st by (auto simp: stored_document_def res_simps doc_key_def)
  then have "\<not> list_ex (\<lambda>r. doc_key r = doc_key st) (t_documents db)"
    using assms(2) by (auto simp: row_get_None_iff list_ex_iff image_iff)
  then have "t_documents db' = t_documents db @ [st]" by (simp add: db' row_upsert_def)
  then show ?thesis using that st k by blast
qed

definition walls_of :: "DB \<Rightarrow> ID \<Rightarrow> ID \<Rightarrow> Document list" where
  "walls_of db wid sid = filter (\<lambda>doc. d_WorldID doc = wid \<and> filter_matches (children_filter ''wall'' sid) doc) (t_documents db)"

lemma BlockersOf_set:
  assumes "BlockersOf c db wid sid = Inr segments" and "length (walls_of db wid sid) \<le> 1000"
  shows "set segments = {g. \<exists>wall \<in> set (walls_of db wid sid). blocker_of wall = Some g}"
proof -
  have "f_Limit (children_filter ''wall'' sid) = 0" by (simp add: children_filter_def zero_filter_def)
  then have "segments = List.map_filter blocker_of (sort_key (\<lambda>d. (d_Sort d, d_ID d)) (walls_of db wid sid))"
    using assms by (auto simp: BlockersOf_def ListDocuments_def walls_of_def defaultLimit_def res_simps Let_def)
  then show ?thesis by (auto simp: List.map_filter_def split: option.splits) force
qed

section \<open>The properties of scenes and documents\<close>

text \<open>
  C24: setting a user's access to a document succeeds only for a game master of the world and for a
  known level.  It changes no other document, and the grants of this one change exactly as
  asked: the user's entry of the ownership is the new level, every other entry and the other
  two layers are as before; so a member who is not staff has exactly that level, capped at
  observer for observers.
\<close>

theorem set_access_spec:
  assumes "setDocumentAccessHandler d rq user wid did db = (rp, db')" and "rp_Status rp = 204"
    and "row_get doc_key (wid, did) (t_documents db) = Some doc" and "d_FolderID doc \<noteq> did"
    and "grant_inputs c db doc = Inr inputs"
  shows "\<exists>actor uid name level doc'. user = Some actor \<and> role_in db (wid, u_ID actor) = Some RoleGM \<and>
    unmarshal_access (rq_Body rq) = Some (uid, name) \<and> ParseLevel name = Inr level \<and>
    (\<forall>k. k \<noteq> (wid, did) \<longrightarrow> row_get doc_key k (t_documents db') = row_get doc_key k (t_documents db)) \<and>
    row_get doc_key (wid, did) (t_documents db') = Some doc' \<and>
    grant_inputs c db' doc' = Inr (inputs\<lparr>in_Document := map_put uid level (in_Document inputs)\<rparr>) \<and>
    (\<forall>subject. sub_UserID subject = uid \<and> \<not> IsStaff (sub_Role subject) \<longrightarrow>
       (\<exists>grant. resolver_Grant c db' subject doc' = Inr grant \<and> g_Level grant = min (role_cap (sub_Role subject)) level))"
proof -
  obtain actor uid name level where a: "requireRole d db user wid True = Inr actor"
      and b: "decodeBody unmarshal_access rq = Inr (uid, name)" and l: "ParseLevel name = Inr level"
      and tx: "done_or_missing ''core.document.unknown'' (store_Tx (ad_Store d) (access_tx wid did uid level) db) = (rp, db')"
    using assms(1,2) requireRole_Inl [of d db user wid True] decodeBody_Inl [of unmarshal_access rq]
    by (auto simp: setDocumentAccessHandler_def proceed_def split: sum.splits prod.splits)
  have "access_tx wid did uid level (ad_Store d\<lparr>c_writable := True\<rparr>) db = Inr ((), db')"
    using tx assms(2) by (auto simp: done_or_missing_def dest!: store_Tx_ok [THEN iffD1] split: sum.splits prod.splits if_splits)
  then obtain doc0 acl where acl: "row_get doc_key (wid, did) (t_documents db) = Some doc0" "ParseACL (d_Ownership doc0) = Inr acl"
      and put: "PutDocument (ad_Store d\<lparr>c_writable := True\<rparr>) (doc0\<lparr>d_Ownership := encoded_acl (map_put uid level acl)\<rparr>) db = Inr db'"
    by (rule access_tx_Inr)
  have doc0: "doc0 = doc" using acl(1) assms(3) by simp
  have parse: "ParseACL (encoded_acl (map_put uid level acl)) = Inr (map_put uid level acl)"
    using ParseACL_gomap [OF acl(2)] by (simp add: parse_encoded)
  have nn: "encoded_acl (map_put uid level acl) \<noteq> RawNil" by (simp add: encoded_acl_def marshal_string_map_def)
  obtain doc' where doc': "row_get doc_key (wid, did) (t_documents db') = Some doc'"
      "d_Ownership doc' = encoded_acl (map_put uid level acl)" "d_FolderID doc' = d_FolderID doc" "d_WorldID doc' = d_WorldID doc"
      "d_Kind doc' = d_Kind doc" "d_Subtype doc' = d_Subtype doc"
      "\<And>k. k \<noteq> (wid, did) \<Longrightarrow> row_get doc_key k (t_documents db') = row_get doc_key k (t_documents db)"
      "t_worlds db' = t_worlds db"
    using put_again [OF put acl(1) nn] doc0 by metis
  have in_doc: "in_Document inputs = acl" using assms(5) acl(2) doc0 by (auto simp: grant_inputs_def res_simps)
  have "grant_inputs c db' doc' = Inr (inputs\<lparr>in_Document := map_put uid level acl\<rparr>)"
    by (rule grant_inputs_reowned [OF assms(5)]) (use parse doc' assms(4) in simp_all)
  moreover have "resolved_level subject (inputs\<lparr>in_Document := map_put uid level acl\<rparr>) = level" if "sub_UserID subject = uid" for subject
    using that by (simp add: resolved_level_def ownership_layers_def)
  ultimately show ?thesis
    using a b l doc' in_doc by (auto simp: requireRole_Inr role_in_def decodeBody_Inr resolver_Grant_def Effective_level)
qed

definition sample_gm_user :: User where
  "sample_gm_user = sample_user\<lparr>u_ID := ''g''\<rparr>"

definition sample_access :: Request where
  "sample_access = sample_request (JObj [(''userId'', JStr ''p''), (''level'', JStr ''owner'')])"

lemma sample_access_status:
  "rp_Status (fst (setDocumentAccessHandler sample_deps sample_access (Some sample_gm_user) ''w'' ''orc'' sample_scene_db)) = 204"
  "row_get doc_key (''w'', ''orc'') (t_documents sample_scene_db) = Some sample_orc" "d_FolderID sample_orc \<noteq> ''orc''"
  "unmarshal_access (rq_Body sample_access) = Some (''p'', ''owner'')" "ParseLevel ''owner'' = Inr LevelOwner"
  by code_simp+

theorem set_access_spec_witness:
  "\<exists>doc' grant. row_get doc_key (''w'', ''orc'') (t_documents (snd (setDocumentAccessHandler sample_deps sample_access
       (Some sample_gm_user) ''w'' ''orc'' sample_scene_db))) = Some doc' \<and>
     resolver_Grant sample_conn (snd (setDocumentAccessHandler sample_deps sample_access
       (Some sample_gm_user) ''w'' ''orc'' sample_scene_db)) sample_player doc' = Inr grant \<and> g_Level grant = LevelOwner"
proof -
  obtain rp db' where e: "setDocumentAccessHandler sample_deps sample_access (Some sample_gm_user) ''w'' ''orc'' sample_scene_db = (rp, db')"
    by fastforce
  have "case grant_inputs sample_conn sample_scene_db sample_orc of Inl _ \<Rightarrow> False | Inr _ \<Rightarrow> True" by code_simp
  then obtain inputs where i: "grant_inputs sample_conn sample_scene_db sample_orc = Inr inputs" by (auto split: sum.splits)
  have p: "sub_UserID sample_player = ''p''" "\<not> IsStaff (sub_Role sample_player)" "min (role_cap (sub_Role sample_player)) LevelOwner = LevelOwner"
    by code_simp+
  show ?thesis
    using set_access_spec [OF e _ _ _ i] sample_access_status p e by fastforce
qed

text \<open>
  C25: the token list of a scene shows a member exactly the tokens of the scene that the member can
  see and may read, each in the form \<open>RedactDocument\<close> gives this member, for tokens with
  readable coordinates.
\<close>

theorem list_tokens_exact:
  assumes "rp_Status (listTokensHandler d user wid sid db) = 200" and "sid \<noteq> []"
    and c: "c = ad_Store d\<lparr>c_writable := False\<rparr>"
    and "ListDocuments c db wid (children_filter KindToken sid) = Inr docs" and "\<forall>doc \<in> set docs. pointOf doc \<noteq> None"
  shows "\<exists>u role visible. user = Some u \<and> RoleOf c db wid (u_ID u) = Inr role \<and>
    listTokensHandler d user wid sid db =
      writeJSON 200 (json_array (map (\<lambda>v. token_view (d_ID v) (d_Name v) (d_Img v) (d_Data v)) visible)) \<and>
    (\<forall>v. v \<in> set visible \<longleftrightarrow> (\<exists>doc \<in> set docs. \<exists>grant.
       CanSee c db \<lparr>sub_UserID = u_ID u, sub_Role = role\<rparr> wid doc = Inr True \<and>
       resolver_Grant c db \<lparr>sub_UserID = u_ID u, sub_Role = role\<rparr> doc = Inr grant \<and>
       RedactDocument doc \<lparr>sub_UserID = u_ID u, sub_Role = role\<rparr> grant (ad_Policy d) = Inr (Some v)))"
proof -
  obtain u where r: "requireRole d db user wid False = Inr u"
    using assms(1) requireRole_Inl [of d db user wid False]
    by (cases "requireRole d db user wid False") (auto simp: listTokensHandler_def answer_def)
  then have u: "user = Some u" by (simp add: requireRole_Inr)
  obtain visible where v: "listed_tokens d wid sid (u_ID u) c db = Inr visible"
    using assms(1) r c by (cases "listed_tokens d wid sid (u_ID u) c db")
      (auto simp: listTokensHandler_def answer_def store_ReadOnly_def)
  have rp: "listTokensHandler d user wid sid db =
      writeJSON 200 (json_array (map (\<lambda>v. token_view (d_ID v) (d_Name v) (d_Img v) (d_Data v)) visible))"
    using r v c by (simp add: listTokensHandler_def answer_def store_ReadOnly_def)
  obtain role out where role: "RoleOf c db wid (u_ID u) = Inr role"
      and out: "VisibleTokens c db \<lparr>sub_UserID = u_ID u, sub_Role = role\<rparr> wid sid docs = Inr out"
      and col: "collect_res (redacted d c db \<lparr>sub_UserID = u_ID u, sub_Role = role\<rparr> (\<lambda>_ visible. visible)) out = Inr visible"
    using v assms(4) by (auto simp: listed_tokens_def res_simps Let_def)
  let ?s = "\<lparr>sub_UserID = u_ID u, sub_Role = role\<rparr>"
  have "\<forall>doc \<in> set docs. d_Kind doc = ''token'' \<and> d_ParentID doc = sid \<and> pointOf doc \<noteq> None"
    using assms(4,5) by (auto simp: ListDocuments_def Let_def children_filter_def filter_matches_def column_is_def
        zero_filter_def KindToken_def dest: in_set_takeD)
  then have "out = filter (\<lambda>doc. CanSee c db ?s wid doc = Inr True) docs" by (rule VisibleTokens_eq [OF out assms(2)])
  moreover have "x \<in> set visible \<longleftrightarrow> (\<exists>doc \<in> set out. redacted d c db ?s (\<lambda>_ visible. visible) doc = Inr (Some x))" for x
    using collect_res_set [OF col] by auto
  moreover have "redacted d c db ?s (\<lambda>_ visible. visible) doc = Inr (Some x) \<longleftrightarrow>
      (\<exists>grant. resolver_Grant c db ?s doc = Inr grant \<and> RedactDocument doc ?s grant (ad_Policy d) = Inr (Some x))" for doc x
    by (auto simp: redacted_def res_simps)
  ultimately have "\<forall>v. v \<in> set visible \<longleftrightarrow> (\<exists>doc \<in> set docs. \<exists>grant. CanSee c db ?s wid doc = Inr True \<and>
      resolver_Grant c db ?s doc = Inr grant \<and> RedactDocument doc ?s grant (ad_Policy d) = Inr (Some v))"
    by auto
  then show ?thesis using u role rp by blast
qed

definition sample_tokens_db :: DB where
  "sample_tokens_db = sample_members_db\<lparr>t_documents := [sample_hero, sample_orc]\<rparr>"

lemma sample_tokens_list:
  "rp_Status (listTokensHandler sample_deps (Some sample_gm_user) ''w'' ''s'' sample_tokens_db) = 200"
  "ListDocuments (sample_conn\<lparr>c_writable := False\<rparr>) sample_tokens_db ''w'' (children_filter KindToken ''s'') = Inr [sample_hero, sample_orc]"
  by code_simp+

theorem list_tokens_exact_witness:
  "\<exists>visible role. listTokensHandler sample_deps (Some sample_gm_user) ''w'' ''s'' sample_tokens_db =
       writeJSON 200 (json_array (map (\<lambda>v. token_view (d_ID v) (d_Name v) (d_Img v) (d_Data v)) visible)) \<and>
     (\<forall>v \<in> set visible. \<exists>doc \<in> set [sample_hero, sample_orc]. \<exists>grant.
       RedactDocument doc \<lparr>sub_UserID = u_ID sample_gm_user, sub_Role = role\<rparr> grant (ad_Policy sample_deps) = Inr (Some v))"
proof -
  have "pointOf sample_hero \<noteq> None" "pointOf sample_orc \<noteq> None" by code_simp+
  then have "\<forall>doc \<in> set [sample_hero, sample_orc]. pointOf doc \<noteq> None" by simp
  moreover have "ListDocuments (ad_Store sample_deps\<lparr>c_writable := False\<rparr>) sample_tokens_db ''w'' (children_filter KindToken ''s'') =
      Inr [sample_hero, sample_orc]" using sample_tokens_list(2) by (simp only: sample_deps_def AuthDeps.select_convs)
  ultimately obtain u role visible where "Some sample_gm_user = Some u"
      and "listTokensHandler sample_deps (Some sample_gm_user) ''w'' ''s'' sample_tokens_db =
        writeJSON 200 (json_array (map (\<lambda>v. token_view (d_ID v) (d_Name v) (d_Img v) (d_Data v)) visible))"
      and "\<forall>v. v \<in> set visible \<longleftrightarrow> (\<exists>doc \<in> set [sample_hero, sample_orc]. \<exists>grant.
        CanSee (ad_Store sample_deps\<lparr>c_writable := False\<rparr>) sample_tokens_db \<lparr>sub_UserID = u_ID u, sub_Role = role\<rparr> ''w'' doc = Inr True \<and>
        resolver_Grant (ad_Store sample_deps\<lparr>c_writable := False\<rparr>) sample_tokens_db \<lparr>sub_UserID = u_ID u, sub_Role = role\<rparr> doc = Inr grant \<and>
        RedactDocument doc \<lparr>sub_UserID = u_ID u, sub_Role = role\<rparr> grant (ad_Policy sample_deps) = Inr (Some v))"
    using list_tokens_exact [OF sample_tokens_list(1) _ refl, of "[sample_hero, sample_orc]"] by blast
  then show ?thesis by blast
qed

text \<open>
  a wall that a game master adds to a scene blocks sight from then on: the segments that the
  sight calculation reads are the ones it read before and the requested one, to the last bit
  of its coordinates, unless the wall was asked not to block sight.
\<close>

theorem created_wall_blocks:
  assumes "createWallHandler d env rq user wid sid db = (rp, db')" and "rp_Status rp = 201" and "sid \<noteq> []"
    and "row_get doc_key (wid, GenerateID ''wall'' (en_id env)) (t_documents db) = None"
    and "length (walls_of db wid sid) < 1000"
    and "BlockersOf c db wid sid = Inr before" and "BlockersOf c db' wid sid = Inr after"
  shows "\<exists>actor body. user = Some actor \<and> role_in db (wid, u_ID actor) = Some RoleGM \<and>
    unmarshal_create_wall (rq_Body rq) = Some body \<and>
    set after = set before \<union> (if wr_BlocksSight body = Some False then {} else
      {\<lparr>seg_A = \<lparr>pt_X = wr_X1 body, pt_Y = wr_Y1 body\<rparr>, seg_B = \<lparr>pt_X = wr_X2 body, pt_Y = wr_Y2 body\<rparr>\<rparr>})"
proof -
  obtain actor body data where a: "requireRole d db user wid True = Inr actor"
      and b: "decodeBody unmarshal_create_wall rq = Inr body" and m: "marshal_wall_data (requested_wall body) = Inr data"
      and tx: "created ''core.scene.unknown'' (wall_view (d_ID (new_wall env wid sid data)) (wall_data (d_Data (new_wall env wid sid data))))
        (store_Tx (ad_Store d) (put_in_scene_tx wid sid (new_wall env wid sid data)) db) = (rp, db')"
    using assms(1,2) requireRole_Inl [of d db user wid True] decodeBody_Inl [of unmarshal_create_wall rq]
    by (auto simp: createWallHandler_def proceed_def Let_def split: sum.splits if_splits)
  let ?doc = "new_wall env wid sid data"
  have doc: "doc_key ?doc = (wid, GenerateID ''wall'' (en_id env))" "d_Data ?doc = RawJson data" "d_Ownership ?doc = observer_default"
      "d_Flags ?doc = RawNil" "d_Kind ?doc = ''wall''" "d_ParentID ?doc = sid" "d_DeletedAt ?doc = None" "d_WorldID ?doc = wid"
    by (simp_all add: new_wall_def doc_key_def zero_document_def KindWall_def)
  have "put_in_scene_tx wid sid ?doc (ad_Store d\<lparr>c_writable := True\<rparr>) db = Inr ((), db')"
    using tx assms(2) by (auto simp: created_def dest!: store_Tx_ok [THEN iffD1] split: sum.splits prod.splits if_splits)
  then obtain st where st: "stored_document (ad_Store d\<lparr>c_writable := True\<rparr>) ?doc = Inr st" "t_documents db' = t_documents db @ [st]"
    using put_in_scene_Inr [of wid sid ?doc] assms(4) doc(1) by metis
  have f: "d_Data st = RawJson data" "d_WorldID st = wid" "filter_matches (children_filter ''wall'' sid) st"
    using st(1) doc assms(3) by (auto simp: stored_document_def res_simps jsonArg_def filter_matches_def children_filter_def
        zero_filter_def column_is_def split: raw.splits)
  have w: "walls_of db' wid sid = walls_of db wid sid @ [st]" using st(2) f by (simp add: walls_of_def)
  have body: "unmarshal_create_wall (rq_Body rq) = Some body" using b by (simp add: decodeBody_Inr)
  then have "wall_ok (requested_wall body)"
    by (auto simp: unmarshal_create_wall_def requested_wall_def wall_ok_def field_float_representable split: if_splits)
  then have "blocker_of st = (if wr_BlocksSight body = Some False then None else
      Some \<lparr>seg_A = \<lparr>pt_X = wr_X1 body, pt_Y = wr_Y1 body\<rparr>, seg_B = \<lparr>pt_X = wr_X2 body, pt_Y = wr_Y2 body\<rparr>\<rparr>)"
    using wall_roundtrip [OF _ m] f(1) by (auto simp: blocker_of_def requested_wall_def split: option.splits)
  moreover have "set before = {g. \<exists>wall \<in> set (walls_of db wid sid). blocker_of wall = Some g}"
    using BlockersOf_set [OF assms(6)] assms(5) by simp
  moreover have "set after = {g. \<exists>wall \<in> set (walls_of db' wid sid). blocker_of wall = Some g}"
    using BlockersOf_set [OF assms(7)] assms(5) w by simp
  ultimately show ?thesis using a body w by (auto simp: requireRole_Inr role_in_def)
qed

definition sample_wall_request :: Request where
  "sample_wall_request = sample_request (JObj [(''x1'', JInt 1), (''y1'', JInt 2), (''x2'', JInt 3), (''y2'', JInt 2)])"

lemma sample_wall_made:
  "rp_Status (fst (createWallHandler sample_deps sample_http_env sample_wall_request (Some sample_gm_user) ''w'' ''s'' sample_members_db)) = 201"
  "row_get doc_key (''w'', GenerateID ''wall'' (en_id sample_http_env)) (t_documents sample_members_db) = None"
  "walls_of sample_members_db ''w'' ''s'' = []"
  by code_simp+

theorem created_wall_blocks_witness:
  "\<exists>segments body. BlockersOf sample_conn (snd (createWallHandler sample_deps sample_http_env sample_wall_request
       (Some sample_gm_user) ''w'' ''s'' sample_members_db)) ''w'' ''s'' = Inr segments \<and>
     unmarshal_create_wall (rq_Body sample_wall_request) = Some body \<and>
     \<lparr>seg_A = \<lparr>pt_X = wr_X1 body, pt_Y = wr_Y1 body\<rparr>, seg_B = \<lparr>pt_X = wr_X2 body, pt_Y = wr_Y2 body\<rparr>\<rparr> \<in> set segments"
proof -
  obtain rp db' where e: "createWallHandler sample_deps sample_http_env sample_wall_request (Some sample_gm_user) ''w'' ''s''
      sample_members_db = (rp, db')" by fastforce
  have "\<exists>segments. BlockersOf sample_conn db ''w'' ''s'' = Inr segments" for db
    by (simp add: BlockersOf_def ListDocuments_def stmt_def sample_conn_def Let_def)
  then obtain b1 b2 where b: "BlockersOf sample_conn sample_members_db ''w'' ''s'' = Inr b1" "BlockersOf sample_conn db' ''w'' ''s'' = Inr b2"
    by metis
  have "map_option wr_BlocksSight (unmarshal_create_wall (rq_Body sample_wall_request)) = Some None" by code_simp
  then show ?thesis
    using created_wall_blocks [OF e _ _ _ _ b] sample_wall_made e b(2) by fastforce
qed

text \<open>Only the first 1000 walls of a scene are ever read.\<close>

theorem blockers_capped: "BlockersOf c db wid sid = Inr segments \<Longrightarrow> length segments \<le> 1000"
proof -
  assume "BlockersOf c db wid sid = Inr segments"
  then obtain walls where "segments = List.map_filter blocker_of walls" "length walls \<le> 1000"
    by (auto simp: BlockersOf_def ListDocuments_def children_filter_def zero_filter_def defaultLimit_def res_simps Let_def)
  then show ?thesis by (metis List.map_filter_def length_filter_le length_map order_trans)
qed

end
