(* ===== verification/Blob.thy ===== *)
theory Blob
  imports Prelude
begin

text \<open>
  The blob store on disk (\<open>internal/core/blob/disk.go\<close>).  A \<open>Disk\<close> is its root and the
  regular files under it, by path.  What the operating system does on a call is the argument
  \<open>os_env\<close>: whether the context is done, which calls fail, and which name \<open>os.CreateTemp\<close> picks.
\<close>

definition fan_out :: nat where "fan_out = 2"
definition minimumKeySize :: nat where "minimumKeySize = 8"

section \<open>Paths\<close>

text \<open>
  \<open>filepath.Clean\<close> on Unix: empty and \<open>.\<close> components go, \<open>..\<close> takes back the component before it,
  and is kept only at the front of a relative path.
\<close>

definition clean_step :: "bool \<Rightarrow> string \<Rightarrow> string list \<Rightarrow> string list" where
  "clean_step rooted w ws =
     (if w = [] \<or> w = ''.'' then ws
      else if w = ''..'' then
        (if ws \<noteq> [] \<and> last ws \<noteq> ''..'' then butlast ws else if rooted then ws else ws @ [w])
      else ws @ [w])"

definition is_rooted :: "string \<Rightarrow> bool" where
  "is_rooted p \<longleftrightarrow> take 1 p = ''/''"

definition components :: "string \<Rightarrow> string list" where
  "components p = fold (clean_step (is_rooted p)) (split_on (CHR ''/'') p) []"

definition path_of :: "bool \<Rightarrow> string list \<Rightarrow> string" where
  "path_of rooted ws =
     (let p = (if rooted then ''/'' else []) @ join_with ''/'' ws in if p = [] then ''.'' else p)"

definition clean :: "string \<Rightarrow> string" where
  "clean p = path_of (is_rooted p) (components p)"

definition join_path :: "string list \<Rightarrow> string" where
  "join_path ws = (case filter (\<lambda>w. w \<noteq> []) ws of [] \<Rightarrow> [] | us \<Rightarrow> clean (join_with ''/'' us))"

definition file_dir :: "string \<Rightarrow> string" where
  "file_dir p = clean (rev (dropWhile (\<lambda>c. c \<noteq> CHR ''/'') (rev p)))"

section \<open>Keys\<close>

definition hex_lower :: "char \<Rightarrow> bool" where
  "hex_lower c \<longleftrightarrow> (CHR ''a'' \<le> c \<and> c \<le> CHR ''f'') \<or> is_digit c"

definition lower_alnum :: "char \<Rightarrow> bool" where
  "lower_alnum c \<longleftrightarrow> (CHR ''a'' \<le> c \<and> c \<le> CHR ''z'') \<or> is_digit c"

text \<open>A hyphen is no hexadecimal digit, so the first group of the pattern is all digits up to it.\<close>

definition keyPattern :: "string \<Rightarrow> bool" where
  "keyPattern key \<longleftrightarrow> length (takeWhile hex_lower key) \<ge> 8 \<and>
     (case dropWhile hex_lower key of
        [] \<Rightarrow> True
      | c # v \<Rightarrow> c = CHR ''-'' \<and> 1 \<le> length v \<and> length v \<le> 16 \<and> list_all lower_alnum v)"

record Disk =
  dk_root :: string
  dk_files :: "string gomap"

definition disk_path :: "Disk \<Rightarrow> string \<Rightarrow> string res" where
  "disk_path d key =
     (if length key < minimumKeySize \<or> \<not> keyPattern key then Inl ErrInvalidKey
      else Inr (join_path [dk_root d, take fan_out key, take fan_out (drop fan_out key), key]))"

section \<open>Operations\<close>

record os_env =
  os_done :: bool
  os_fails :: "string \<Rightarrow> bool"
  os_temp :: string

definition NewDisk :: "os_env \<Rightarrow> string \<Rightarrow> Disk res" where
  "NewDisk env dir = (if os_fails env ''mkdir'' then Inl (ErrDriver ''mkdir'') else Inr \<lparr>dk_root = dir, dk_files = []\<rparr>)"

text \<open>The deferred removal of the temporary file, whose own error is dropped.\<close>

definition remove_temp :: "os_env \<Rightarrow> string \<Rightarrow> string gomap \<Rightarrow> string gomap" where
  "remove_temp env temp files = (if os_fails env ''remove'' then files else map_del temp files)"

definition disk_Put :: "os_env \<Rightarrow> string \<Rightarrow> string \<Rightarrow> Disk \<Rightarrow> unit res \<times> Disk" where
  "disk_Put env key content d =
     (if os_done env then (Inl (ErrDriver ''context''), d)
      else case disk_path d key of
          Inl e \<Rightarrow> (Inl e, d)
        | Inr target \<Rightarrow>
            if os_fails env ''mkdir'' then (Inl (ErrDriver ''mkdir''), d)
            else if os_fails env ''create'' then (Inl (ErrDriver ''create''), d)
            else
              let temp = file_dir target @ ''/.upload-'' @ os_temp env;
                  files = map_put temp [] (dk_files d)
              in if os_fails env ''write''
                 then (Inl (ErrDriver ''write''), d\<lparr>dk_files := remove_temp env temp files\<rparr>)
                 else
                   let files = map_put temp content files
                   in case find (os_fails env) [''chmod'', ''sync'', ''close'', ''rename''] of
                        Some op \<Rightarrow> (Inl (ErrDriver op), d\<lparr>dk_files := remove_temp env temp files\<rparr>)
                      | None \<Rightarrow> (Inr (), d\<lparr>dk_files := map_put target content (map_del temp files)\<rparr>))"

definition disk_Open :: "os_env \<Rightarrow> string \<Rightarrow> Disk \<Rightarrow> (string \<times> int) res" where
  "disk_Open env key d =
     (if os_done env then Inl (ErrDriver ''context'')
      else bind_res (disk_path d key) (\<lambda>target.
        case map_of (dk_files d) target of
          None \<Rightarrow> Inl ErrBlobNotFound
        | Some content \<Rightarrow>
            if os_fails env ''open'' then Inl (ErrDriver ''open'')
            else if os_fails env ''stat'' then Inl (ErrDriver ''stat'')
            else Inr (content, int (length content))))"

definition disk_Delete :: "os_env \<Rightarrow> string \<Rightarrow> Disk \<Rightarrow> unit res \<times> Disk" where
  "disk_Delete env key d =
     (if os_done env then (Inl (ErrDriver ''context''), d)
      else case disk_path d key of
          Inl e \<Rightarrow> (Inl e, d)
        | Inr target \<Rightarrow>
            if map_of (dk_files d) target = None then (Inr (), d)
            else if os_fails env ''remove'' then (Inl (ErrDriver ''remove''), d)
            else (Inr (), d\<lparr>dk_files := map_del target (dk_files d)\<rparr>))"

section \<open>Lemmas on paths\<close>

lemma split_on_app:
  "split_on d (s @ d # t) = split_on d s @ split_on d t"
  by (induction s) (auto split: list.splits simp: split_on_nonempty)

definition plain :: "string \<Rightarrow> bool" where
  "plain w \<longleftrightarrow> w \<noteq> [] \<and> w \<noteq> ''.'' \<and> w \<noteq> ''..'' \<and> CHR ''/'' \<notin> set w"

lemma clean_plain: "list_all plain us \<Longrightarrow> fold (clean_step rooted) us ws = ws @ us"
  by (induction us arbitrary: ws) (auto simp: clean_step_def plain_def)

lemma clean_step_set: "set (clean_step r u ws) \<subseteq> insert u (set ws)"
  by (auto simp: clean_step_def dest: in_set_butlastD)

lemma components_no_slash: "w \<in> set (components p) \<Longrightarrow> CHR ''/'' \<notin> set w"
proof -
  have "set (fold (clean_step r) us ws) \<subseteq> set us \<union> set ws" for r us ws
  proof (induction us arbitrary: ws)
    case (Cons u us)
    then show ?case using clean_step_set [of r u ws] by fastforce
  qed simp
  from this [of "is_rooted p" "split_on (CHR ''/'') p" "[]"]
  show "w \<in> set (components p) \<Longrightarrow> CHR ''/'' \<notin> set w"
    using split_on_no_sep unfolding components_def by fastforce
qed

lemma join_plain:
  assumes "us \<noteq> []" and "list_all plain us"
  shows "is_rooted (join_with ''/'' us) = False" and "components (join_with ''/'' us) = us"
proof -
  obtain u vs where us: "us = u # vs" using assms(1) by (cases us) auto
  have "take 1 (join_with ''/'' us) = take 1 u"
    using assms us by (cases vs) (auto simp: plain_def neq_Nil_conv)
  then show r: "is_rooted (join_with ''/'' us) = False"
    using assms us by (cases u) (auto simp: is_rooted_def plain_def)
  have "split_on (CHR ''/'') (join_with ''/'' us) = us"
    using assms by (intro split_join) (auto simp: plain_def list_all_iff)
  then show "components (join_with ''/'' us) = us" using assms(2) by (simp add: components_def clean_plain)
qed

text \<open>Joining plain components to a directory appends them to its cleaned components.\<close>

lemma join_with_root: "us \<noteq> [] \<Longrightarrow> join_with ''/'' (r # us) = r @ ''/'' @ join_with ''/'' us"
  by (cases us) auto

lemma join_path_plain:
  assumes "us \<noteq> []" and "list_all plain us"
  shows "join_path (dir # us) = path_of (is_rooted dir) (components dir @ us)"
proof (cases "dir = []")
  case True
  have "filter (\<lambda>w. w \<noteq> []) us = us" using assms(2) by (auto simp: filter_id_conv plain_def list_all_iff)
  then have "join_path (dir # us) = clean (join_with ''/'' us)" using assms(1) True by (cases us) (auto simp: join_path_def)
  then show ?thesis using join_plain [OF assms] True by (simp add: clean_def is_rooted_def components_def clean_step_def)
next
  case False
  define p where "p = dir @ ''/'' @ join_with ''/'' us"
  have "filter (\<lambda>w. w \<noteq> []) us = us" using assms(2) by (auto simp: filter_id_conv plain_def list_all_iff)
  then have p: "join_path (dir # us) = clean p" using False join_with_root [OF assms(1)] by (simp add: join_path_def p_def)
  have r: "is_rooted p = is_rooted dir" using False by (cases dir) (auto simp: is_rooted_def p_def)
  have "split_on (CHR ''/'') p = split_on (CHR ''/'') dir @ us"
    using split_join [OF assms(1), of "CHR ''/''"] assms(2) by (simp add: split_on_app plain_def list_all_iff p_def)
  then have "components p = components dir @ us" by (simp add: components_def r clean_plain [OF assms(2)])
  with p r show ?thesis by (simp add: clean_def)
qed

lemma path_of_inject:
  assumes "path_of r us = path_of r vs" and "us \<noteq> []" "vs \<noteq> []"
    and "\<And>w. w \<in> set us \<union> set vs \<Longrightarrow> CHR ''/'' \<notin> set w" and "us \<noteq> [[]]" "vs \<noteq> [[]]"
  shows "us = vs"
proof -
  have ne: "join_with ''/'' ws \<noteq> []" if "ws \<noteq> []" "ws \<noteq> [[]]" for ws
    using that by (cases ws; cases "tl ws") auto
  have "join_with ''/'' us = join_with ''/'' vs"
    using assms(1) ne [OF assms(2,5)] ne [OF assms(3,6)] by (cases r) (auto simp: path_of_def Let_def)
  moreover have "split_on (CHR ''/'') (join_with ''/'' us) = us" by (rule split_join) (use assms in auto)
  moreover have "split_on (CHR ''/'') (join_with ''/'' vs) = vs" by (rule split_join) (use assms in auto)
  ultimately show ?thesis by metis
qed

lemma key_chars:
  assumes "keyPattern key" and "c \<in> set key"
  shows "c \<noteq> CHR ''/''" and "c \<noteq> CHR ''.''"
proof -
  have "set key = set (takeWhile hex_lower key) \<union> set (dropWhile hex_lower key)"
    by (metis set_append takeWhile_dropWhile_id)
  then have "hex_lower c \<or> c = CHR ''-'' \<or> lower_alnum c"
    using assms by (auto simp: keyPattern_def list_all_iff dest: set_takeWhileD split: list.splits)
  moreover have "\<not> hex_lower (CHR ''/'')" "\<not> lower_alnum (CHR ''/'')" "\<not> hex_lower (CHR ''.'')" "\<not> lower_alnum (CHR ''.'')"
    by code_simp+
  ultimately show "c \<noteq> CHR ''/''" "c \<noteq> CHR ''.''" by auto
qed

lemma key_parts_plain:
  assumes "keyPattern key"
  shows "list_all plain [take fan_out key, take fan_out (drop fan_out key), key]"
proof -
  have len: "8 \<le> length key" using assms length_takeWhile_le [of hex_lower key] by (simp add: keyPattern_def)
  have "plain w" if "w \<noteq> []" "set w \<subseteq> set key" for w
    using that key_chars [OF assms] by (fastforce simp: plain_def)
  moreover have "take fan_out key \<noteq> []" "take fan_out (drop fan_out key) \<noteq> []" "key \<noteq> []"
    using len by (auto simp: fan_out_def)
  moreover have "set (take fan_out key) \<subseteq> set key" "set (take fan_out (drop fan_out key)) \<subseteq> set key"
    by (auto dest!: in_set_takeD in_set_dropD)
  ultimately show ?thesis by simp
qed

section \<open>The disk as a map from keys to contents\<close>

lemma disk_path_Inr:
  "disk_path d key = Inr p \<longleftrightarrow> keyPattern key \<and>
     p = path_of (is_rooted (dk_root d)) (components (dk_root d) @ [take fan_out key, take fan_out (drop fan_out key), key])"
proof -
  have "keyPattern key \<Longrightarrow> \<not> length key < minimumKeySize"
    using length_takeWhile_le [of hex_lower key] by (auto simp: keyPattern_def minimumKeySize_def)
  moreover have "keyPattern key \<Longrightarrow> join_path [dk_root d, take fan_out key, take fan_out (drop fan_out key), key] =
      path_of (is_rooted (dk_root d)) (components (dk_root d) @ [take fan_out key, take fan_out (drop fan_out key), key])"
    using key_parts_plain by (intro join_path_plain) auto
  ultimately show ?thesis by (auto simp: disk_path_def)
qed

lemma path_of_last:
  assumes "ws \<noteq> []" and "\<And>w. w \<in> set ws \<Longrightarrow> CHR ''/'' \<notin> set w" and "last ws \<noteq> []"
  shows "last (split_on (CHR ''/'') (path_of r ws)) = last ws"
proof -
  have j: "split_on (CHR ''/'') (join_with ''/'' ws) = ws" by (rule split_join) (use assms in auto)
  then have "join_with ''/'' ws \<noteq> []" using assms by auto
  moreover have "split_on (CHR ''/'') (CHR ''/'' # join_with ''/'' ws) = [] # ws" using j by simp
  ultimately show ?thesis using j assms(1) by (cases r) (simp_all add: path_of_def Let_def)
qed

lemma disk_path_last:
  assumes "disk_path d key = Inr p"
  shows "last (split_on (CHR ''/'') p) = key"
proof -
  have k: "keyPattern key" "list_all plain [take fan_out key, take fan_out (drop fan_out key), key]"
    using assms key_parts_plain by (auto simp: disk_path_Inr)
  define ws where "ws = components (dk_root d) @ [take fan_out key, take fan_out (drop fan_out key), key]"
  have p: "p = path_of (is_rooted (dk_root d)) ws" using assms by (simp add: disk_path_Inr ws_def)
  have "CHR ''/'' \<notin> set w" if "w \<in> set ws" for w
    using that k(2) components_no_slash [of w "dk_root d"] by (auto simp: ws_def plain_def)
  moreover have "last ws = key" "ws \<noteq> []" "key \<noteq> []" using k(2) by (simp_all add: ws_def plain_def)
  ultimately show ?thesis unfolding p by (metis path_of_last)
qed

lemma disk_path_inject: "disk_path d k = Inr p \<Longrightarrow> disk_path d k' = Inr p \<Longrightarrow> k = k'"
  using disk_path_last by metis

lemma temp_is_no_key:
  assumes "CHR ''/'' \<notin> set t" and "disk_path d key = Inr p"
  shows "p \<noteq> x @ ''/.upload-'' @ t"
proof
  assume p: "p = x @ ''/.upload-'' @ t"
  have "split_on (CHR ''/'') p = split_on (CHR ''/'') x @ split_on (CHR ''/'') (''.upload-'' @ t)"
    using split_on_app [of "CHR ''/''" x "''.upload-'' @ t"] by (simp add: p)
  then have "last (split_on (CHR ''/'') p) = ''.upload-'' @ t" using assms(1) by (simp add: split_on_sep_free)
  then have "key = ''.upload-'' @ t" using disk_path_last [OF assms(2)] by simp
  moreover have "keyPattern key" using assms(2) by (simp add: disk_path_Inr)
  ultimately show False using key_chars(2) [of key "CHR ''.''"] by auto
qed

definition blob_at :: "Disk \<Rightarrow> string \<Rightarrow> string option" where
  "blob_at d key = (case disk_path d key of Inl _ \<Rightarrow> None | Inr p \<Rightarrow> map_of (dk_files d) p)"

lemma blob_at_path: "disk_path d key = Inr p \<Longrightarrow> blob_at d key = map_of (dk_files d) p"
  by (simp add: blob_at_def)

lemma blob_at_bad: "disk_path d key = Inl e \<Longrightarrow> blob_at d key = None"
  by (simp add: blob_at_def)

lemma disk_path_files [simp]: "disk_path (d\<lparr>dk_files := files\<rparr>) key = disk_path d key"
  by (simp add: disk_path_def)

lemma blob_at_same:
  "(\<And>key p. disk_path d key = Inr p \<Longrightarrow> map_of files p = map_of (dk_files d) p) \<Longrightarrow> blob_at (d\<lparr>dk_files := files\<rparr>) = blob_at d"
  by (auto simp: blob_at_def fun_eq_iff split: sum.splits)

lemma disk_Put_ok:
  assumes "disk_Put env key content d = (Inr (), d')" and "CHR ''/'' \<notin> set (os_temp env)"
  shows "blob_at d' = (blob_at d)(key \<mapsto> content) \<and> keyPattern key"
proof -
  obtain p where p: "disk_path d key = Inr p" using assms(1) by (auto simp: disk_Put_def split: if_splits sum.splits)
  let ?temp = "file_dir p @ ''/.upload-'' @ os_temp env"
  have d': "d' = d\<lparr>dk_files := map_put p content (map_del ?temp (map_put ?temp content (map_put ?temp [] (dk_files d))))\<rparr>"
    using assms(1) p by (auto simp: disk_Put_def Let_def split: if_splits option.splits)
  have "blob_at d' k = ((blob_at d)(key \<mapsto> content)) k" for k
  proof (cases "disk_path d k")
    case (Inl e)
    then have "k \<noteq> key" "disk_path d' k = Inl e" using p by (auto simp: d')
    then show ?thesis using Inl by (simp add: blob_at_bad)
  next
    case (Inr q)
    then have "disk_path d' k = Inr q" by (simp add: d')
    moreover have "q \<noteq> ?temp" by (rule temp_is_no_key [OF assms(2) Inr])
    moreover have "q = p \<longleftrightarrow> k = key" using Inr p disk_path_inject by auto
    ultimately show ?thesis using Inr by (simp add: blob_at_path) (simp add: d')
  qed
  then show ?thesis using p by (auto simp: disk_path_Inr)
qed

lemma disk_Put_error:
  assumes "disk_Put env key content d = (Inl e, d')" and "CHR ''/'' \<notin> set (os_temp env)"
  shows "blob_at d' = blob_at d"
proof (cases "disk_path d key")
  case (Inr p)
  let ?temp = "file_dir p @ ''/.upload-'' @ os_temp env"
  have "d' = d \<or> (\<exists>v. d' = d\<lparr>dk_files := remove_temp env ?temp (map_put ?temp v (map_put ?temp [] (dk_files d)))\<rparr>) \<or>
      d' = d\<lparr>dk_files := remove_temp env ?temp (map_put ?temp [] (dk_files d))\<rparr>"
    using assms(1) Inr by (auto simp: disk_Put_def Let_def split: if_splits option.splits)
  moreover have "blob_at (d\<lparr>dk_files := remove_temp env ?temp (map_put ?temp v (map_put ?temp [] (dk_files d)))\<rparr>) = blob_at d"
    "blob_at (d\<lparr>dk_files := remove_temp env ?temp (map_put ?temp [] (dk_files d))\<rparr>) = blob_at d" for v
    using temp_is_no_key [OF assms(2), where x = "file_dir p"] by (auto intro!: blob_at_same simp: remove_temp_def)
  ultimately show ?thesis by metis
qed (use assms in \<open>auto simp: disk_Put_def split: if_splits\<close>)

lemma disk_Open_Inr: "disk_Open env key d = Inr (content, n) \<Longrightarrow> blob_at d key = Some content \<and> n = int (length content)"
  by (cases "disk_path d key") (auto simp: disk_Open_def blob_at_path split: if_splits option.splits)

lemma disk_Open_missing: "disk_Open env key d = Inl ErrBlobNotFound \<Longrightarrow> blob_at d key = None"
  by (cases "disk_path d key") (auto simp: disk_Open_def blob_at_path blob_at_bad split: if_splits option.splits)

lemma disk_Delete_ok: "disk_Delete env key d = (Inr (), d') \<Longrightarrow> blob_at d' = (blob_at d)(key := None)"
proof -
  assume del: "disk_Delete env key d = (Inr (), d')"
  then obtain p where p: "disk_path d key = Inr p" by (cases "disk_path d key") (auto simp: disk_Delete_def split: if_splits)
  have d': "(d' = d \<and> map_of (dk_files d) p = None) \<or> d' = d\<lparr>dk_files := map_del p (dk_files d)\<rparr>"
    using del p by (auto simp: disk_Delete_def split: if_splits)
  have "blob_at d' k = ((blob_at d)(key := None)) k" for k
  proof (cases "disk_path d k")
    case (Inl e)
    then have "k \<noteq> key" "disk_path d' k = Inl e" using p d' by auto
    then show ?thesis using Inl by (simp add: blob_at_bad)
  next
    case (Inr q)
    then have "disk_path d' k = Inr q" using d' by auto
    moreover have "q = p \<longleftrightarrow> k = key" using Inr p disk_path_inject by auto
    ultimately show ?thesis using Inr d' by (auto simp: blob_at_path)
  qed
  then show ?thesis by auto
qed

lemma disk_Delete_error: "disk_Delete env key d = (Inl e, d') \<Longrightarrow> d' = d"
  by (auto simp: disk_Delete_def split: if_splits sum.splits)

section \<open>The interface of a blob store\<close>

text \<open>
  \<open>blob.Store\<close> (\<open>internal/core/blob/blob.go\<close>): what a client may rely on, whatever holds the bytes.
  \<open>holds\<close> is the content by key, \<open>sane\<close> what is assumed of the environment.
\<close>

locale blob_store =
  fixes holds :: "'s \<Rightarrow> string \<Rightarrow> string option"
    and put :: "'e \<Rightarrow> string \<Rightarrow> string \<Rightarrow> 's \<Rightarrow> unit res \<times> 's"
    and fetch :: "'e \<Rightarrow> string \<Rightarrow> 's \<Rightarrow> (string \<times> int) res"
    and delete :: "'e \<Rightarrow> string \<Rightarrow> 's \<Rightarrow> unit res \<times> 's"
    and sane :: "'e \<Rightarrow> bool"
  assumes put_ok: "put env key content st = (Inr (), st') \<Longrightarrow> sane env \<Longrightarrow> holds st' = (holds st)(key \<mapsto> content)"
    and put_error: "put env key content st = (Inl e, st') \<Longrightarrow> sane env \<Longrightarrow> holds st' = holds st"
    and fetch_ok: "fetch env key st = Inr (content, n) \<Longrightarrow> holds st key = Some content \<and> n = int (length content)"
    and fetch_missing: "fetch env key st = Inl ErrBlobNotFound \<Longrightarrow> holds st key = None"
    and delete_ok: "delete env key st = (Inr (), st') \<Longrightarrow> holds st' = (holds st)(key := None)"
    and delete_error: "delete env key st = (Inl e, st') \<Longrightarrow> holds st' = holds st"
begin

text \<open>What was put is what is read, until the key is put or deleted again.\<close>

lemma fetch_after_put:
  assumes "put env key content st = (Inr (), st')" and "sane env" and "fetch env' key st' = Inr (found, n)"
  shows "found = content \<and> n = int (length content)"
  using fetch_ok [OF assms(3)] put_ok [OF assms(1,2)] by simp

lemma put_keeps_others:
  assumes "put env key content st = (r, st')" and "sane env" and "key' \<noteq> key"
  shows "holds st' key' = holds st key'"
  using put_ok [of env key content st st'] put_error [of env key content st _ st'] assms by (cases r) auto

lemma put_twice:
  assumes "put env k1 c1 st = (Inr (), st1)" "put env' k2 c2 st1 = (r, st2)" and "sane env" "sane env'" and "k1 \<noteq> k2 \<or> c1 = c2"
  shows "holds st2 k1 = Some c1"
  using put_ok [OF assms(1,3)] put_ok [of env' k2 c2 st1 st2] put_error [of env' k2 c2 st1 _ st2] assms by (cases r) auto

end

interpretation disk: blob_store blob_at disk_Put disk_Open disk_Delete "\<lambda>env. CHR ''/'' \<notin> set (os_temp env)"
proof
  fix env key content st st' e n
  show "disk_Put env key content st = (Inr (), st') \<Longrightarrow> CHR ''/'' \<notin> set (os_temp env) \<Longrightarrow> blob_at st' = (blob_at st)(key \<mapsto> content)"
    using disk_Put_ok by blast
  show "disk_Put env key content st = (Inl e, st') \<Longrightarrow> CHR ''/'' \<notin> set (os_temp env) \<Longrightarrow> blob_at st' = blob_at st"
    by (rule disk_Put_error)
  show "disk_Open env key st = Inr (content, n) \<Longrightarrow> blob_at st key = Some content \<and> n = int (length content)"
    by (rule disk_Open_Inr)
  show "disk_Open env key st = Inl ErrBlobNotFound \<Longrightarrow> blob_at st key = None" by (rule disk_Open_missing)
  show "disk_Delete env key st = (Inr (), st') \<Longrightarrow> blob_at st' = (blob_at st)(key := None)" by (rule disk_Delete_ok)
  show "disk_Delete env key st = (Inl e, st') \<Longrightarrow> blob_at st' = blob_at st" by (auto dest: disk_Delete_error)
qed

section \<open>The properties of the disk store\<close>

text \<open>
  an accepted key names a file below the root: its path is the cleaned root followed by exactly
  three components, two directories and the key itself, none of them empty, \<open>.\<close> or \<open>..\<close> and
  none containing a slash; different keys name different files.  A key outside the pattern is
  refused by every operation, which then changes nothing.
\<close>

theorem blob_confined:
  "(case disk_path d key of
      Inr p \<Rightarrow> keyPattern key \<and> (\<exists>a b. p = path_of (is_rooted (dk_root d)) (components (dk_root d) @ [a, b, key]) \<and> list_all plain [a, b, key])
    | Inl e \<Rightarrow> e = ErrInvalidKey \<and> \<not> keyPattern key \<and> snd (disk_Put env key content d) = d \<and> snd (disk_Delete env key d) = d \<and>
        (\<forall>found. disk_Open env key d \<noteq> Inr found)) \<and>
   (\<forall>p. disk_path d key = Inr p \<and> disk_path d key' = Inr p \<longrightarrow> key = key')"
proof (intro conjI allI impI)
  show "case disk_path d key of
      Inr p \<Rightarrow> keyPattern key \<and> (\<exists>a b. p = path_of (is_rooted (dk_root d)) (components (dk_root d) @ [a, b, key]) \<and> list_all plain [a, b, key])
    | Inl e \<Rightarrow> e = ErrInvalidKey \<and> \<not> keyPattern key \<and> snd (disk_Put env key content d) = d \<and> snd (disk_Delete env key d) = d \<and>
        (\<forall>found. disk_Open env key d \<noteq> Inr found)"
  proof (cases "disk_path d key")
    case (Inl e)
    have "\<not> keyPattern key" using Inl by (metis Inr_Inl_False disk_path_Inr)
    then show ?thesis using Inl by (auto simp: disk_path_def disk_Put_def disk_Delete_def disk_Open_def split: if_splits)
  next
    case (Inr p)
    then have "keyPattern key" by (simp add: disk_path_Inr)
    moreover have "p = path_of (is_rooted (dk_root d)) (components (dk_root d) @ [take fan_out key, take fan_out (drop fan_out key), key])"
      using Inr by (simp add: disk_path_Inr)
    ultimately show ?thesis using Inr key_parts_plain [of key] by (simp only: sum.case) blast
  qed
qed (auto dest: disk_path_inject)

text \<open>
  C29: the disk implements a map from keys to contents.  A successful put sets one key and reading
  it back gives the same bytes and their number; a put that fails at any step, and a failed
  delete, change no content; a successful delete removes one key; only a key without content is
  reported as missing.
\<close>

theorem disk_refines_map:
  assumes "CHR ''/'' \<notin> set (os_temp env)"
  shows "(case disk_Put env key content d of
      (Inr _, d') \<Rightarrow> blob_at d' = (blob_at d)(key \<mapsto> content) \<and>
        (\<forall>env' found. disk_Open env' key d' = Inr found \<longrightarrow> found = (content, int (length content)))
    | (Inl _, d') \<Rightarrow> blob_at d' = blob_at d) \<and>
    (case disk_Delete env key d of
      (Inr _, d') \<Rightarrow> blob_at d' = (blob_at d)(key := None)
    | (Inl _, d') \<Rightarrow> blob_at d' = blob_at d) \<and>
    (disk_Open env key d = Inl ErrBlobNotFound \<longrightarrow> blob_at d key = None)"
  using disk.put_ok [OF _ assms, of key content d] disk.put_error [OF _ assms, of key content d]
    disk.fetch_after_put [OF _ assms, of key content d] disk.delete_ok [of env key d] disk.delete_error [of env key d]
    disk.fetch_missing [of env key d]
  by (auto split: prod.split sum.split)

definition sample_os :: os_env where
  "sample_os = \<lparr>os_done = False, os_fails = (\<lambda>_. False), os_temp = ''1''\<rparr>"

theorem disk_refines_map_witness:
  "CHR ''/'' \<notin> set (os_temp sample_os) \<and>
   (case disk_Put sample_os ''a1b2c3d4'' ''map'' \<lparr>dk_root = ''data/blobs'', dk_files = []\<rparr> of
      (Inr _, d') \<Rightarrow> blob_at d' ''a1b2c3d4'' = Some ''map''
    | (Inl _, d') \<Rightarrow> False)"
proof -
  let ?d = "\<lparr>dk_root = ''data/blobs'', dk_files = []\<rparr>"
  have "case fst (disk_Put sample_os ''a1b2c3d4'' ''map'' ?d) of Inr _ \<Rightarrow> True | Inl _ \<Rightarrow> False" by code_simp
  moreover have "CHR ''/'' \<notin> set (os_temp sample_os)" by (simp add: sample_os_def)
  ultimately show ?thesis
    using disk_refines_map [where env = sample_os and key = "''a1b2c3d4''" and content = "''map''" and d = ?d] by (auto split: prod.splits sum.splits)
qed

theorem blob_confined_witness:
  "keyPattern ''a1b2c3d4'' \<and> disk_path \<lparr>dk_root = ''data/blobs'', dk_files = []\<rparr> ''a1b2c3d4'' = Inr ''data/blobs/a1/b2/a1b2c3d4'' \<and>
   \<not> keyPattern ''../../etc/passwd''"
proof -
  have p: "disk_path \<lparr>dk_root = ''data/blobs'', dk_files = []\<rparr> ''a1b2c3d4'' = Inr ''data/blobs/a1/b2/a1b2c3d4''" by code_simp
  have "\<not> keyPattern ''../../etc/passwd''" by code_simp
  with p blob_confined [where d = "\<lparr>dk_root = ''data/blobs'', dk_files = []\<rparr>" and key = "''a1b2c3d4''"] show ?thesis by simp
qed

end
