(* ===== verification/Image.thy ===== *)
theory Image
  imports Float64 Encoding
begin

text \<open>
  Uploaded images (\<open>internal/core/asset/image.go\<close>): the checks, the two renditions and their keys.
  An \<open>image\<close> is what the code uses of \<open>image.Image\<close>: its bounds and the colour of a point, as the
  four 16-bit numbers \<open>RGBA()\<close> gives.  The decoders, the encoders and SHA-256 are those of the
  standard library's codecs and are arguments (\<open>Codecs\<close>).
\<close>

definition MimePNG :: string where "MimePNG = ''image/png''"
definition MimeJPEG :: string where "MimeJPEG = ''image/jpeg''"
definition jpegQuality :: int where "jpegQuality = 88"
definition DefaultMaxBytes :: int where "DefaultMaxBytes = 32 * 2 ^ 20"
definition DefaultMaxPixels :: int where "DefaultMaxPixels = 8192 * 8192"
definition DefaultThumbnail :: int where "DefaultThumbnail = 256"

type_synonym rgba = "int \<times> int \<times> int \<times> int"

record image =
  im_MinX :: int
  im_MinY :: int
  im_Dx :: int
  im_Dy :: int
  im_At :: "int \<Rightarrow> int \<Rightarrow> rgba"

record Codecs =
  cd_DecodeConfig :: "string \<Rightarrow> (int \<times> int) res"
  cd_Decode :: "string \<Rightarrow> image res"
  cd_png :: "image \<Rightarrow> string res"
  cd_jpeg :: "int \<Rightarrow> image \<Rightarrow> string res"
  cd_sha256 :: "string \<Rightarrow> string"

record ImageLimits =
  lm_MaxBytes :: int
  lm_MaxPixels :: int
  lm_Thumbnail :: int

definition withDefaults :: "ImageLimits \<Rightarrow> ImageLimits" where
  "withDefaults l = \<lparr>lm_MaxBytes = (if lm_MaxBytes l \<le> 0 then DefaultMaxBytes else lm_MaxBytes l),
     lm_MaxPixels = (if lm_MaxPixels l \<le> 0 then DefaultMaxPixels else lm_MaxPixels l),
     lm_Thumbnail = (if lm_Thumbnail l \<le> 0 then DefaultThumbnail else lm_Thumbnail l)\<rparr>"

record Variant =
  vr_Content :: string
  vr_Key :: string
  vr_Mime :: string
  vr_Bytes :: int
  vr_Width :: int
  vr_Height :: int

record Normalized =
  nm_Full :: Variant
  nm_SHA256 :: string
  nm_Thumbnail :: Variant

section \<open>The format\<close>

definition png_magic :: string where
  "png_magic = [CHR 0x89, CHR 0x50, CHR 0x4E, CHR 0x47, CHR 0x0D, CHR 0x0A, CHR 0x1A, CHR 0x0A]"

definition jpeg_magic :: string where
  "jpeg_magic = [CHR 0xFF, CHR 0xD8, CHR 0xFF]"

definition sniff :: "string \<Rightarrow> string res" where
  "sniff raw =
     (if is_prefix png_magic raw then Inr MimePNG
      else if is_prefix jpeg_magic raw then Inr MimeJPEG
      else if is_prefix ''GIF87a'' raw \<or> is_prefix ''GIF89a'' raw then Inr MimePNG
      else Inl ErrUnsupportedFormat)"

section \<open>Scaling\<close>

definition uint64 :: "int \<Rightarrow> int" where "uint64 x = x mod 2 ^ 64"

definition pixels :: "image \<Rightarrow> int \<Rightarrow> int \<Rightarrow> int \<Rightarrow> int \<Rightarrow> rgba list" where
  "pixels source x0 x1 y0 y1 = [im_At source x y. y \<leftarrow> [y0..y1 - 1], x \<leftarrow> [x0..x1 - 1]]"

definition add_rgba :: "rgba \<Rightarrow> rgba \<Rightarrow> rgba" where
  "add_rgba = (\<lambda>(r, g, b, a) (red, green, blue, alpha).
     (uint64 (red + r), uint64 (green + g), uint64 (blue + b), uint64 (alpha + a)))"

text \<open>The result is a \<open>color.RGBA\<close>: four 8-bit numbers.\<close>

definition average :: "image \<Rightarrow> int \<Rightarrow> int \<Rightarrow> int \<Rightarrow> int \<Rightarrow> rgba" where
  "average source x0 x1 y0 y1 =
     (let x1 = max x1 (x0 + 1);
          y1 = max y1 (y0 + 1);
          ps = pixels source x0 x1 y0 y1;
          (red, green, blue, alpha) = fold add_rgba ps (0, 0, 0, 0);
          n = uint64 (int (length ps));
          byte = (\<lambda>v. v div n div 256 mod 256)
      in if n = 0 then (0, 0, 0, 0) else (byte red, byte green, byte blue, byte alpha))"

definition to_bytes :: "rgba \<Rightarrow> rgba" where
  "to_bytes = (\<lambda>(r, g, b, a). (r div 256 mod 256, g div 256 mod 256, b div 256 mod 256, a div 256 mod 256))"

text \<open>An \<open>image.RGBA\<close> with the given size and bytes; outside it every point is transparent.\<close>

definition rgba_image :: "int \<Rightarrow> int \<Rightarrow> (int \<Rightarrow> int \<Rightarrow> rgba) \<Rightarrow> image" where
  "rgba_image width height px = \<lparr>im_MinX = 0, im_MinY = 0, im_Dx = width, im_Dy = height,
     im_At = (\<lambda>x y. if 0 \<le> x \<and> x < width \<and> 0 \<le> y \<and> y < height
       then (case px x y of (r, g, b, a) \<Rightarrow> (r * 257, g * 257, b * 257, a * 257)) else (0, 0, 0, 0))\<rparr>"

definition scale_of :: "int \<Rightarrow> int \<Rightarrow> int \<Rightarrow> f64" where
  "scale_of width height size' =
     (let longest = max width height in if longest > size' then f_div (f_of_int size') (f_of_int longest) else Fin 1)"

definition scaled :: "int \<Rightarrow> f64 \<Rightarrow> int" where
  "scaled edge scale = max 1 (f_to_int (f_mul (f_of_int edge) scale))"

definition step_of :: "int \<Rightarrow> int \<Rightarrow> f64" where
  "step_of edge target = f_div (f_of_int edge) (f_of_int target)"

definition sample_at :: "f64 \<Rightarrow> int \<Rightarrow> int" where
  "sample_at step x = f_to_int (f_mul (f_of_int x) step)"

definition scaleToFit :: "image \<Rightarrow> int \<Rightarrow> image" where
  "scaleToFit source size' =
     (let width = im_Dx source; height = im_Dy source;
          scale = scale_of width height size';
          w = scaled width scale; h = scaled height scale;
          stepX = step_of width w; stepY = step_of height h
      in if f_eq scale (Fin 1)
         then rgba_image w h (\<lambda>x y. to_bytes (im_At source (im_MinX source + x) (im_MinY source + y)))
         else rgba_image w h (\<lambda>x y. average source
           (im_MinX source + sample_at stepX x) (im_MinX source + sample_at stepX (x + 1))
           (im_MinY source + sample_at stepY y) (im_MinY source + sample_at stepY (y + 1))))"

section \<open>Renditions\<close>

definition encode_image :: "Codecs \<Rightarrow> image \<Rightarrow> string \<Rightarrow> Variant res" where
  "encode_image cd source mime =
     bind_res (if mime = MimeJPEG then cd_jpeg cd jpegQuality source else cd_png cd source) (\<lambda>content.
     Inr \<lparr>vr_Content = content, vr_Key = [], vr_Mime = (if mime = MimeJPEG then mime else MimePNG),
       vr_Bytes = int (length content), vr_Width = im_Dx source, vr_Height = im_Dy source\<rparr>)"

definition Normalize :: "Codecs \<Rightarrow> string \<Rightarrow> ImageLimits \<Rightarrow> Normalized res" where
  "Normalize cd raw limits =
     (let limits = withDefaults limits
      in if int (length raw) > lm_MaxBytes limits then Inl ErrTooLarge
         else
           bind_res (sniff raw) (\<lambda>format.
           case cd_DecodeConfig cd raw of
             Inl _ \<Rightarrow> Inl ErrBroken
           | Inr (width, height) \<Rightarrow>
               if wrap64 (width * height) > lm_MaxPixels limits then Inl ErrTooLarge
               else case cd_Decode cd raw of
                   Inl _ \<Rightarrow> Inl ErrBroken
                 | Inr decoded \<Rightarrow>
                     bind_res (encode_image cd decoded format) (\<lambda>full.
                     bind_res (encode_image cd (scaleToFit decoded (lm_Thumbnail limits)) MimePNG) (\<lambda>thumbnail.
                     let sum' = hex_encode (cd_sha256 cd (vr_Content full))
                     in Inr \<lparr>nm_Full = full\<lparr>vr_Key := sum'\<rparr>, nm_SHA256 = sum',
                          nm_Thumbnail = thumbnail\<lparr>vr_Key := sum' @ ''-thumb''\<rparr>\<rparr>))))"

section \<open>Lemmas on scaling\<close>

definition small :: "int \<Rightarrow> bool" where
  "small n \<longleftrightarrow> 0 < n \<and> n < 2 ^ 50"

lemma f_of_int_small: "0 \<le> n \<Longrightarrow> n < 2 ^ 50 \<Longrightarrow> f_of_int n = Fin (of_int n)"
  unfolding f_of_int_def by (rule fl_of_int) auto

lemma rat_less_pow: "n < 2 ^ k \<Longrightarrow> (of_int n :: rat) < 2 ^ k"
  by (metis of_int_less_iff of_int_numeral of_int_power)

text \<open>Rounding does not push a number past a half-integer; dropping the fraction then stays below the integer.\<close>

lemma trunc_below:
  assumes "0 \<le> x" and "x \<le> of_int n + 1 / 2" and "0 \<le> n" "n < 2 ^ 51"
  shows "0 \<le> f_to_int (fl x) \<and> f_to_int (fl x) \<le> n"
proof -
  have "of_int n + 1 / 2 < (2 ^ 52 :: rat)" using rat_less_pow [OF assms(4)] by simp
  then have "\<bar>x\<bar> < 2 ^ 52" using assms(1,2) by simp
  then obtain r where r: "fl x = Fin r" "\<forall>k. of_int k / 2 \<le> x \<longrightarrow> of_int k / 2 \<le> r" "\<forall>k. x \<le> of_int k / 2 \<longrightarrow> r \<le> of_int k / 2"
    using fl_halves_ex by blast
  have "x \<le> of_int (2 * n + 1) / 2" using assms(2) by (simp add: add_divide_distrib)
  then have "r \<le> of_int (2 * n + 1) / 2" using r(3) by blast
  then have "r < of_int n + 1" by (simp add: add_divide_distrib)
  moreover have "0 \<le> r" using r(2) assms(1) by (metis div_0 of_int_0)
  ultimately have f: "0 \<le> \<lfloor>r\<rfloor>" "\<lfloor>r\<rfloor> \<le> n" by (simp_all add: floor_le_iff)
  moreover have "n \<le> max_int64" "min_int64 \<le> 0" using assms(4) by (simp_all add: min_int64_def max_int64_def)
  ultimately have "min_int64 \<le> \<lfloor>r\<rfloor>" "\<lfloor>r\<rfloor> \<le> max_int64" by linarith+
  then have "f_to_int (fl x) = \<lfloor>r\<rfloor>" using r(1) \<open>0 \<le> r\<close> by (simp only: f_to_int_def f64.case Let_def if_True simp_thms)
  with f show ?thesis by simp
qed

lemma quotient_rounded:
  assumes "small a" and "small b"
  obtains r where "f_div (f_of_int a) (f_of_int b) = Fin r" "0 \<le> r" "r \<le> of_int a / of_int b * (1 + 1 / 2 ^ 53)"
    "a \<le> b \<Longrightarrow> r \<le> 1"
proof -
  have a: "0 < a" "a < 2 ^ 50" and b: "0 < b" "b < 2 ^ 50" using assms by (auto simp: small_def)
  let ?x = "of_int a / of_int b :: rat"
  have x: "0 < ?x" using a b by simp
  have "(of_int a :: rat) < 2 ^ 50" by (rule rat_less_pow [OF a(2)])
  moreover have "?x \<le> of_int a" using a b by (simp add: divide_le_eq)
  ultimately have small: "\<bar>?x\<bar> < 2 ^ 52" using x by simp
  obtain r where r: "fl ?x = Fin r" "\<forall>k. of_int k / 2 \<le> ?x \<longrightarrow> of_int k / 2 \<le> r" "\<forall>k. ?x \<le> of_int k / 2 \<longrightarrow> r \<le> of_int k / 2"
    using fl_halves_ex [OF small] by blast
  have "1 / 2 ^ 50 \<le> ?x" using a b rat_less_pow [OF b(2)] by (simp add: field_simps)
  moreover have "(2::rat) powi (- 50) = 1 / 2 ^ 50" unfolding power_int_def by (simp add: power_divide)
  ultimately have "(2::rat) powi (- 50) < 2 powi (flog ?x + 1)" using flog_upper [OF x] by (metis le_less_trans)
  then have "- 50 < flog ?x + 1" by (metis not_less power_int_increasing one_le_numeral)
  then have "\<bar>r - ?x\<bar> \<le> ?x / 2 ^ 53" by (intro fl_relative [OF r(1) x]) simp
  then have "r \<le> ?x * (1 + 1 / 2 ^ 53)" by (simp add: algebra_simps abs_le_iff)
  moreover have "0 \<le> r" using r(2) x by (metis div_0 of_int_0 less_imp_le)
  moreover have "a \<le> b \<Longrightarrow> r \<le> 1" using r(3) [rule_format, of 2] b by simp
  moreover have "f_div (f_of_int a) (f_of_int b) = Fin r" using r(1) a b by (simp add: f_of_int_small)
  ultimately show ?thesis using that by blast
qed

lemma scale_small:
  assumes "small width" "small height" "small n"
  obtains r where "scale_of width height n = Fin r" "0 \<le> r" "r \<le> 1" "r = 1 \<longleftrightarrow> max width height \<le> n"
    "of_int width * r \<le> of_int n + 1 / 2" "of_int height * r \<le> of_int n + 1 / 2"
proof (cases "max width height \<le> n")
  case True
  then have "(of_int width :: rat) \<le> of_int n" "(of_int height :: rat) \<le> of_int n" by auto
  moreover have "scale_of width height n = Fin 1" using True by (simp only: scale_of_def Let_def not_less [symmetric] if_False simp_thms)
  ultimately show ?thesis using that [of 1] True by simp
next
  case False
  define l where "l = max width height"
  have l: "small l" "n < l" "width \<le> l" "height \<le> l" using assms False by (auto simp: l_def small_def)
  obtain r where r: "f_div (f_of_int n) (f_of_int l) = Fin r" "0 \<le> r" "r \<le> of_int n / of_int l * (1 + 1 / 2 ^ 53)" "n \<le> l \<Longrightarrow> r \<le> 1"
    using quotient_rounded [OF assms(3) l(1)] by metis
  have pos: "(0::rat) < of_int l" "(0::rat) < of_int n" "(of_int l :: rat) < 2 ^ 50" "(of_int n :: rat) \<le> of_int l - 1"
    "(of_int n :: rat) < 2 ^ 50" using l assms by (auto simp: small_def rat_less_pow of_int_diff [symmetric] simp del: of_int_diff)
  have lr: "of_int l * r \<le> of_int n * (1 + 1 / 2 ^ 53)"
    using mult_left_mono [OF r(3), of "of_int l"] pos(1) by simp
  have fit: "of_int e * r \<le> of_int n + 1 / 2" if "e \<le> l" for e
  proof -
    have "of_int e * r \<le> of_int l * r" using that r(2) by (intro mult_right_mono) auto
    also have "\<dots> \<le> of_int n + of_int n / 2 ^ 53" using lr by (simp add: algebra_simps)
    also have "\<dots> \<le> of_int n + 1 / 2" using pos(5) by simp
    finally show ?thesis .
  qed
  have "r \<noteq> 1"
  proof
    assume "r = 1"
    then have "of_int l \<le> of_int n * (1 + 1 / 2 ^ 53 :: rat)" using lr by simp
    also have "\<dots> = of_int n + of_int n / 2 ^ 53" by (simp add: algebra_simps)
    also have "\<dots> < of_int n + 1" using pos(5) by simp
    finally show False using pos(4) by simp
  qed
  moreover have "scale_of width height n = Fin r" using r(1) l(2) by (simp add: scale_of_def l_def [symmetric] Let_def)
  ultimately show ?thesis using that [of r] r(2,4) fit l False by simp
qed

lemma scaled_small:
  assumes "small edge" "0 \<le> r" "r \<le> 1" "of_int edge * r \<le> of_int n + 1 / 2" "small n"
  shows "1 \<le> scaled edge (Fin r)" and "scaled edge (Fin r) \<le> n" and "scaled edge (Fin r) \<le> edge"
proof -
  have e: "0 < edge" "edge < 2 ^ 50" "0 < n" "n < 2 ^ 50" using assms(1,5) by (auto simp: small_def)
  have "of_int edge * r \<le> of_int edge" using e assms(2,3) by (simp add: mult_left_le)
  then have "of_int edge * r \<le> of_int edge + 1 / 2" by linarith
  then have "f_to_int (fl (of_int edge * r)) \<le> edge" "f_to_int (fl (of_int edge * r)) \<le> n"
    using trunc_below [of "of_int edge * r"] assms(2,4) e by auto
  then show "1 \<le> scaled edge (Fin r)" "scaled edge (Fin r) \<le> n" "scaled edge (Fin r) \<le> edge"
    using e by (auto simp: scaled_def f_of_int_small)
qed

text \<open>A sample never reads past the last row or column, although the step is rounded.\<close>

lemma sample_inside:
  assumes "small edge" "1 \<le> target" "target \<le> edge" and "0 \<le> x" "x \<le> target"
  shows "0 \<le> sample_at (step_of edge target) x" and "sample_at (step_of edge target) x \<le> edge"
    and "x < target \<Longrightarrow> sample_at (step_of edge target) x \<le> edge - 1"
proof -
  have e: "0 < edge" "edge < 2 ^ 50" using assms(1) by (auto simp: small_def)
  have t: "small target" using assms(1-3) by (simp add: small_def)
  obtain r where r: "step_of edge target = Fin r" "0 \<le> r" "r \<le> of_int edge / of_int target * (1 + 1 / 2 ^ 53)"
    using quotient_rounded [OF assms(1) t] unfolding step_of_def by metis
  have pos: "(0::rat) < of_int target" "(of_int edge :: rat) < 2 ^ 50" "(0::rat) < of_int edge" "(of_int target :: rat) \<le> of_int edge"
    using assms(2,3) e by (auto simp: rat_less_pow)
  have s: "sample_at (step_of edge target) x = f_to_int (fl (of_int x * r))"
    using r(1) assms(3-5) e by (simp add: sample_at_def f_of_int_small)
  have up: "of_int k * r \<le> of_int k * of_int edge / of_int target + 1 / 2" if "0 \<le> k" "k \<le> target" for k
  proof -
    have "of_int k * r \<le> of_int k * (of_int edge / of_int target * (1 + 1 / 2 ^ 53))"
      using r(3) that by (intro mult_left_mono) auto
    also have "\<dots> = of_int k * of_int edge / of_int target + of_int k / of_int target * (of_int edge / 2 ^ 53)"
      by (simp add: algebra_simps)
    also have "of_int k / of_int target * (of_int edge / 2 ^ 53) \<le> 1 * (1 / 2 :: rat)"
      using that pos by (intro mult_mono) auto
    finally show ?thesis by simp
  qed
  have "of_int x * of_int edge / of_int target \<le> (of_int edge :: rat)"
    using assms(5) pos by (simp add: divide_le_eq)
  then have "of_int x * r \<le> of_int edge + 1 / 2" using up [OF assms(4,5)] by linarith
  then show "0 \<le> sample_at (step_of edge target) x" "sample_at (step_of edge target) x \<le> edge"
    using trunc_below [of "of_int x * r" edge] r(2) assms(4) e by (auto simp: s)
  show "sample_at (step_of edge target) x \<le> edge - 1" if "x < target"
  proof -
    have "(of_int x :: rat) \<le> of_int target - 1" using that by (simp add: of_int_diff [symmetric] del: of_int_diff)
    then have "of_int x * of_int edge / of_int target \<le> (of_int target - 1) * of_int edge / (of_int target :: rat)"
      using pos by (intro divide_right_mono mult_right_mono) auto
    also have "\<dots> = of_int edge - of_int edge / of_int target" using pos by (simp add: field_simps)
    also have "\<dots> \<le> of_int edge - 1" using pos by simp
    finally have "of_int x * r \<le> of_int (edge - 1) + 1 / 2" using up [OF assms(4,5)] by simp
    then show ?thesis using trunc_below [of "of_int x * r" "edge - 1"] r(2) assms(4) e by (simp add: s)
  qed
qed

lemma average_agree:
  assumes "\<And>x y. x0 \<le> x \<Longrightarrow> x < max x1 (x0 + 1) \<Longrightarrow> y0 \<le> y \<Longrightarrow> y < max y1 (y0 + 1) \<Longrightarrow> im_At other x y = im_At source x y"
  shows "average other x0 x1 y0 y1 = average source x0 x1 y0 y1"
proof -
  have "pixels other x0 (max x1 (x0 + 1)) y0 (max y1 (y0 + 1)) = pixels source x0 (max x1 (x0 + 1)) y0 (max y1 (y0 + 1))"
    unfolding pixels_def using assms by (intro arg_cong [where f = concat] map_cong refl) auto
  then show ?thesis unfolding average_def Let_def by (simp only:)
qed

lemma rgba_image_cong:
  assumes "\<And>x y. 0 \<le> x \<Longrightarrow> x < w \<Longrightarrow> 0 \<le> y \<Longrightarrow> y < h \<Longrightarrow> px x y = px' x y"
  shows "rgba_image w h px = rgba_image w h px'"
  unfolding rgba_image_def using assms by (auto simp: fun_eq_iff)

definition same_bounds :: "image \<Rightarrow> image \<Rightarrow> bool" where
  "same_bounds a b \<longleftrightarrow> im_MinX a = im_MinX b \<and> im_MinY a = im_MinY b \<and> im_Dx a = im_Dx b \<and> im_Dy a = im_Dy b"

definition inside :: "image \<Rightarrow> int \<Rightarrow> int \<Rightarrow> bool" where
  "inside m x y \<longleftrightarrow> im_MinX m \<le> x \<and> x < im_MinX m + im_Dx m \<and> im_MinY m \<le> y \<and> y < im_MinY m + im_Dy m"

lemma scaleToFit_facts:
  assumes "small (im_Dx source)" "small (im_Dy source)" "small n"
  shows "1 \<le> im_Dx (scaleToFit source n)" "im_Dx (scaleToFit source n) \<le> min n (im_Dx source)"
    and "1 \<le> im_Dy (scaleToFit source n)" "im_Dy (scaleToFit source n) \<le> min n (im_Dy source)"
    and "max (im_Dx source) (im_Dy source) \<le> n \<Longrightarrow>
      im_Dx (scaleToFit source n) = im_Dx source \<and> im_Dy (scaleToFit source n) = im_Dy source"
    and "same_bounds other source \<Longrightarrow> (\<And>x y. inside source x y \<Longrightarrow> im_At other x y = im_At source x y) \<Longrightarrow>
      scaleToFit other n = scaleToFit source n"
proof -
  let ?w = "im_Dx source" and ?h = "im_Dy source"
  obtain r where r: "scale_of ?w ?h n = Fin r" "0 \<le> r" "r \<le> 1" "r = 1 \<longleftrightarrow> max ?w ?h \<le> n"
    "of_int ?w * r \<le> of_int n + 1 / 2" "of_int ?h * r \<le> of_int n + 1 / 2" using scale_small [OF assms] by metis
  define w where "w = scaled ?w (Fin r)"
  define h where "h = scaled ?h (Fin r)"
  have w: "1 \<le> w" "w \<le> n" "w \<le> ?w" unfolding w_def by (rule scaled_small [OF assms(1) r(2,3,5) assms(3)])+
  have h: "1 \<le> h" "h \<le> n" "h \<le> ?h" unfolding h_def by (rule scaled_small [OF assms(2) r(2,3,6) assms(3)])+
  have dims: "im_Dx (scaleToFit source n) = w" "im_Dy (scaleToFit source n) = h"
    by (simp_all add: scaleToFit_def rgba_image_def Let_def r(1) w_def h_def)
  show "1 \<le> im_Dx (scaleToFit source n)" "im_Dx (scaleToFit source n) \<le> min n ?w"
    "1 \<le> im_Dy (scaleToFit source n)" "im_Dy (scaleToFit source n) \<le> min n ?h" using w h dims by auto
  have one: "scaled e (Fin 1) = e" if "small e" for e
  proof -
    have "f_of_int e = Fin (of_int e)" "fl (of_int e) = Fin (of_int e)"
      using that fl_of_int [of e] by (auto simp: small_def f_of_int_small)
    moreover have "e \<le> max_int64" "min_int64 \<le> e" "0 \<le> e" "1 \<le> e" using that by (simp_all add: small_def min_int64_def max_int64_def)
    ultimately show ?thesis by (simp add: scaled_def f_to_int_def)
  qed
  show "im_Dx (scaleToFit source n) = ?w \<and> im_Dy (scaleToFit source n) = ?h" if "max ?w ?h \<le> n"
    using that r(4) one assms(1,2) dims by (simp add: w_def h_def)
  assume b: "same_bounds other source" and agree: "\<And>x y. inside source x y \<Longrightarrow> im_At other x y = im_At source x y"
  have shrink: "average other (im_MinX source + sample_at (step_of ?w w) x) (im_MinX source + sample_at (step_of ?w w) (x + 1))
      (im_MinY source + sample_at (step_of ?h h) y) (im_MinY source + sample_at (step_of ?h h) (y + 1)) =
    average source (im_MinX source + sample_at (step_of ?w w) x) (im_MinX source + sample_at (step_of ?w w) (x + 1))
      (im_MinY source + sample_at (step_of ?h h) y) (im_MinY source + sample_at (step_of ?h h) (y + 1))"
    if "0 \<le> x" "x < w" "0 \<le> y" "y < h" for x y
  proof (rule average_agree)
    have "0 \<le> sample_at (step_of ?w w) x" "sample_at (step_of ?w w) x \<le> ?w - 1" "sample_at (step_of ?w w) (x + 1) \<le> ?w"
      using sample_inside [OF assms(1) w(1,3), of x] sample_inside [OF assms(1) w(1,3), of "x + 1"] that by auto
    moreover have "0 \<le> sample_at (step_of ?h h) y" "sample_at (step_of ?h h) y \<le> ?h - 1" "sample_at (step_of ?h h) (y + 1) \<le> ?h"
      using sample_inside [OF assms(2) h(1,3), of y] sample_inside [OF assms(2) h(1,3), of "y + 1"] that by auto
    ultimately show "im_At other a b = im_At source a b" if "im_MinX source + sample_at (step_of ?w w) x \<le> a"
      "a < max (im_MinX source + sample_at (step_of ?w w) (x + 1)) (im_MinX source + sample_at (step_of ?w w) x + 1)"
      "im_MinY source + sample_at (step_of ?h h) y \<le> b"
      "b < max (im_MinY source + sample_at (step_of ?h h) (y + 1)) (im_MinY source + sample_at (step_of ?h h) y + 1)" for a b
      using that by (intro agree) (auto simp: inside_def)
  qed
  have copy: "im_At other (im_MinX source + x) (im_MinY source + y) = im_At source (im_MinX source + x) (im_MinY source + y)"
    if "0 \<le> x" "x < w" "0 \<le> y" "y < h" for x y using that w h by (intro agree) (auto simp: inside_def)
  show "scaleToFit other n = scaleToFit source n"
    using b copy shrink unfolding scaleToFit_def same_bounds_def
    by (auto simp: Let_def r(1) w_def [symmetric] h_def [symmetric] intro!: rgba_image_cong)
qed

text \<open>
  C36: shrinking an image to a longest edge of \<open>n\<close> gives an image of at least one pixel and at most
  \<open>n\<close> by \<open>n\<close>, never larger than its source, and of the same size when the source already fits.
  Although the steps are rounded floating-point numbers, no point outside the source is read: two
  sources that agree inside their bounds give the same thumbnail.
\<close>

theorem thumbnail_fits:
  assumes "small (im_Dx source)" "small (im_Dy source)" "small n"
  shows "1 \<le> im_Dx (scaleToFit source n) \<and> im_Dx (scaleToFit source n) \<le> min n (im_Dx source) \<and>
    1 \<le> im_Dy (scaleToFit source n) \<and> im_Dy (scaleToFit source n) \<le> min n (im_Dy source) \<and>
    (max (im_Dx source) (im_Dy source) \<le> n \<longrightarrow>
      im_Dx (scaleToFit source n) = im_Dx source \<and> im_Dy (scaleToFit source n) = im_Dy source) \<and>
    (\<forall>other. same_bounds other source \<and> (\<forall>x y. inside source x y \<longrightarrow> im_At other x y = im_At source x y) \<longrightarrow>
      scaleToFit other n = scaleToFit source n)"
  using scaleToFit_facts [OF assms] by blast

definition sample_image :: image where
  "sample_image = \<lparr>im_MinX = 10, im_MinY = 20, im_Dx = 6, im_Dy = 3, im_At = (\<lambda>x y. (257 * x, 257 * y, 0, 65535))\<rparr>"

theorem thumbnail_fits_witness:
  "small (im_Dx sample_image) \<and> small (im_Dy sample_image) \<and> small 4 \<and>
   im_Dx (scaleToFit sample_image 4) \<le> 4 \<and> im_At (scaleToFit sample_image 4) 3 1 = (257 * 14, 257 * 21, 0, 65535)"
proof -
  have s: "small (im_Dx sample_image)" "small (im_Dy sample_image)" "small 4" by code_simp+
  have "im_At (scaleToFit sample_image 4) 3 1 = (257 * 14, 257 * 21, 0, 65535)" by code_simp
  with s thumbnail_fits [OF s] show ?thesis by simp
qed

end
