(* ===== verification/HttpAssets.thy ===== *)
theory HttpAssets
  imports Worlds Blob Image
begin

text \<open>
  Uploaded images over HTTP (\<open>internal/transport/httpapi/assets.go\<close>).  The handlers know the blob
  store only by its operations (\<open>AssetDeps\<close>); their lemmas are proved for every store that
  keeps the contract of \<open>blob.Store\<close> and then hold of the store on disk.  What \<open>ParseMultipartForm\<close>
  and \<open>FormFile\<close> find in a request is the argument \<open>Upload\<close>.
\<close>

definition uploadMemory :: int where "uploadMemory = 8 * 2 ^ 20"
definition assetCacheHeader :: string where "assetCacheHeader = ''private, max-age=31536000, immutable''"

record ('e, 's) AssetDeps =
  as_Put :: "'e \<Rightarrow> string \<Rightarrow> string \<Rightarrow> 's \<Rightarrow> unit res \<times> 's"
  as_Open :: "'e \<Rightarrow> string \<Rightarrow> 's \<Rightarrow> (string \<times> int) res"
  as_Limits :: ImageLimits
  as_WorldQuota :: int
  as_AssetBaseURL :: string

text \<open>
  The body of an upload: its size up to the closing boundary, whether it is a well-formed form,
  the part named \<open>file\<close>, and whether that part can be read back.
\<close>

record Upload =
  up_bytes :: int
  up_wellformed :: bool
  up_file :: "string option"
  up_readable :: bool

section \<open>Views\<close>

definition dec_variant :: "json \<Rightarrow> Variant slot" where
  "dec_variant v =
     (let raw = RawJson v
      in if struct_shape raw \<and> field_ok dec_string ''key'' raw \<and> field_ok dec_string ''mime'' raw \<and>
            field_ok dec_int ''bytes'' raw \<and> field_ok dec_int ''width'' raw \<and> field_ok dec_int ''height'' raw
         then Assign \<lparr>vr_Content = [], vr_Key = field_val dec_string [] ''key'' raw,
           vr_Mime = field_val dec_string [] ''mime'' raw, vr_Bytes = field_val dec_int 0 ''bytes'' raw,
           vr_Width = field_val dec_int 0 ''width'' raw, vr_Height = field_val dec_int 0 ''height'' raw\<rparr>
         else Mismatch)"

text \<open>\<open>None\<close> when the variants cannot be decoded or name no thumbnail, which the code treats alike.\<close>

definition assetVariants :: "raw \<Rightarrow> Variant option" where
  "assetVariants raw =
     (if struct_shape raw \<and> field_ok (dec_ptr dec_variant) ''thumbnail'' raw
      then field_val (dec_ptr dec_variant) None ''thumbnail'' raw else None)"

definition marshal_variants :: "Variant \<Rightarrow> raw" where
  "marshal_variants v = RawJson (jobject [member ''thumbnail'' (jobject [member ''key'' (jstr (vr_Key v)),
     member ''mime'' (jstr (vr_Mime v)), member ''bytes'' (JInt (vr_Bytes v)), member ''width'' (JInt (vr_Width v)),
     member ''height'' (JInt (vr_Height v))])])"

definition trim_slash :: "string \<Rightarrow> string" where
  "trim_slash s = (if s \<noteq> [] \<and> last s = CHR ''/'' then butlast s else s)"

definition assetURL :: "string \<Rightarrow> ID \<Rightarrow> ID \<Rightarrow> string \<Rightarrow> string" where
  "assetURL base worldID assetID variant =
     trim_slash base @ ''/assets/'' @ worldID @ ''/'' @ assetID @ (if variant \<noteq> [] then ''/'' @ variant else [])"

definition viewAsset :: "('e, 's) AssetDeps \<Rightarrow> Asset \<Rightarrow> json" where
  "viewAsset assets record =
     jobject [member ''id'' (jstr (a_ID record)), member ''mime'' (jstr (a_Mime record)),
       member ''bytes'' (JInt (a_Bytes record)), member ''width'' (JInt (a_Width record)),
       member ''height'' (JInt (a_Height record)),
       member ''url'' (jstr (assetURL (as_AssetBaseURL assets) (a_WorldID record) (a_ID record) [])),
       omit_string ''thumbnail'' (if assetVariants (a_Variants record) = None then []
         else assetURL (as_AssetBaseURL assets) (a_WorldID record) (a_ID record) ''thumbnail''),
       member ''createdAt'' (jstr (rfc3339 (a_CreatedAt record)))]"

definition listAssetsHandler :: "AuthDeps \<Rightarrow> ('e, 's) AssetDeps \<Rightarrow> User option \<Rightarrow> ID \<Rightarrow> DB \<Rightarrow> Response" where
  "listAssetsHandler d assets user worldID db = answer (bind_res (requireRole d db user worldID False) (\<lambda>_.
     case store_ReadOnly (ad_Store d) (\<lambda>c db. ListAssets c db worldID 0) db of
       Inl _ \<Rightarrow> Inl internalError
     | Inr records \<Rightarrow> Inr (writeJSON 200 (Inr (JArr (map (viewAsset assets) records))))))"

section \<open>Storing an upload\<close>

definition withinQuota :: "AuthDeps \<Rightarrow> ('e, 's) AssetDeps \<Rightarrow> DB \<Rightarrow> ID \<Rightarrow> int \<Rightarrow> unit res" where
  "withinQuota d assets db worldID incoming =
     (if as_WorldQuota assets \<le> 0 then Inr ()
      else bind_res (store_ReadOnly (ad_Store d) (\<lambda>c db. SumAssetBytes c db worldID) db) (\<lambda>used.
        if wrap64 (used + incoming) > as_WorldQuota assets then Inl ErrQuotaExceeded else Inr ()))"

definition find_existing :: "Conn \<Rightarrow> DB \<Rightarrow> ID \<Rightarrow> string \<Rightarrow> Asset option res" where
  "find_existing c db worldID sha =
     (case GetAssetBySHA256 c db worldID sha of
        Inl e \<Rightarrow> if e = ErrNotFound then Inr None else Inl e
      | Inr found \<Rightarrow> Inr (Some found))"

definition new_asset :: "Env \<Rightarrow> ID \<Rightarrow> ID \<Rightarrow> Normalized \<Rightarrow> Asset" where
  "new_asset env worldID userID normalized =
     \<lparr>a_ID = GenerateID ''asset'' (en_id env), a_WorldID = worldID, a_SHA256 = nm_SHA256 normalized,
      a_Mime = vr_Mime (nm_Full normalized), a_Bytes = vr_Bytes (nm_Full normalized),
      a_Width = vr_Width (nm_Full normalized), a_Height = vr_Height (nm_Full normalized), a_DurationMS = 0,
      a_Variants = marshal_variants (nm_Thumbnail normalized), a_UploadedBy = userID, a_CreatedAt = 0\<rparr>"

definition put_asset_tx :: "Asset \<Rightarrow> Conn \<Rightarrow> DB \<Rightarrow> (unit \<times> DB) res" where
  "put_asset_tx record c db = bind_res (PutAsset c record db) (\<lambda>db. Inr ((), db))"

text \<open>
  The two puts come before the row.  \<open>PutAsset\<close> fills in the time of creation, which the caller
  sees through the pointer.
\<close>

definition storeAsset ::
  "AuthDeps \<Rightarrow> ('e, 's) AssetDeps \<Rightarrow> Env \<Rightarrow> 'e \<times> 'e \<Rightarrow> ID \<Rightarrow> ID \<Rightarrow> Normalized \<Rightarrow> DB \<times> 's \<Rightarrow> (Asset \<times> bool) res \<times> DB \<times> 's" where
  "storeAsset d assets env calls worldID userID normalized = (\<lambda>(db, blobs).
     case store_ReadOnly (ad_Store d) (\<lambda>c db. find_existing c db worldID (nm_SHA256 normalized)) db of
       Inl e \<Rightarrow> (Inl e, db, blobs)
     | Inr (Some existing) \<Rightarrow> (Inr (existing, True), db, blobs)
     | Inr None \<Rightarrow>
         (case withinQuota d assets db worldID
             (wrap64 (vr_Bytes (nm_Full normalized) + vr_Bytes (nm_Thumbnail normalized))) of
            Inl e \<Rightarrow> (Inl e, db, blobs)
          | Inr _ \<Rightarrow>
              (case as_Put assets (fst calls) (vr_Key (nm_Full normalized)) (vr_Content (nm_Full normalized)) blobs of
                 (Inl e, blobs) \<Rightarrow> (Inl e, db, blobs)
               | (Inr _, blobs) \<Rightarrow>
                   (case as_Put assets (snd calls) (vr_Key (nm_Thumbnail normalized))
                       (vr_Content (nm_Thumbnail normalized)) blobs of
                      (Inl e, blobs) \<Rightarrow> (Inl e, db, blobs)
                    | (Inr _, blobs) \<Rightarrow>
                        (let record = new_asset env worldID userID normalized
                         in case store_Tx (ad_Store d) (put_asset_tx record) db of
                              (Inl e, db) \<Rightarrow> (Inl e, db, blobs)
                            | (Inr _, db) \<Rightarrow>
                                (Inr (record\<lparr>a_CreatedAt := c_now (ad_Store d)\<rparr>, False), db, blobs))))))"

definition read_upload :: "Upload \<Rightarrow> int \<Rightarrow> Response + string" where
  "read_upload up maxBytes =
     (if \<not> up_wellformed up \<or> up_bytes up > max 0 (wrap64 (maxBytes + uploadMemory))
      then Inl (writeJSON 400 (apiError ''bad_request'' ''core.asset.malformedUpload''))
      else case up_file up of
          None \<Rightarrow> Inl (writeJSON 400 (apiError ''bad_request'' ''core.asset.noFile''))
        | Some file \<Rightarrow>
            if \<not> up_readable up then Inl (writeJSON 400 (apiError ''bad_request'' ''core.asset.malformedUpload''))
            else Inr (take (nat (wrap64 (maxBytes + 1))) file))"

definition upload_limits :: "ImageLimits \<Rightarrow> ImageLimits" where
  "upload_limits limits = limits\<lparr>lm_MaxBytes := (if lm_MaxBytes limits \<le> 0 then DefaultMaxBytes else lm_MaxBytes limits)\<rparr>"

definition normalize_error :: "go_error \<Rightarrow> Response" where
  "normalize_error e =
     (if e = ErrUnsupportedFormat then writeJSON 415 (apiError ''unsupported'' ''core.asset.unsupportedFormat'')
      else if e = ErrTooLarge then writeJSON 413 (apiError ''too_large'' ''core.asset.tooLarge'')
      else if e = ErrBroken then writeJSON 400 (apiError ''bad_request'' ''core.asset.brokenImage'')
      else internalError)"

definition uploadAssetHandler ::
  "AuthDeps \<Rightarrow> ('e, 's) AssetDeps \<Rightarrow> Codecs \<Rightarrow> Env \<Rightarrow> 'e \<times> 'e \<Rightarrow> Upload \<Rightarrow> User option \<Rightarrow> ID \<Rightarrow> DB \<times> 's \<Rightarrow> Response \<times> DB \<times> 's" where
  "uploadAssetHandler d assets cd env calls up user worldID st =
     proceed (requireRole d (fst st) user worldID True) st (\<lambda>user.
       let limits = upload_limits (as_Limits assets)
       in proceed (read_upload up (lm_MaxBytes limits)) st (\<lambda>raw.
            case Normalize cd raw limits of
              Inl e \<Rightarrow> (normalize_error e, st)
            | Inr normalized \<Rightarrow>
                (case storeAsset d assets env calls worldID (u_ID user) normalized st of
                   (Inl e, st) \<Rightarrow>
                     (if e = ErrQuotaExceeded then writeJSON 413 (apiError ''quota'' ''core.asset.worldIsFull'')
                      else internalError, st)
                 | (Inr (record, reused), st) \<Rightarrow>
                     (writeJSON (if reused then 200 else 201) (Inr (viewAsset assets record)), st))))"

section \<open>Serving an asset\<close>

text \<open>\<open>ServeContent\<close> for a request without range or precondition headers.\<close>

definition serve_content :: "string \<Rightarrow> string \<Rightarrow> string \<Rightarrow> Response" where
  "serve_content mime key content = \<lparr>rp_Status = 200, rp_Cookie = None, rp_Body = Content
     [(''Content-Type'', mime), (''X-Content-Type-Options'', ''nosniff''),
      (''Content-Security-Policy'', ''default-src 'none'; sandbox''),
      (''Cross-Origin-Resource-Policy'', ''same-site''), (''Cache-Control'', assetCacheHeader),
      (''ETag'', [CHR 0x22] @ key @ [CHR 0x22])] content\<rparr>"

definition unknownAsset :: Response where
  "unknownAsset = writeJSON 404 (apiError ''not_found'' ''core.asset.unknown'')"

definition blob_of :: "Asset \<Rightarrow> string \<Rightarrow> string \<times> string" where
  "blob_of record variant =
     (if variant = ''thumbnail''
      then (case assetVariants (a_Variants record) of
          Some v \<Rightarrow> (vr_Key v, vr_Mime v)
        | None \<Rightarrow> (a_SHA256 record, a_Mime record))
      else (a_SHA256 record, a_Mime record))"

definition serveAssetHandler ::
  "AuthDeps \<Rightarrow> ('e, 's) AssetDeps \<Rightarrow> 'e \<Rightarrow> User option \<Rightarrow> ID \<Rightarrow> ID \<Rightarrow> string \<Rightarrow> DB \<times> 's \<Rightarrow> Response" where
  "serveAssetHandler d assets call user worldID assetID variant = (\<lambda>(db, blobs).
     answer (bind_res (requireRole d db user worldID False) (\<lambda>_.
       case store_ReadOnly (ad_Store d) (\<lambda>c db. GetAsset c db worldID assetID) db of
         Inl e \<Rightarrow> Inl (if e = ErrNotFound then unknownAsset else internalError)
       | Inr record \<Rightarrow>
           (case blob_of record variant of (key, mime) \<Rightarrow>
              (case as_Open assets call key blobs of
                 Inl e \<Rightarrow> Inl (if e = ErrBlobNotFound then unknownAsset else internalError)
               | Inr (content, _) \<Rightarrow> Inr (serve_content mime key content))))))"

section \<open>Lemmas on keys and variants\<close>

lemma hex_digit_cases: "n < 16 \<Longrightarrow> hex_lower (hex_digit n) \<and> of_char (hex_digit n) < (128::nat)"
proof -
  assume "n < 16"
  then have "n \<in> set [0..<16]" by simp
  moreover have "\<forall>n \<in> set [0..<16]. hex_lower (hex_digit n) \<and> of_char (hex_digit n) < (128::nat)" by code_simp
  ultimately show ?thesis by blast
qed

lemma hex_encode_chars: "c \<in> set (hex_encode s) \<Longrightarrow> hex_lower c \<and> of_char c < (128::nat)"
proof -
  assume "c \<in> set (hex_encode s)"
  then obtain x where "c = hex_digit (byte x div 16) \<or> c = hex_digit (byte x mod 16)" by (auto simp: hex_encode_def)
  moreover have "byte x < 256" by (simp add: byte_def)
  ultimately show ?thesis using hex_digit_cases [of "byte x div 16"] hex_digit_cases [of "byte x mod 16"] by auto
qed

lemma hex_encode_ascii: "is_ascii (hex_encode s)"
  using hex_encode_chars by (auto simp: is_ascii_def list_all_iff)

lemma hex_encode_no_dash: "CHR ''-'' \<notin> set (hex_encode s)"
proof
  assume "CHR ''-'' \<in> set (hex_encode s)"
  then have "hex_lower (CHR ''-'')" using hex_encode_chars by blast
  moreover have "\<not> hex_lower (CHR ''-'')" by code_simp
  ultimately show False by simp
qed

lemma length_hex_encode: "length (hex_encode s) = 2 * length s"
  by (induction s) (auto simp: hex_encode_def)

text \<open>The keys of an upload are accepted by the disk, for a digest of at least four bytes.\<close>

lemma hex_key_pattern:
  assumes "4 \<le> length s"
  shows "keyPattern (hex_encode s)" and "keyPattern (hex_encode s @ ''-thumb'')"
proof -
  have all: "\<forall>c \<in> set (hex_encode s). hex_lower c" using hex_encode_chars by blast
  then have t: "takeWhile hex_lower (hex_encode s) = hex_encode s" "dropWhile hex_lower (hex_encode s) = []"
    by (simp_all add: takeWhile_eq_all_conv dropWhile_eq_Nil_conv)
  have d: "takeWhile hex_lower ''-thumb'' = []" "dropWhile hex_lower ''-thumb'' = ''-thumb''" "list_all lower_alnum ''thumb''"
    by code_simp+
  have a: "takeWhile hex_lower (hex_encode s @ ''-thumb'') = hex_encode s"
    "dropWhile hex_lower (hex_encode s @ ''-thumb'') = ''-thumb''"
    using all d(1,2) takeWhile_append2 [of "hex_encode s" hex_lower "''-thumb''"] dropWhile_append2 [of "hex_encode s" hex_lower "''-thumb''"]
    by (metis append_Nil2)+
  have l: "8 \<le> length (hex_encode s)" using assms by (simp add: length_hex_encode)
  show "keyPattern (hex_encode s)" unfolding keyPattern_def t using l by simp
  show "keyPattern (hex_encode s @ ''-thumb'')" unfolding keyPattern_def a using l d(3) by simp
qed

lemma variant_names:
  "fold_name ''thumbnail'' = ''thumbnail''" "fold_name ''key'' = ''key''" "fold_name ''mime'' = ''mime''"
  "fold_name ''bytes'' = ''bytes''" "fold_name ''width'' = ''width''" "fold_name ''height'' = ''height''"
  by code_simp+

definition in_int64 :: "int \<Rightarrow> bool" where
  "in_int64 n \<longleftrightarrow> min_int64 \<le> n \<and> n \<le> max_int64"

lemma variants_roundtrip:
  assumes "is_ascii (vr_Key v)" "is_ascii (vr_Mime v)"
  shows "assetVariants (marshal_variants v) =
    (if in_int64 (vr_Bytes v) \<and> in_int64 (vr_Width v) \<and> in_int64 (vr_Height v) then Some (v\<lparr>vr_Content := []\<rparr>) else None)"
  using assms
  by (simp add: assetVariants_def marshal_variants_def jobject_def member_def List.map_filter_def struct_defs variant_names
      dec_ptr_def dec_variant_def Let_def jstr_def in_int64_def del: fold_name.simps)

lemma encode_image_Inr:
  "encode_image cd source mime = Inr v \<Longrightarrow> vr_Bytes v = int (length (vr_Content v)) \<and> vr_Mime v = (if mime = MimeJPEG then MimeJPEG else MimePNG) \<and>
     vr_Width v = im_Dx source \<and> vr_Height v = im_Dy source"
  by (auto simp: encode_image_def res_simps)

lemma Normalize_Inr:
  assumes "Normalize cd raw limits = Inr nm"
  shows "nm_SHA256 nm = hex_encode (cd_sha256 cd (vr_Content (nm_Full nm)))" "vr_Key (nm_Full nm) = nm_SHA256 nm"
    "vr_Key (nm_Thumbnail nm) = nm_SHA256 nm @ ''-thumb''" "vr_Mime (nm_Thumbnail nm) = MimePNG"
    "vr_Bytes (nm_Full nm) = int (length (vr_Content (nm_Full nm)))"
    "vr_Bytes (nm_Thumbnail nm) = int (length (vr_Content (nm_Thumbnail nm)))"
proof -
  obtain decoded format full thumbnail where
    e: "encode_image cd decoded format = Inr full"
      "encode_image cd (scaleToFit decoded (lm_Thumbnail (withDefaults limits))) MimePNG = Inr thumbnail"
    and nm: "nm = \<lparr>nm_Full = full\<lparr>vr_Key := hex_encode (cd_sha256 cd (vr_Content full))\<rparr>,
       nm_SHA256 = hex_encode (cd_sha256 cd (vr_Content full)),
       nm_Thumbnail = thumbnail\<lparr>vr_Key := hex_encode (cd_sha256 cd (vr_Content full)) @ ''-thumb''\<rparr>\<rparr>"
    using assms unfolding Normalize_def Let_def bind_res_def by (auto split: if_splits sum.splits prod.splits)
  show "nm_SHA256 nm = hex_encode (cd_sha256 cd (vr_Content (nm_Full nm)))" "vr_Key (nm_Full nm) = nm_SHA256 nm"
    "vr_Key (nm_Thumbnail nm) = nm_SHA256 nm @ ''-thumb''" "vr_Mime (nm_Thumbnail nm) = MimePNG"
    "vr_Bytes (nm_Full nm) = int (length (vr_Content (nm_Full nm)))"
    "vr_Bytes (nm_Thumbnail nm) = int (length (vr_Content (nm_Thumbnail nm)))"
    using e [THEN encode_image_Inr] by (simp_all add: nm MimePNG_def MimeJPEG_def)
qed

section \<open>Handlers over any blob store\<close>

text \<open>
  A row is good when its image is stored under the row's hash, and that is the hash of the stored
  bytes, and when the thumbnail it names is stored.
\<close>

definition asset_good :: "Codecs \<Rightarrow> (string \<Rightarrow> string option) \<Rightarrow> Asset \<Rightarrow> bool" where
  "asset_good cd held a \<longleftrightarrow>
     (case held (a_SHA256 a) of None \<Rightarrow> False | Some content \<Rightarrow> hex_encode (cd_sha256 cd content) = a_SHA256 a) \<and>
     (case assetVariants (a_Variants a) of None \<Rightarrow> True | Some v \<Rightarrow> held (vr_Key v) \<noteq> None)"

definition assets_good :: "Codecs \<Rightarrow> DB \<Rightarrow> (string \<Rightarrow> string option) \<Rightarrow> bool" where
  "assets_good cd db held \<longleftrightarrow> list_all (asset_good cd held) (t_assets db)"

definition stored_blobs :: "Normalized \<Rightarrow> (string \<Rightarrow> string option) \<Rightarrow> string \<Rightarrow> string option" where
  "stored_blobs nm held = held(vr_Key (nm_Full nm) \<mapsto> vr_Content (nm_Full nm), vr_Key (nm_Thumbnail nm) \<mapsto> vr_Content (nm_Thumbnail nm))"

lemma asset_good_put:
  assumes "asset_good cd held a" and "key = hex_encode (cd_sha256 cd content) \<or> CHR ''-'' \<in> set key"
  shows "asset_good cd (held(key \<mapsto> content)) a"
proof -
  obtain c where c: "held (a_SHA256 a) = Some c" "hex_encode (cd_sha256 cd c) = a_SHA256 a"
    using assms(1) by (auto simp: asset_good_def split: option.splits)
  have "a_SHA256 a \<noteq> key" if "CHR ''-'' \<in> set key" using that c(2) hex_encode_no_dash by metis
  then show ?thesis using assms c by (auto simp: asset_good_def split: option.splits)
qed

lemma put_asset_row:
  "store_Tx c (put_asset_tx (new_asset env wid uid nm)) db = (Inr (), db') \<Longrightarrow>
     t_assets db' = row_upsert a_ID merge_asset ((new_asset env wid uid nm)\<lparr>a_CreatedAt := c_now c\<rparr>) (t_assets db)"
  by (auto simp: store_Tx_ok put_asset_tx_def PutAsset_def stored_asset_def jsonArg_def new_asset_def marshal_variants_def
      res_simps split: if_splits)

text \<open>What the row of an upload names is what the upload stored.\<close>

lemma stored_variant:
  assumes "Normalize cd raw limits = Inr nm" and "assetVariants (marshal_variants (nm_Thumbnail nm)) = Some v"
  shows "stored_blobs nm held (vr_Key v) \<noteq> None"
proof -
  note nm = Normalize_Inr [OF assms(1)]
  have "is_ascii (vr_Key (nm_Thumbnail nm))" "is_ascii (vr_Mime (nm_Thumbnail nm))"
    using hex_encode_ascii by (simp_all add: nm is_ascii_def MimePNG_def)
  then have "vr_Key v = vr_Key (nm_Thumbnail nm)" using assms(2) by (auto simp: variants_roundtrip split: if_splits)
  then show ?thesis by (simp add: stored_blobs_def)
qed

lemma stored_full:
  assumes "Normalize cd raw limits = Inr nm"
  shows "stored_blobs nm held (nm_SHA256 nm) = Some (vr_Content (nm_Full nm))"
proof -
  note nm = Normalize_Inr [OF assms]
  have "vr_Key (nm_Full nm) \<noteq> vr_Key (nm_Thumbnail nm)" by (simp add: nm(2,3))
  then show ?thesis by (simp add: stored_blobs_def nm(2) [symmetric])
qed

lemma new_asset_good:
  assumes "Normalize cd raw limits = Inr nm"
  shows "asset_good cd (stored_blobs nm held) ((new_asset env wid uid nm)\<lparr>a_CreatedAt := t\<rparr>)"
  using stored_full [OF assms] stored_variant [OF assms] Normalize_Inr(1) [OF assms]
  by (auto simp: asset_good_def new_asset_def split: option.split)

text \<open>An upload that is not stored leaves everything as it was.\<close>

lemma upload_effect:
  assumes "uploadAssetHandler d assets cd env calls up user wid (db, bs) = (rp, db', bs')"
  obtains (unchanged) "db' = db" "bs' = bs" "rp_Status rp \<noteq> 201"
  | (stored) u raw nm r where "requireRole d db user wid True = Inr u" "Normalize cd raw (upload_limits (as_Limits assets)) = Inr nm"
      "storeAsset d assets env calls wid (u_ID u) nm (db, bs) = (r, db', bs')" "rp_Status rp = 201 \<longleftrightarrow> (\<exists>a. r = Inr (a, False))"
      "read_upload up (lm_MaxBytes (upload_limits (as_Limits assets))) = Inr raw"
proof (cases "requireRole d db user wid True")
  case (Inl rp')
  then show ?thesis using assms unchanged requireRole_Inl [OF Inl] by (auto simp: uploadAssetHandler_def)
next
  case (Inr u)
  define limits where "limits = upload_limits (as_Limits assets)"
  have up: "uploadAssetHandler d assets cd env calls up user wid (db, bs) = proceed (read_upload up (lm_MaxBytes limits)) (db, bs) (\<lambda>raw.
      case Normalize cd raw limits of
        Inl e \<Rightarrow> (normalize_error e, db, bs)
      | Inr normalized \<Rightarrow>
          (case storeAsset d assets env calls wid (u_ID u) normalized (db, bs) of
             (Inl e, st) \<Rightarrow> (if e = ErrQuotaExceeded then writeJSON 413 (apiError ''quota'' ''core.asset.worldIsFull'') else internalError, st)
           | (Inr (record, reused), st) \<Rightarrow> (writeJSON (if reused then 200 else 201) (Inr (viewAsset assets record)), st)))"
    using Inr by (simp add: uploadAssetHandler_def Let_def limits_def)
  show ?thesis
  proof (cases "read_upload up (lm_MaxBytes limits)")
    case bad: (Inl rp')
    then have "rp_Status rp' = 400" by (auto simp: read_upload_def split: if_splits option.splits)
    then show ?thesis using assms unchanged bad by (auto simp: up)
  next
    case raw: (Inr raw)
    show ?thesis
    proof (cases "Normalize cd raw limits")
      case (Inl e)
      then show ?thesis using assms unchanged raw by (auto simp: up normalize_error_def)
    next
      case nm: (Inr nm)
      obtain r st where st: "storeAsset d assets env calls wid (u_ID u) nm (db, bs) = (r, st)" by (rule prod.exhaust)
      then have "st = (db', bs')" "rp_Status rp = 201 \<longleftrightarrow> (\<exists>a. r = Inr (a, False))"
        using assms raw nm by (auto simp: up split: sum.splits prod.splits if_splits)
      then show ?thesis using stored [OF Inr nm [unfolded limits_def], of r] raw st by (simp add: limits_def)
    qed
  qed
qed

text \<open>Only the transaction at the end changes the database.\<close>

lemma storeAsset_db:
  assumes "storeAsset d assets env calls wid uid nm (db, bs) = (r, db', bs')"
  shows "db' = db \<or> (\<exists>a. r = Inr (a, False)) \<and> store_Tx (ad_Store d) (put_asset_tx (new_asset env wid uid nm)) db = (Inr (), db')"
proof (cases "\<exists>a. r = Inr (a, False)")
  case True
  then show ?thesis using assms
    by (auto simp: storeAsset_def Let_def split: sum.splits option.splits prod.splits if_splits)
next
  case False
  then show ?thesis using assms
    by (auto simp: storeAsset_def Let_def split: sum.splits option.splits prod.splits if_splits dest: store_Tx_error)
qed

locale asset_blobs = blob_store holds put fetch delete sane
  for holds :: "'s \<Rightarrow> string \<Rightarrow> string option" and put :: "'e \<Rightarrow> string \<Rightarrow> string \<Rightarrow> 's \<Rightarrow> unit res \<times> 's"
    and fetch :: "'e \<Rightarrow> string \<Rightarrow> 's \<Rightarrow> (string \<times> int) res" and delete :: "'e \<Rightarrow> string \<Rightarrow> 's \<Rightarrow> unit res \<times> 's"
    and sane :: "'e \<Rightarrow> bool" +
  fixes assets :: "('e, 's) AssetDeps"
  assumes puts: "as_Put assets = put" and opens: "as_Open assets = fetch"
begin

lemma storeAsset_effect:
  assumes "storeAsset d assets env calls wid uid nm (db, bs) = (r, db', bs')" and "sane (fst calls)" "sane (snd calls)"
  shows "(db' = db \<and> holds bs' \<in> {holds bs, (holds bs)(vr_Key (nm_Full nm) \<mapsto> vr_Content (nm_Full nm)), stored_blobs nm (holds bs)} \<and>
      (\<forall>a. r \<noteq> Inr (a, False))) \<or>
    (store_Tx (ad_Store d) (put_asset_tx (new_asset env wid uid nm)) db = (Inr (), db') \<and> holds bs' = stored_blobs nm (holds bs) \<and>
      withinQuota d assets db wid (wrap64 (vr_Bytes (nm_Full nm) + vr_Bytes (nm_Thumbnail nm))) = Inr () \<and>
      find_existing (ad_Store d\<lparr>c_writable := False\<rparr>) db wid (nm_SHA256 nm) = Inr None)"
proof (cases "find_existing (ad_Store d\<lparr>c_writable := False\<rparr>) db wid (nm_SHA256 nm)")
  case (Inr e)
  show ?thesis
  proof (cases e)
    case None
    let ?q = "withinQuota d assets db wid (wrap64 (vr_Bytes (nm_Full nm) + vr_Bytes (nm_Thumbnail nm)))"
    show ?thesis
    proof (cases ?q)
      case q: (Inr u)
      obtain r1 bs1 where p1: "put (fst calls) (vr_Key (nm_Full nm)) (vr_Content (nm_Full nm)) bs = (r1, bs1)" by fastforce
      obtain r2 bs2 where p2: "put (snd calls) (vr_Key (nm_Thumbnail nm)) (vr_Content (nm_Thumbnail nm)) bs1 = (r2, bs2)" by fastforce
      obtain r3 db3 where t: "store_Tx (ad_Store d) (put_asset_tx (new_asset env wid uid nm)) db = (r3, db3)" by fastforce
      have h1: "case r1 of Inl _ \<Rightarrow> holds bs1 = holds bs | Inr _ \<Rightarrow> holds bs1 = (holds bs)(vr_Key (nm_Full nm) \<mapsto> vr_Content (nm_Full nm))"
        using p1 assms(2) put_ok put_error by (cases r1) auto
      have h2: "case r2 of Inl _ \<Rightarrow> holds bs2 = holds bs1 | Inr _ \<Rightarrow> holds bs2 = (holds bs1)(vr_Key (nm_Thumbnail nm) \<mapsto> vr_Content (nm_Thumbnail nm))"
        using p2 assms(3) put_ok put_error by (cases r2) auto
      have "case r3 of Inl _ \<Rightarrow> db3 = db | Inr _ \<Rightarrow> True" using t store_Tx_error by (cases r3) auto
      then show ?thesis using assms(1) Inr None q p1 p2 t h1 h2
        by (cases r1; cases r2; cases r3) (auto simp: storeAsset_def store_ReadOnly_def puts Let_def stored_blobs_def)
    qed (use assms(1) Inr None in \<open>auto simp: storeAsset_def store_ReadOnly_def\<close>)
  qed (use assms(1) Inr in \<open>auto simp: storeAsset_def store_ReadOnly_def\<close>)
qed (use assms(1) in \<open>auto simp: storeAsset_def store_ReadOnly_def\<close>)

text \<open>A stored row is served, unless the store itself fails to read.\<close>

lemma serve_good:
  assumes "assets_good cd db (holds bs)" and "a \<in> set (t_assets db)"
  shows "rp_Status (serveAssetHandler d assets call user (a_WorldID a) (a_ID a) variant (db, bs)) \<noteq> 404"
proof (cases "requireRole d db user (a_WorldID a) False")
  case (Inl rp)
  then show ?thesis using requireRole_Inl [OF Inl] by (auto simp: serveAssetHandler_def answer_def)
next
  case (Inr u)
  show ?thesis
  proof (cases "c_fails (ad_Store d) ''GetAsset''")
    case False
    obtain b where b: "find (\<lambda>x. a_WorldID x = a_WorldID a \<and> a_ID x = a_ID a) (t_assets db) = Some b"
      using assms(2) by (cases "find (\<lambda>x. a_WorldID x = a_WorldID a \<and> a_ID x = a_ID a) (t_assets db)") (auto simp: find_None_iff)
    then have "b \<in> set (t_assets db)" by (auto simp: find_Some_iff)
    then have g: "asset_good cd (holds bs) b" using assms(1) by (auto simp: assets_good_def list_all_iff)
    obtain key mime where k: "blob_of b variant = (key, mime)" by fastforce
    then have "holds bs key \<noteq> None" using g by (auto simp: blob_of_def asset_good_def split: if_splits option.splits)
    then have "fetch call key bs \<noteq> Inl ErrBlobNotFound" by (auto dest: fetch_missing)
    then show ?thesis using Inr False b k
      by (cases "fetch call key bs")
        (auto simp: serveAssetHandler_def store_ReadOnly_def GetAsset_def stmt_def answer_def opens serve_content_def)
  qed (use Inr in \<open>simp add: serveAssetHandler_def store_ReadOnly_def GetAsset_def stmt_def answer_def\<close>)
qed

text \<open>Rows stay good through an upload, wherever it fails.\<close>

lemma upload_keeps_good:
  assumes "uploadAssetHandler d assets cd env calls up user wid (db, bs) = (rp, db', bs')"
    and "sane (fst calls)" "sane (snd calls)" and "assets_good cd db (holds bs)"
  shows "assets_good cd db' (holds bs')"
  using assms(1)
proof (cases rule: upload_effect)
  case (stored u raw nm r)
  note nm = Normalize_Inr [OF stored(2)]
  have dash: "CHR ''-'' \<in> set (vr_Key (nm_Thumbnail nm))" by (simp add: nm)
  have put1: "asset_good cd ((holds bs)(vr_Key (nm_Full nm) \<mapsto> vr_Content (nm_Full nm))) a" if "asset_good cd (holds bs) a" for a
    using that by (rule asset_good_put) (simp add: nm(1,2))
  have put2: "asset_good cd (stored_blobs nm (holds bs)) a" if "asset_good cd (holds bs) a" for a
    unfolding stored_blobs_def by (rule asset_good_put [OF put1 [OF that]]) (simp add: dash)
  from storeAsset_effect [OF stored(3) assms(2,3)] show ?thesis
  proof (elim disjE conjE)
    assume "db' = db" and "holds bs' \<in> {holds bs, (holds bs)(vr_Key (nm_Full nm) \<mapsto> vr_Content (nm_Full nm)), stored_blobs nm (holds bs)}"
    then show ?thesis using assms(4) put1 put2 by (auto simp: assets_good_def list_all_iff)
  next
    assume tx: "store_Tx (ad_Store d) (put_asset_tx (new_asset env wid (u_ID u) nm)) db = (Inr (), db')"
      and bs': "holds bs' = stored_blobs nm (holds bs)"
    note new = put_asset_row [OF tx]
    have "asset_good cd (stored_blobs nm (holds bs)) a" if member: "a \<in> set (t_assets db')" for a
    proof -
      consider "a \<in> set (t_assets db)" | "a = (new_asset env wid (u_ID u) nm)\<lparr>a_CreatedAt := c_now (ad_Store d)\<rparr>"
        | b where "b \<in> set (t_assets db)" "a_SHA256 a = a_SHA256 b" "a_Variants a = marshal_variants (nm_Thumbnail nm)"
        using member unfolding new by (auto simp: row_upsert_def merge_asset_def new_asset_def split: if_splits)
      then show ?thesis
      proof cases
        case 3
        have "asset_good cd (stored_blobs nm (holds bs)) b" using 3(1) assms(4) put2 by (auto simp: assets_good_def list_all_iff)
        then show ?thesis using 3 stored_variant [OF stored(2)] by (auto simp: asset_good_def split: option.splits)
      qed (use assms(4) put2 new_asset_good [OF stored(2)] in \<open>auto simp: assets_good_def list_all_iff\<close>)
    qed
    then show ?thesis by (simp add: assets_good_def list_all_iff bs')
  qed
qed (use assms(4) in simp)

end

section \<open>The handlers on disk\<close>

definition disk_assets :: "ImageLimits \<Rightarrow> int \<Rightarrow> string \<Rightarrow> (os_env, Disk) AssetDeps" where
  "disk_assets limits quota base = \<lparr>as_Put = disk_Put, as_Open = disk_Open, as_Limits = limits,
     as_WorldQuota = quota, as_AssetBaseURL = base\<rparr>"

interpretation on_disk: asset_blobs blob_at disk_Put disk_Open disk_Delete "\<lambda>env. CHR ''/'' \<notin> set (os_temp env)"
    "disk_assets limits quota base" for limits quota base
  by unfold_locales (simp_all add: disk_assets_def)

definition temp_ok :: "os_env \<times> os_env \<Rightarrow> bool" where
  "temp_ok calls \<longleftrightarrow> CHR ''/'' \<notin> set (os_temp (fst calls)) \<and> CHR ''/'' \<notin> set (os_temp (snd calls))"

text \<open>
  C17: every row has its blobs.  Whatever step of an upload fails, each asset row names an image
  that is stored under the hash of its own bytes, and a thumbnail that is stored; so no request
  for the content of a recorded asset is ever answered with 404.
\<close>

theorem assets_backed:
  assumes "uploadAssetHandler d (disk_assets limits quota base) cd env calls up user wid (db, disk) = (rp, db', disk')"
    and "temp_ok calls" and "assets_good cd db (blob_at disk)"
  shows "assets_good cd db' (blob_at disk') \<and>
    list_all (\<lambda>a. \<forall>d2 call user2 variant. rp_Status (serveAssetHandler d2 (disk_assets limits quota base) call user2
      (a_WorldID a) (a_ID a) variant (db', disk')) \<noteq> 404) (t_assets db')"
proof -
  have "assets_good cd db' (blob_at disk')"
    using on_disk.upload_keeps_good [OF assms(1) _ _ assms(3)] assms(2) by (simp add: temp_ok_def)
  then show ?thesis using on_disk.serve_good by (auto simp: list_all_iff)
qed

lemma read_upload_Inr:
  assumes "read_upload up n = Inr raw" and "Normalize cd raw limits = Inr nm" and "lm_MaxBytes limits = n" and "0 < n" "n < max_int64"
  shows "up_file up = Some raw"
proof -
  obtain content where f: "up_file up = Some content" "raw = take (nat (wrap64 (n + 1))) content"
    using assms(1) by (auto simp: read_upload_def split: if_splits option.splits)
  have w: "wrap64 (n + 1) = n + 1" using assms(4,5) by (intro wrap64_id) (auto simp: max_int64_def min_int64_def)
  have "int (length raw) \<le> n"
    using assms(2-4) by (auto simp: Normalize_def withDefaults_def Let_def split: if_splits)
  then have "length raw < nat (n + 1)" by simp
  then have "raw = content" using f(2) by (simp add: w)
  with f show ?thesis by simp
qed

lemma disk_Open_found:
  "blob_at disk key = Some content \<Longrightarrow> \<not> os_done call \<Longrightarrow> (\<And>op. \<not> os_fails call op) \<Longrightarrow>
     disk_Open call key disk = Inr (content, int (length content))"
  by (cases "disk_path disk key") (simp_all add: disk_Open_def blob_at_path blob_at_bad)

lemma serve_found:
  assumes "requireRole d db user wid False = Inr u" and "\<not> c_fails (ad_Store d) ''GetAsset''"
    and "find (\<lambda>a. a_WorldID a = wid \<and> a_ID a = aid) (t_assets db) = Some a"
    and "blob_of a variant = (key, mime)" and "disk_Open call key disk = Inr (content, n)"
  shows "serveAssetHandler d (disk_assets limits quota base) call user wid aid variant (db, disk) = serve_content mime key content"
  using assms by (simp add: serveAssetHandler_def store_ReadOnly_def GetAsset_def stmt_def answer_def disk_assets_def)

lemma find_append_row: "find P (xs @ ys) = (case find P xs of None \<Rightarrow> find P ys | Some x \<Rightarrow> Some x)"
  by (induction xs) auto

text \<open>The row of a new asset is the one found by its id.\<close>

lemma find_new_asset:
  assumes "GenerateID ''asset'' (en_id env) \<notin> a_ID ` set (t_assets db)"
    and "t_assets db' = row_upsert a_ID merge_asset ((new_asset env wid uid nm)\<lparr>a_CreatedAt := t\<rparr>) (t_assets db)"
  shows "t_assets db' = t_assets db @ [(new_asset env wid uid nm)\<lparr>a_CreatedAt := t\<rparr>]"
    and "find (\<lambda>a. a_WorldID a = wid \<and> a_ID a = GenerateID ''asset'' (en_id env)) (t_assets db') = Some ((new_asset env wid uid nm)\<lparr>a_CreatedAt := t\<rparr>)"
proof -
  show eq: "t_assets db' = t_assets db @ [(new_asset env wid uid nm)\<lparr>a_CreatedAt := t\<rparr>]"
  proof -
    have "\<not> list_ex (\<lambda>r. a_ID r = a_ID ((new_asset env wid uid nm)\<lparr>a_CreatedAt := t\<rparr>)) (t_assets db)"
      using assms(1) by (simp add: list_ex_iff new_asset_def image_iff) metis
    then show ?thesis unfolding assms(2) row_upsert_def by (rule if_not_P)
  qed
  have "find (\<lambda>a. a_WorldID a = wid \<and> a_ID a = GenerateID ''asset'' (en_id env)) (t_assets db) = None"
    using assms(1) by (force simp: find_None_iff image_iff)
  then show "find (\<lambda>a. a_WorldID a = wid \<and> a_ID a = GenerateID ''asset'' (en_id env)) (t_assets db') = Some ((new_asset env wid uid nm)\<lparr>a_CreatedAt := t\<rparr>)"
    by (simp add: eq find_append_row) (simp add: new_asset_def)
qed

text \<open>
  C18: what a game master uploads is what the members of the world get.  When an upload is answered
  with 201 under a fresh id, the file was normalised from exactly the bytes sent; any member who then asks
  for the asset gets the re-encoded image, and for its thumbnail the thumbnail, each with its own
  media type and the hash of the content as entity tag, as long as the disk can be read.
\<close>

theorem upload_then_serve:
  assumes up: "uploadAssetHandler d (disk_assets limits quota base) cd env calls up user wid (db, disk) = (rp, db', disk')"
    "rp_Status rp = 201" "temp_ok calls" "GenerateID ''asset'' (en_id env) \<notin> a_ID ` set (t_assets db)"
    "lm_MaxBytes (upload_limits limits) < max_int64"
    and ask: "requireRole d2 db' user2 wid False = Inr u2" "\<not> c_fails (ad_Store d2) ''GetAsset''"
    "\<not> os_done call" "\<forall>op. \<not> os_fails call op"
  shows "\<exists>file nm. up_file up = Some file \<and> Normalize cd file (upload_limits limits) = Inr nm \<and>
    serveAssetHandler d2 (disk_assets limits quota base) call user2 wid (GenerateID ''asset'' (en_id env)) [] (db', disk') =
      serve_content (vr_Mime (nm_Full nm)) (hex_encode (cd_sha256 cd (vr_Content (nm_Full nm)))) (vr_Content (nm_Full nm)) \<and>
    (in_int64 (vr_Bytes (nm_Thumbnail nm)) \<and> in_int64 (vr_Width (nm_Thumbnail nm)) \<and> in_int64 (vr_Height (nm_Thumbnail nm)) \<longrightarrow>
      serveAssetHandler d2 (disk_assets limits quota base) call user2 wid (GenerateID ''asset'' (en_id env)) ''thumbnail'' (db', disk') =
        serve_content MimePNG (hex_encode (cd_sha256 cd (vr_Content (nm_Full nm))) @ ''-thumb'') (vr_Content (nm_Thumbnail nm)))"
  using up(1)
proof (cases rule: upload_effect)
  case (stored u raw nm r)
  have lim: "as_Limits (disk_assets limits quota base) = limits" by (simp add: disk_assets_def)
  note nm = Normalize_Inr [OF stored(2)]
  have "0 < lm_MaxBytes (upload_limits limits)" by (simp add: upload_limits_def DefaultMaxBytes_def)
  then have sent: "up_file up = Some raw" using read_upload_Inr [OF stored(5,2)] up(5) lim by simp
  have tx: "store_Tx (ad_Store d) (put_asset_tx (new_asset env wid (u_ID u) nm)) db = (Inr (), db')"
    and bs: "blob_at disk' = stored_blobs nm (blob_at disk)"
    using on_disk.storeAsset_effect [OF stored(3)] stored(4) up(2,3) by (auto simp: temp_ok_def)
  define a where "a = (new_asset env wid (u_ID u) nm)\<lparr>a_CreatedAt := c_now (ad_Store d)\<rparr>"
  have a: "find (\<lambda>a. a_WorldID a = wid \<and> a_ID a = GenerateID ''asset'' (en_id env)) (t_assets db') = Some a"
    unfolding a_def by (rule find_new_asset(2) [OF up(4) put_asset_row [OF tx]])
  have sha: "a_SHA256 a = nm_SHA256 nm" "a_Mime a = vr_Mime (nm_Full nm)" "a_Variants a = marshal_variants (nm_Thumbnail nm)"
    by (simp_all add: a_def new_asset_def)
  have full: "blob_at disk' (nm_SHA256 nm) = Some (vr_Content (nm_Full nm))" using stored_full [OF stored(2)] by (simp add: bs)
  have ascii: "is_ascii (vr_Key (nm_Thumbnail nm))" "is_ascii (vr_Mime (nm_Thumbnail nm))"
    using hex_encode_ascii by (simp_all add: nm is_ascii_def MimePNG_def)
  have thumb: "blob_at disk' (vr_Key (nm_Thumbnail nm)) = Some (vr_Content (nm_Thumbnail nm))" by (simp add: bs stored_blobs_def)
  have 1: "serveAssetHandler d2 (disk_assets limits quota base) call user2 wid (GenerateID ''asset'' (en_id env)) [] (db', disk') =
      serve_content (vr_Mime (nm_Full nm)) (nm_SHA256 nm) (vr_Content (nm_Full nm))"
    by (rule serve_found [OF ask(1,2) a _ disk_Open_found [OF full ask(3)]]) (use ask(4) in \<open>simp_all add: blob_of_def sha\<close>)
  have 2: "serveAssetHandler d2 (disk_assets limits quota base) call user2 wid (GenerateID ''asset'' (en_id env)) ''thumbnail'' (db', disk') =
      serve_content MimePNG (vr_Key (nm_Thumbnail nm)) (vr_Content (nm_Thumbnail nm))"
    if "in_int64 (vr_Bytes (nm_Thumbnail nm)) \<and> in_int64 (vr_Width (nm_Thumbnail nm)) \<and> in_int64 (vr_Height (nm_Thumbnail nm))"
    by (rule serve_found [OF ask(1,2) a _ disk_Open_found [OF thumb ask(3)]])
      (use ask(4) that in \<open>simp_all add: blob_of_def sha variants_roundtrip [OF ascii] nm(4)\<close>)
  show ?thesis using sent stored(2) lim 1 2 nm(1,3) by auto
qed (use up(2) in simp)

text \<open>
  an upload that is accepted keeps its world within the quota: the bytes of its images, the
  new one included, and of the new thumbnail are no more than the quota, provided the sum
  fits a 64-bit integer.
\<close>

definition asset_bytes :: "DB \<Rightarrow> ID \<Rightarrow> int" where
  "asset_bytes db wid = sum_list (map a_Bytes (filter (\<lambda>a. a_WorldID a = wid) (t_assets db)))"

theorem quota_respected:
  assumes up: "uploadAssetHandler d (disk_assets limits quota base) cd env calls up user wid (db, disk) = (rp, db', disk')"
    "rp_Status rp = 201" "temp_ok calls" "GenerateID ''asset'' (en_id env) \<notin> a_ID ` set (t_assets db)"
    and room: "0 < quota" "0 \<le> asset_bytes db wid"
      "\<And>file nm. up_file up = Some file \<Longrightarrow> Normalize cd file (upload_limits limits) = Inr nm \<Longrightarrow>
        asset_bytes db wid + vr_Bytes (nm_Full nm) + vr_Bytes (nm_Thumbnail nm) \<le> max_int64"
    and lim: "lm_MaxBytes (upload_limits limits) < max_int64"
  shows "\<exists>file nm. up_file up = Some file \<and> Normalize cd file (upload_limits limits) = Inr nm \<and>
    asset_bytes db' wid = asset_bytes db wid + int (length (vr_Content (nm_Full nm))) \<and>
    asset_bytes db' wid + int (length (vr_Content (nm_Thumbnail nm))) \<le> quota"
  using up(1)
proof (cases rule: upload_effect)
  case (stored u raw nm r)
  have l: "as_Limits (disk_assets limits quota base) = limits" "as_WorldQuota (disk_assets limits quota base) = quota"
    by (simp_all add: disk_assets_def)
  note nm = Normalize_Inr [OF stored(2)]
  have "0 < lm_MaxBytes (upload_limits limits)" by (simp add: upload_limits_def DefaultMaxBytes_def)
  then have sent: "up_file up = Some raw" using read_upload_Inr [OF stored(5,2)] lim l by simp
  have tx: "store_Tx (ad_Store d) (put_asset_tx (new_asset env wid (u_ID u) nm)) db = (Inr (), db')"
    and q: "withinQuota d (disk_assets limits quota base) db wid (wrap64 (vr_Bytes (nm_Full nm) + vr_Bytes (nm_Thumbnail nm))) = Inr ()"
    using on_disk.storeAsset_effect [OF stored(3)] stored(4) up(2,3) by (auto simp: temp_ok_def)
  have b: "0 \<le> vr_Bytes (nm_Full nm)" "0 \<le> vr_Bytes (nm_Thumbnail nm)" by (simp_all add: nm)
  have m: "asset_bytes db wid + vr_Bytes (nm_Full nm) + vr_Bytes (nm_Thumbnail nm) \<le> max_int64"
    using room(3) [OF sent] stored(2) l by simp
  have "wrap64 (vr_Bytes (nm_Full nm) + vr_Bytes (nm_Thumbnail nm)) = vr_Bytes (nm_Full nm) + vr_Bytes (nm_Thumbnail nm)"
    using b m room(2) by (intro wrap64_id) (auto simp: max_int64_def min_int64_def)
  moreover have "wrap64 (asset_bytes db wid + (vr_Bytes (nm_Full nm) + vr_Bytes (nm_Thumbnail nm))) =
      asset_bytes db wid + (vr_Bytes (nm_Full nm) + vr_Bytes (nm_Thumbnail nm))"
    using b m room(2) by (intro wrap64_id) (auto simp: max_int64_def min_int64_def)
  ultimately have "asset_bytes db wid + (vr_Bytes (nm_Full nm) + vr_Bytes (nm_Thumbnail nm)) \<le> quota"
    using q room(1) l(2) by (auto simp: withinQuota_def store_ReadOnly_def SumAssetBytes_def asset_bytes_def res_simps split: if_splits)
  moreover have "asset_bytes db' wid = asset_bytes db wid + vr_Bytes (nm_Full nm)"
    unfolding asset_bytes_def find_new_asset(1) [OF up(4) put_asset_row [OF tx]] by (simp add: new_asset_def)
  ultimately show ?thesis using sent stored(2) l(1) by (auto simp: nm(5,6))
qed (use up(2) in simp)

section \<open>Witnesses\<close>

text \<open>Codecs of toy formats: an image's encoding is ten bytes, its digest the first four bytes.\<close>

definition sample_codecs :: Codecs where
  "sample_codecs = \<lparr>cd_DecodeConfig = (\<lambda>_. Inr (6, 3)),
     cd_Decode = (\<lambda>raw. Inr (sample_image\<lparr>im_Dx := int (length raw)\<rparr>)),
     cd_png = (\<lambda>im. Inr (take 10 (''image '' @ digits_of (nat (im_Dx im)) @ ''.......''))),
     cd_jpeg = (\<lambda>_ im. Inr ''jpeg''), cd_sha256 = (\<lambda>s. drop 6 (take 10 s))\<rparr>"

definition sample_upload :: "string \<Rightarrow> Upload" where
  "sample_upload extra = \<lparr>up_bytes = 200, up_wellformed = True, up_file = Some (''GIF89a'' @ extra), up_readable = True\<rparr>"

definition sample_limits :: ImageLimits where "sample_limits = \<lparr>lm_MaxBytes = 60, lm_MaxPixels = 0, lm_Thumbnail = 0\<rparr>"

definition sample_disk :: Disk where "sample_disk = \<lparr>dk_root = ''data/blobs'', dk_files = []\<rparr>"

definition sample_calls :: "os_env \<times> os_env" where "sample_calls = (sample_os, sample_os)"

definition sample_uploaded :: "Response \<times> DB \<times> Disk" where
  "sample_uploaded = uploadAssetHandler sample_deps (disk_assets sample_limits 30 []) sample_codecs sample_http_env sample_calls
     (sample_upload ''1'') (Some (sample_user\<lparr>u_ID := ''g''\<rparr>)) ''w'' (sample_members_db, sample_disk)"

lemma sample_uploaded_result:
  "(case sample_uploaded of (rp, db, disk) \<Rightarrow> (rp_Status rp, t_members db, map a_WorldID (t_assets db))) =
     (201, t_members sample_members_db, [''w''])"
  by code_simp

lemma sample_uploaded_status:
  "rp_Status (fst sample_uploaded) = 201" "t_members (fst (snd sample_uploaded)) = t_members sample_members_db"
  "t_assets (fst (snd sample_uploaded)) \<noteq> []"
  using sample_uploaded_result by (auto simp: case_prod_beta)

lemma sample_uploaded_split: "sample_uploaded = (fst sample_uploaded, fst (snd sample_uploaded), snd (snd sample_uploaded))"
  by simp

theorem assets_backed_witness:
  "assets_good sample_codecs (fst (snd sample_uploaded)) (blob_at (snd (snd sample_uploaded))) \<and>
   t_assets (fst (snd sample_uploaded)) \<noteq> []"
proof -
  have "temp_ok sample_calls" "assets_good sample_codecs sample_members_db (blob_at sample_disk)" by code_simp+
  then show ?thesis
    using assets_backed [OF sample_uploaded_split [unfolded sample_uploaded_def]] sample_uploaded_status(3)
    by (simp add: sample_uploaded_def)
qed

lemma sample_fresh: "GenerateID ''asset'' (en_id sample_http_env) \<notin> a_ID ` set (t_assets sample_members_db)"
  by (simp add: sample_members_db_def sample_db_def empty_db_def)

theorem upload_then_serve_witness:
  "\<exists>nm. Normalize sample_codecs ''GIF89a1'' (upload_limits sample_limits) = Inr nm \<and>
     serveAssetHandler sample_deps (disk_assets sample_limits 30 []) sample_os (Some (sample_user\<lparr>u_ID := ''p''\<rparr>)) ''w''
       (GenerateID ''asset'' (en_id sample_http_env)) [] (snd sample_uploaded) =
     serve_content (vr_Mime (nm_Full nm)) (hex_encode (cd_sha256 sample_codecs (vr_Content (nm_Full nm)))) (vr_Content (nm_Full nm))"
proof -
  have ok: "temp_ok sample_calls" "lm_MaxBytes (upload_limits sample_limits) < max_int64" "\<not> os_done sample_os" "\<forall>op. \<not> os_fails sample_os op"
    "\<not> c_fails (ad_Store sample_deps) ''GetAsset''"
    by (simp_all add: temp_ok_def sample_calls_def sample_os_def upload_limits_def sample_limits_def max_int64_def sample_deps_def sample_conn_def)
  have "requireRole sample_deps (fst (snd sample_uploaded)) (Some (sample_user\<lparr>u_ID := ''p''\<rparr>)) ''w'' False = Inr (sample_user\<lparr>u_ID := ''p''\<rparr>)"
    by (simp add: requireRole_Inr sample_uploaded_status(2) sample_members_db_def sample_deps_def sample_conn_def row_get_Cons member_key_def)
  then have "\<exists>file nm. up_file (sample_upload ''1'') = Some file \<and> Normalize sample_codecs file (upload_limits sample_limits) = Inr nm \<and>
     serveAssetHandler sample_deps (disk_assets sample_limits 30 []) sample_os (Some (sample_user\<lparr>u_ID := ''p''\<rparr>)) ''w''
       (GenerateID ''asset'' (en_id sample_http_env)) [] (fst (snd sample_uploaded), snd (snd sample_uploaded)) =
     serve_content (vr_Mime (nm_Full nm)) (hex_encode (cd_sha256 sample_codecs (vr_Content (nm_Full nm)))) (vr_Content (nm_Full nm))"
    using upload_then_serve [OF sample_uploaded_split [unfolded sample_uploaded_def] sample_uploaded_status(1) [unfolded sample_uploaded_def] ok(1) sample_fresh ok(2),
      folded sample_uploaded_def, OF _ ok(5,3,4)] by blast
  then show ?thesis by (simp add: sample_upload_def)
qed

theorem quota_respected_witness:
  "asset_bytes (fst (snd sample_uploaded)) ''w'' \<le> 30 \<and> 0 < asset_bytes (fst (snd sample_uploaded)) ''w''"
proof -
  have ok: "temp_ok sample_calls" "lm_MaxBytes (upload_limits sample_limits) < max_int64"
    by (simp_all add: temp_ok_def sample_calls_def sample_os_def upload_limits_def sample_limits_def max_int64_def)
  have none: "asset_bytes sample_members_db ''w'' = 0" by (simp add: asset_bytes_def sample_members_db_def sample_db_def empty_db_def)
  have "case Normalize sample_codecs ''GIF89a1'' (upload_limits sample_limits) of Inl _ \<Rightarrow> False
      | Inr nm \<Rightarrow> vr_Bytes (nm_Full nm) = 10 \<and> vr_Bytes (nm_Thumbnail nm) = 10" by code_simp
  then have ten: "vr_Bytes (nm_Full nm) = 10 \<and> vr_Bytes (nm_Thumbnail nm) = 10"
    if "Normalize sample_codecs ''GIF89a1'' (upload_limits sample_limits) = Inr nm" for nm using that by simp
  have "\<exists>file nm. up_file (sample_upload ''1'') = Some file \<and> Normalize sample_codecs file (upload_limits sample_limits) = Inr nm \<and>
      asset_bytes (fst (snd sample_uploaded)) ''w'' = asset_bytes sample_members_db ''w'' + int (length (vr_Content (nm_Full nm))) \<and>
      asset_bytes (fst (snd sample_uploaded)) ''w'' + int (length (vr_Content (nm_Thumbnail nm))) \<le> 30"
    by (rule quota_respected [OF sample_uploaded_split [unfolded sample_uploaded_def] sample_uploaded_status(1) [unfolded sample_uploaded_def] ok(1) sample_fresh,
      folded sample_uploaded_def]) (use ten none ok(2) in \<open>auto simp: sample_upload_def max_int64_def\<close>)
  then obtain nm where nm: "Normalize sample_codecs ''GIF89a1'' (upload_limits sample_limits) = Inr nm"
      "asset_bytes (fst (snd sample_uploaded)) ''w'' = int (length (vr_Content (nm_Full nm)))"
      "asset_bytes (fst (snd sample_uploaded)) ''w'' + int (length (vr_Content (nm_Thumbnail nm))) \<le> 30"
    using none by (auto simp: sample_upload_def)
  then have "asset_bytes (fst (snd sample_uploaded)) ''w'' = 10" using ten [OF nm(1)] Normalize_Inr(5) [OF nm(1)] by linarith
  then show ?thesis by simp
qed

text \<open>
  The quota counts the thumbnail of the upload at hand, but not those stored before: a world with
  a quota of 30 bytes that holds an image of 10 bytes and its thumbnail of 10 bytes accepts
  another such upload, which leaves 40 bytes in the blob store.
\<close>

definition sample_stocked :: "DB \<times> Disk" where
  "sample_stocked =
     (sample_members_db\<lparr>t_assets := [\<lparr>a_ID = ''a'', a_WorldID = ''w'', a_SHA256 = hex_encode ''6...'', a_Mime = MimePNG, a_Bytes = 10,
        a_Width = 6, a_Height = 3, a_DurationMS = 0, a_Variants = RawJson JNull, a_UploadedBy = ''g'', a_CreatedAt = 1\<rparr>]\<rparr>,
      sample_disk\<lparr>dk_files := [(''data/blobs/36/2e/362e2e2e'', ''image 6...''), (''data/blobs/36/2e/362e2e2e-thumb'', ''image 6...'')]\<rparr>)"

definition second_upload :: "Response \<times> DB \<times> Disk" where
  "second_upload = uploadAssetHandler sample_deps (disk_assets sample_limits 30 []) sample_codecs sample_http_env sample_calls
     (sample_upload ''1'') (Some (sample_user\<lparr>u_ID := ''g''\<rparr>)) ''w'' sample_stocked"

lemma second_upload_result:
  "(case second_upload of (rp, db, disk) \<Rightarrow> (rp_Status rp, int (length (concat (map snd (dk_files disk)))))) = (201, 40)"
  by code_simp

theorem quota_ignores_thumbnails:
  "assets_good sample_codecs (fst sample_stocked) (blob_at (snd sample_stocked)) \<and> rp_Status (fst second_upload) = 201 \<and>
   int (length (concat (map snd (dk_files (snd (snd second_upload)))))) = 40"
proof -
  have "assets_good sample_codecs (fst sample_stocked) (blob_at (snd sample_stocked))" by code_simp
  then show ?thesis using second_upload_result by (simp add: case_prod_beta)
qed

end
