(* ===== verification/Server.thy ===== *)
theory Server
  imports Scenes HttpAssets
begin

text \<open>
  The HTTP server as a whole (\<open>internal/transport/httpapi/router.go\<close>): its routes, the handler of
  each, and a request as one step on the server's state: the database, the login limiter, the
  tickets and the blobs on disk.  The lemmas show that every handler works in one transaction and
  that a failed request changes nothing but sessions that have run out.
\<close>

section \<open>Routes\<close>

datatype route =
    Healthz | Readyz | SetupState | Setup | SignIn | SignOut | Me | NewTicket
  | WorldList | CreateWorld | Members ID | SetRoleOf ID ID | RemoveFrom ID ID
  | Invites ID | CreateInvite ID | RevokeInviteOf ID ID
  | SceneList ID | CreateScene ID | TokensOf ID ID | CreateToken ID ID | WallsOf ID ID | CreateWall ID ID
  | Actors ID | CreateActor ID | SetAccess ID ID
  | Assets ID | UploadAsset ID | ServeAsset ID ID string
  | PreviewInvite string | AcceptInvite string
  | WebSocket

text \<open>
  The patterns of \<open>NewRouter\<close>, in order, with what the values of their wildcards select.
\<close>

definition arg :: "string list \<Rightarrow> nat \<Rightarrow> string" where
  "arg vs i = (if i < length vs then vs ! i else [])"

definition patterns :: "(string \<times> string \<times> (string list \<Rightarrow> route)) list" where
  "patterns =
     [(''GET'', ''/healthz'', \<lambda>vs. Healthz),
      (''GET'', ''/readyz'', \<lambda>vs. Readyz),
      (''GET'', ''/api/setup'', \<lambda>vs. SetupState),
      (''POST'', ''/api/setup'', \<lambda>vs. Setup),
      (''POST'', ''/api/auth/login'', \<lambda>vs. SignIn),
      (''POST'', ''/api/auth/logout'', \<lambda>vs. SignOut),
      (''GET'', ''/api/auth/me'', \<lambda>vs. Me),
      (''POST'', ''/api/session/ticket'', \<lambda>vs. NewTicket),
      (''GET'', ''/api/worlds'', \<lambda>vs. WorldList),
      (''POST'', ''/api/worlds'', \<lambda>vs. CreateWorld),
      (''GET'', ''/api/worlds/{worldId}/members'', \<lambda>vs. Members (arg vs 0)),
      (''PUT'', ''/api/worlds/{worldId}/members/{userId}'', \<lambda>vs. SetRoleOf (arg vs 0) (arg vs 1)),
      (''DELETE'', ''/api/worlds/{worldId}/members/{userId}'', \<lambda>vs. RemoveFrom (arg vs 0) (arg vs 1)),
      (''GET'', ''/api/worlds/{worldId}/invites'', \<lambda>vs. Invites (arg vs 0)),
      (''POST'', ''/api/worlds/{worldId}/invites'', \<lambda>vs. CreateInvite (arg vs 0)),
      (''DELETE'', ''/api/worlds/{worldId}/invites/{inviteId}'', \<lambda>vs. RevokeInviteOf (arg vs 0) (arg vs 1)),
      (''GET'', ''/api/worlds/{worldId}/scenes'', \<lambda>vs. SceneList (arg vs 0)),
      (''POST'', ''/api/worlds/{worldId}/scenes'', \<lambda>vs. CreateScene (arg vs 0)),
      (''GET'', ''/api/worlds/{worldId}/scenes/{sceneId}/tokens'', \<lambda>vs. TokensOf (arg vs 0) (arg vs 1)),
      (''POST'', ''/api/worlds/{worldId}/scenes/{sceneId}/tokens'', \<lambda>vs. CreateToken (arg vs 0) (arg vs 1)),
      (''GET'', ''/api/worlds/{worldId}/scenes/{sceneId}/walls'', \<lambda>vs. WallsOf (arg vs 0) (arg vs 1)),
      (''POST'', ''/api/worlds/{worldId}/scenes/{sceneId}/walls'', \<lambda>vs. CreateWall (arg vs 0) (arg vs 1)),
      (''GET'', ''/api/worlds/{worldId}/actors'', \<lambda>vs. Actors (arg vs 0)),
      (''POST'', ''/api/worlds/{worldId}/actors'', \<lambda>vs. CreateActor (arg vs 0)),
      (''PUT'', ''/api/worlds/{worldId}/documents/{documentId}/access'', \<lambda>vs. SetAccess (arg vs 0) (arg vs 1)),
      (''GET'', ''/api/worlds/{worldId}/assets'', \<lambda>vs. Assets (arg vs 0)),
      (''POST'', ''/api/worlds/{worldId}/assets'', \<lambda>vs. UploadAsset (arg vs 0)),
      (''GET'', ''/assets/{worldId}/{assetId}'', \<lambda>vs. ServeAsset (arg vs 0) (arg vs 1) []),
      (''GET'', ''/assets/{worldId}/{assetId}/{variant}'', \<lambda>vs. ServeAsset (arg vs 0) (arg vs 1) (arg vs 2)),
      (''GET'', ''/api/invites/{token}'', \<lambda>vs. PreviewInvite (arg vs 0)),
      (''POST'', ''/api/invites/{token}/accept'', \<lambda>vs. AcceptInvite (arg vs 0)),
      (''GET'', ''/ws'', \<lambda>vs. WebSocket)]"

text \<open>
  \<open>http.ServeMux\<close> for a path that is clean and without escapes: a wildcard takes one segment that is not empty,
  a pattern for GET also takes HEAD, a path known only under other methods is answered
  with 405 and an unknown one with 404.
\<close>

definition is_wildcard :: "string \<Rightarrow> bool" where
  "is_wildcard w \<longleftrightarrow> take 1 w = ''{''"

fun match_segments :: "string list \<Rightarrow> string list \<Rightarrow> string list option" where
  "match_segments [] [] = Some []"
| "match_segments (p # ps) (w # ws) =
     (if is_wildcard p then (if w = [] then None else map_option (\<lambda>vs. w # vs) (match_segments ps ws))
      else if p = w then match_segments ps ws else None)"
| "match_segments _ _ = None"

definition match_path :: "string \<Rightarrow> string \<Rightarrow> string list option" where
  "match_path pattern path = match_segments (split_on (CHR ''/'') pattern) (split_on (CHR ''/'') path)"

definition method_matches :: "string \<Rightarrow> string \<Rightarrow> bool" where
  "method_matches pm m \<longleftrightarrow> pm = m \<or> (pm = ''GET'' \<and> m = ''HEAD'')"

fun route_in :: "(string \<times> string \<times> (string list \<Rightarrow> route)) list \<Rightarrow> string \<Rightarrow> string \<Rightarrow> route option" where
  "route_in [] m path = None"
| "route_in ((pm, pattern, f) # ps) m path =
     (case (if method_matches pm m then match_path pattern path else None) of
        Some vs \<Rightarrow> Some (f vs)
      | None \<Rightarrow> route_in ps m path)"

definition unrouted :: "string \<Rightarrow> Response" where
  "unrouted path = WriteHeader (if list_ex (\<lambda>(pm, pattern, f). match_path pattern path \<noteq> None) patterns then 405 else 404)"

section \<open>A request\<close>

record Deps =
  dp_Auth :: AuthDeps
  dp_Assets :: "(os_env, Disk) AssetDeps"
  dp_Codecs :: Codecs
  dp_Ready :: "unit res"
  dp_Backend :: string

record HttpCall =
  hc_Method :: string
  hc_Path :: string
  hc_Request :: Request
  hc_Upload :: Upload
  hc_Env :: Env
  hc_now :: time
  hc_os :: "os_env \<times> os_env"

record ServerState =
  sv_db :: DB
  sv_limiter :: Limiter
  sv_tickets :: TicketStore
  sv_disk :: Disk

definition healthz :: Response where
  "healthz = writeJSON 200 (Inr (JObj [(''status'', JStr ''ok'')]))"

definition readyz :: "Deps \<Rightarrow> Response" where
  "readyz deps =
     (case dp_Ready deps of
        Inl _ \<Rightarrow> writeJSON 503 (Inr (JObj [(''reason'', JStr ''storage''), (''status'', JStr ''unavailable'')]))
      | Inr _ \<Rightarrow> writeJSON 200 (Inr (JObj [(''status'', JStr ''ready''), (''storage'', jstr (dp_Backend deps))])))"

definition on_db :: "ServerState \<Rightarrow> Response \<times> DB \<Rightarrow> Response \<times> ServerState" where
  "on_db st = (\<lambda>(rp, db). (rp, st\<lparr>sv_db := db\<rparr>))"

text \<open>
  The handler of each route.  An upgrade to a websocket hands the connection to the gateway and
  leaves this state alone.
\<close>

fun handle :: "Deps \<Rightarrow> HttpCall \<Rightarrow> User option \<Rightarrow> route \<Rightarrow> ServerState \<Rightarrow> Response \<times> ServerState" where
  "handle deps hc user Healthz st = (healthz, st)"
| "handle deps hc user Readyz st = (readyz deps, st)"
| "handle deps hc user SetupState st = (setupStateHandler (dp_Auth deps) (sv_db st), st)"
| "handle deps hc user Setup st = on_db st (setupHandler (dp_Auth deps) (hc_Env hc) (hc_Request hc) (sv_db st))"
| "handle deps hc user SignIn st =
     (case loginHandler (dp_Auth deps) (hc_Env hc) (hc_Request hc) (sv_limiter st, sv_db st) of
        (rp, l, db) \<Rightarrow> (rp, st\<lparr>sv_limiter := l, sv_db := db\<rparr>))"
| "handle deps hc user SignOut st = on_db st (logoutHandler (dp_Auth deps) (hc_Request hc) (sv_db st))"
| "handle deps hc user Me st = (meHandler user, st)"
| "handle deps hc user NewTicket st =
     (case ticketHandler (dp_Auth deps) (hc_Env hc) (hc_Request hc) user (sv_db st) (sv_tickets st) of
        (rp, tickets) \<Rightarrow> (rp, st\<lparr>sv_tickets := tickets\<rparr>))"
| "handle deps hc user WorldList st = (listWorldsHandler (dp_Auth deps) user (sv_db st), st)"
| "handle deps hc user CreateWorld st =
     on_db st (createWorldHandler (dp_Auth deps) (hc_Env hc) (hc_Request hc) user (sv_db st))"
| "handle deps hc user (Members w) st = (listMembersHandler (dp_Auth deps) user w (sv_db st), st)"
| "handle deps hc user (SetRoleOf w u) st =
     on_db st (setMemberRoleHandler (dp_Auth deps) (hc_Request hc) user w u (sv_db st))"
| "handle deps hc user (RemoveFrom w u) st = on_db st (removeMemberHandler (dp_Auth deps) user w u (sv_db st))"
| "handle deps hc user (Invites w) st = (listInvitesHandler (dp_Auth deps) user w (sv_db st), st)"
| "handle deps hc user (CreateInvite w) st =
     on_db st (createInviteHandler (dp_Auth deps) (hc_Env hc) (hc_Request hc) user w (sv_db st))"
| "handle deps hc user (RevokeInviteOf w i) st = on_db st (revokeInviteHandler (dp_Auth deps) user w i (sv_db st))"
| "handle deps hc user (SceneList w) st = (listScenesHandler (dp_Auth deps) user w (sv_db st), st)"
| "handle deps hc user (CreateScene w) st =
     on_db st (createSceneHandler (dp_Auth deps) (hc_Env hc) (hc_Request hc) user w (sv_db st))"
| "handle deps hc user (TokensOf w s) st = (listTokensHandler (dp_Auth deps) user w s (sv_db st), st)"
| "handle deps hc user (CreateToken w s) st =
     on_db st (createTokenHandler (dp_Auth deps) (hc_Env hc) (hc_Request hc) user w s (sv_db st))"
| "handle deps hc user (WallsOf w s) st = (listWallsHandler (dp_Auth deps) user w s (sv_db st), st)"
| "handle deps hc user (CreateWall w s) st =
     on_db st (createWallHandler (dp_Auth deps) (hc_Env hc) (hc_Request hc) user w s (sv_db st))"
| "handle deps hc user (Actors w) st = (listActorsHandler (dp_Auth deps) user w (sv_db st), st)"
| "handle deps hc user (CreateActor w) st =
     on_db st (createActorHandler (dp_Auth deps) (hc_Env hc) (hc_Request hc) user w (sv_db st))"
| "handle deps hc user (SetAccess w i) st =
     on_db st (setDocumentAccessHandler (dp_Auth deps) (hc_Request hc) user w i (sv_db st))"
| "handle deps hc user (Assets w) st = (listAssetsHandler (dp_Auth deps) (dp_Assets deps) user w (sv_db st), st)"
| "handle deps hc user (UploadAsset w) st =
     (case uploadAssetHandler (dp_Auth deps) (dp_Assets deps) (dp_Codecs deps) (hc_Env hc) (hc_os hc) (hc_Upload hc) user w
         (sv_db st, sv_disk st) of
        (rp, db, disk) \<Rightarrow> (rp, st\<lparr>sv_db := db, sv_disk := disk\<rparr>))"
| "handle deps hc user (ServeAsset w a v) st =
     (serveAssetHandler (dp_Auth deps) (dp_Assets deps) (fst (hc_os hc)) user w a v (sv_db st, sv_disk st), st)"
| "handle deps hc user (PreviewInvite t) st = (previewInviteHandler (dp_Auth deps) (hc_Env hc) t (sv_db st), st)"
| "handle deps hc user (AcceptInvite t) st =
     on_db st (acceptInviteHandler (dp_Auth deps) (hc_Env hc) (hc_Request hc) user t (sv_db st))"
| "handle deps hc user WebSocket st = (WriteHeader 101, st)"

definition serve :: "Deps \<Rightarrow> HttpCall \<Rightarrow> ServerState \<Rightarrow> Response \<times> ServerState" where
  "serve deps hc st =
     (case withUser (dp_Auth deps) (hc_now hc) (hc_Request hc) (sv_db st) of
        (user, db) \<Rightarrow>
          (case route_in patterns (hc_Method hc) (hc_Path hc) of
             None \<Rightarrow> (unrouted (hc_Path hc), st\<lparr>sv_db := db\<rparr>)
           | Some r \<Rightarrow> handle deps hc user r (st\<lparr>sv_db := db\<rparr>)))"

section \<open>Every path has one handler\<close>

fun segments_apart :: "string list \<Rightarrow> string list \<Rightarrow> bool" where
  "segments_apart [] [] = False"
| "segments_apart (p # ps) (q # qs) \<longleftrightarrow> (\<not> is_wildcard p \<and> \<not> is_wildcard q \<and> p \<noteq> q) \<or> segments_apart ps qs"
| "segments_apart _ _ = True"

lemma segments_apart: "match_segments ps ws = Some us \<Longrightarrow> match_segments qs ws = Some vs \<Longrightarrow> \<not> segments_apart ps qs"
proof (induction ps ws arbitrary: qs us vs rule: match_segments.induct)
  case 1
  then show ?case by (cases qs) auto
next
  case (2 p ps w ws)
  then obtain q qs' where qs: "qs = q # qs'" by (cases qs) auto
  obtain us' vs' where "match_segments ps ws = Some us'" "match_segments qs' ws = Some vs'"
    using "2.prems" by (auto simp: qs split: if_splits)
  then have "\<not> segments_apart ps qs'" using "2.IH" "2.prems"(1) by (auto split: if_splits)
  then show ?case using "2.prems" by (auto simp: qs split: if_splits)
qed auto

definition apart :: "string \<times> string \<times> 'r \<Rightarrow> string \<times> string \<times> 'r \<Rightarrow> bool" where
  "apart = (\<lambda>(pm, p, _) (qm, q, _). pm \<noteq> ''HEAD'' \<and> qm \<noteq> ''HEAD'' \<and>
     (pm \<noteq> qm \<or> segments_apart (split_on (CHR ''/'') p) (split_on (CHR ''/'') q)))"

lemma apart_matches:
  assumes "apart (pm, p, f) (qm, q, g)" and "method_matches pm m" "method_matches qm m" and "match_path p path = Some us"
  shows "match_path q path = None"
  using assms segments_apart [of "split_on (CHR ''/'') p" "split_on (CHR ''/'') path" us "split_on (CHR ''/'') q"]
  by (cases "match_path q path") (auto simp: apart_def method_matches_def match_path_def)

fun all_apart :: "(string \<times> string \<times> 'r) list \<Rightarrow> bool" where
  "all_apart [] = True"
| "all_apart (p # ps) \<longleftrightarrow> list_all (apart p) ps \<and> all_apart ps"

lemma patterns_apart: "all_apart patterns"
  by code_simp

lemma route_in_unique:
  assumes "all_apart ps" and "(pm, pattern, f) \<in> set ps" and "method_matches pm m" and "match_path pattern path = Some vs"
  shows "route_in ps m path = Some (f vs)"
  using assms
proof (induction ps)
  case (Cons q ps)
  obtain qm qp g where q: "q = (qm, qp, g)" by (cases q)
  show ?case
  proof (cases "(pm, pattern, f) = q")
    case False
    then have mem: "(pm, pattern, f) \<in> set ps" using Cons.prems(2) by simp
    then have "apart (qm, qp, g) (pm, pattern, f)" using Cons.prems(1) q by (auto simp: list_all_iff)
    then have "method_matches qm m \<Longrightarrow> match_path qp path = None"
      using apart_matches [of qm qp g pm pattern f m path] Cons.prems(3,4) by (cases "match_path qp path") auto
    then show ?thesis using Cons.IH mem Cons.prems q by auto
  qed (use Cons.prems q in auto)
qed simp

section \<open>Every handler is one transaction\<close>

text \<open>The roles of members and invites are known ones.\<close>

definition roles_ok :: "DB \<Rightarrow> bool" where
  "roles_ok db \<longleftrightarrow> list_all (\<lambda>m. Valid (m_Role m)) (t_members db) \<and> list_all (\<lambda>i. Valid (i_Role i)) (t_invites db)"

lemma roles_ok_upsert:
  "list_all (\<lambda>r. P (role r)) rows \<Longrightarrow> P (role row) \<Longrightarrow> (\<And>old. role (merge old row) = role row) \<Longrightarrow>
     list_all (\<lambda>r. P (role r)) (row_upsert key merge row rows)"
  by (auto simp: list_all_iff row_upsert_def)

text \<open>A change of the database that keeps it good.\<close>

definition keeps :: "DB \<Rightarrow> DB \<Rightarrow> bool" where
  "keeps db db' \<longleftrightarrow> (db_ok db \<longrightarrow> db_ok db') \<and> (roles_ok db \<longrightarrow> roles_ok db')"

lemma keeps_refl [simp]: "keeps db db"
  by (simp add: keeps_def)

lemma keeps_trans [trans]: "keeps a b \<Longrightarrow> keeps b c \<Longrightarrow> keeps a c"
  by (auto simp: keeps_def)

lemma keeps_same_roles:
  "(db_ok db \<Longrightarrow> db_ok db') \<Longrightarrow> t_members db' = t_members db \<Longrightarrow> t_invites db' = t_invites db \<Longrightarrow> keeps db db'"
  by (simp add: keeps_def roles_ok_def)

lemma PutWorld_keeps: "PutWorld c w db = Inr db' \<Longrightarrow> keeps db db'"
  by (rule keeps_same_roles, erule (1) PutWorld_ok) (auto simp: PutWorld_def res_simps split: if_splits)

lemma PutDocument_keeps: "PutDocument c doc db = Inr db' \<Longrightarrow> keeps db db'"
  by (rule keeps_same_roles, erule (1) PutDocument_ok) (auto simp: PutDocument_def res_simps split: if_splits)

lemma PutUser_keeps: "PutUser c u db = Inr db' \<Longrightarrow> keeps db db'"
  by (rule keeps_same_roles, erule (1) PutUser_ok) (auto simp: PutUser_def split: if_splits)

lemma PutUserSession_keeps: "PutUserSession c se db = Inr db' \<Longrightarrow> keeps db db'"
  by (rule keeps_same_roles, erule (1) PutUserSession_ok) (auto simp: PutUserSession_def split: if_splits)

lemma DeleteUserSession_keeps: "DeleteUserSession c h db = Inr db' \<Longrightarrow> keeps db db'"
  by (rule keeps_same_roles, erule (1) DeleteUserSession_ok) (auto simp: DeleteUserSession_def split: if_splits)

lemma PutAsset_keeps: "PutAsset c a db = Inr db' \<Longrightarrow> keeps db db'"
  by (rule keeps_same_roles, erule (1) PutAsset_ok) (auto simp: PutAsset_def res_simps split: if_splits)

lemma PutMember_keeps: "PutMember c m db = Inr db' \<Longrightarrow> Valid (m_Role m) \<Longrightarrow> keeps db db'"
  unfolding keeps_def using PutMember_ok [of c m db db']
  by (auto simp: PutMember_def roles_ok_def stored_member_def merge_member_def split: if_splits intro!: roles_ok_upsert)

lemma DeleteMember_keeps: "DeleteMember c wid uid db = Inr db' \<Longrightarrow> keeps db db'"
  unfolding keeps_def using DeleteMember_ok [of c wid uid db db']
  by (auto simp: DeleteMember_def roles_ok_def row_delete_def list_all_iff split: if_splits)

lemma PutInvite_keeps: "PutInvite c i db = Inr db' \<Longrightarrow> Valid (i_Role i) \<Longrightarrow> keeps db db'"
  unfolding keeps_def using PutInvite_ok [of c i db db']
  by (auto simp: PutInvite_def roles_ok_def stored_invite_def merge_invite_def split: if_splits intro!: roles_ok_upsert)

lemma ConsumeInvite_keeps: "ConsumeInvite c wid iid db = Inr db' \<Longrightarrow> keeps db db'"
  unfolding keeps_def using ConsumeInvite_ok [of c wid iid db db']
  by (auto simp: ConsumeInvite_def roles_ok_def row_update_def list_all_iff split: if_splits)

lemma RevokeInvite_keeps: "RevokeInvite c wid iid db = Inr db' \<Longrightarrow> keeps db db'"
  unfolding keeps_def using RevokeInvite_ok [of c wid iid db db']
  by (auto simp: RevokeInvite_def roles_ok_def row_update_def list_all_iff Let_def split: if_splits)

lemmas operation_keeps = PutWorld_keeps PutDocument_keeps PutUser_keeps PutUserSession_keeps DeleteUserSession_keeps
  PutAsset_keeps DeleteMember_keeps ConsumeInvite_keeps RevokeInvite_keeps

text \<open>A handler either leaves the database alone or succeeds, and then keeps what a good database has.\<close>

definition handled :: "DB \<Rightarrow> Response \<times> DB \<Rightarrow> bool" where
  "handled db = (\<lambda>(rp, db'). db' = db \<or> (rp_Status rp < 400 \<and> keeps db db'))"

lemma handled_same [simp]: "handled db (rp, db)"
  by (simp add: handled_def)

lemma handled_proceed: "(\<And>x. step = Inr x \<Longrightarrow> handled db (k x)) \<Longrightarrow> handled db (proceed step db k)"
  by (cases step) auto

lemma handled_tx:
  assumes "\<And>c x db'. fn c db = Inr (x, db') \<Longrightarrow> keeps db db'"
    and "\<And>x. rp_Status (good x) < 400"
  shows "handled db (case store_Tx c fn db of (Inl e, db) \<Rightarrow> (bad e, db) | (Inr x, db) \<Rightarrow> (good x, db))"
  using assms by (auto simp: handled_def store_Tx_def split: sum.splits if_splits)

lemma handled_done:
  assumes "\<And>c x db'. fn c db = Inr (x, db') \<Longrightarrow> keeps db db'"
  shows "handled db (done_or_missing key (store_Tx c fn db))" and "handled db (created key view (store_Tx c fn db))"
  using assms by (auto simp: handled_def store_Tx_def done_or_missing_def created_def split: sum.splits if_splits)

section \<open>The transactions\<close>

lemma account_keeps:
  assumes "insertUser c u db = Inr db1" and "IssueSession a c random now uid agent db1 = Inr (x, db')"
  shows "keeps db db'"
proof -
  have "keeps db db1" using assms(1) by (auto simp: insertUser_Inr dest: PutUser_keeps)
  moreover have "keeps db1 db'" using assms(2) by (cases x) (auto simp: IssueSession_Inr dest: PutUserSession_keeps)
  ultimately show ?thesis by (rule keeps_trans)
qed

lemma setup_tx_keeps: "setup_tx d env rq body c db = Inr (x, db') \<Longrightarrow> keeps db db'"
  by (cases x) (auto elim!: setup_tx_Inr intro: account_keeps)

lemma create_world_tx_keeps: "create_world_tx chosen uid w c db = Inr (x, db') \<Longrightarrow> keeps db db'"
  by (auto simp: create_world_tx_def res_simps new_member_def Valid_def split: if_splits
      intro: keeps_trans [OF PutWorld_keeps PutMember_keeps])

lemma member_tx_keeps:
  "set_role_tx wid target role c db = Inr (x, db') \<Longrightarrow> Valid role \<Longrightarrow> keeps db db'"
  "remove_member_tx wid target c db = Inr (x, db') \<Longrightarrow> keeps db db'"
  by (auto simp: set_role_tx_def remove_member_tx_def res_simps new_member_def intro: PutMember_keeps DeleteMember_keeps)

lemma invite_tx_keeps:
  "put_invite_tx i c db = Inr (x, db') \<Longrightarrow> Valid (i_Role i) \<Longrightarrow> keeps db db'"
  "revoke_invite_tx wid iid c db = Inr (x, db') \<Longrightarrow> keeps db db'"
  by (auto simp: put_invite_tx_def revoke_invite_tx_def res_simps intro: PutInvite_keeps RevokeInvite_keeps)

lemma accepting_user_keeps: "accepting_user d env rq body existing c db = Inr (x, db') \<Longrightarrow> keeps db db'"
  by (cases existing) (auto simp: accepting_user_def res_simps keeps_def dest: account_keeps [unfolded keeps_def])

lemma accept_tx_keeps:
  assumes "accept_tx d env rq body existing h c db = Inr (x, db')"
  shows "keeps db db'"
proof -
  obtain i user signed db1 db2 where i: "GetInviteByTokenHash c db h = Inr i"
    and u: "accepting_user d env rq body existing c db = Inr ((user, signed), db1)"
    and m: "PutMember c (new_member (i_WorldID i) (u_ID user) (i_Role i)) db1 = Inr db2"
    and n: "ConsumeInvite c (i_WorldID i) (i_ID i) db2 = Inr db'"
    using assms by (auto simp: accept_tx_def res_simps split: if_splits)
  have "i \<in> set (t_invites db)" using i by (auto simp: GetInviteByTokenHash_def split: option.splits dest: row_get_SomeD)
  then have role: "roles_ok db \<Longrightarrow> Valid (i_Role i)" by (auto simp: roles_ok_def list_all_iff)
  have "db_ok db2" if "db_ok db" using that accepting_user_keeps [OF u] PutMember_ok [OF m] by (auto simp: keeps_def)
  moreover have "roles_ok db2" if "roles_ok db"
    using that accepting_user_keeps [OF u] PutMember_keeps [OF m] role by (auto simp: keeps_def new_member_def)
  ultimately show ?thesis using ConsumeInvite_keeps [OF n] by (auto simp: keeps_def)
qed

lemma document_tx_keeps:
  "put_tx doc c db = Inr (x, db') \<Longrightarrow> keeps db db'"
  "put_in_scene_tx wid sid doc c db = Inr (x, db') \<Longrightarrow> keeps db db'"
  "access_tx wid did uid level c db = Inr (x, db') \<Longrightarrow> keeps db db'"
  by (auto simp: put_tx_def put_in_scene_tx_def access_tx_def res_simps intro: PutDocument_keeps)

lemma put_asset_tx_keeps: "put_asset_tx a c db = Inr (x, db') \<Longrightarrow> keeps db db'"
  by (auto simp: put_asset_tx_def res_simps intro: PutAsset_keeps)

section \<open>The handlers\<close>

lemmas tx_cases = handled_def store_Tx_def

lemma setup_handled: "handled db (setupHandler d env rq db)"
proof (cases "NeedsSetup (ad_Store d) db")
  case (Inr needed)
  have "handled db (proceed (decodeBody unmarshal_credentials rq) db (\<lambda>body.
      case store_Tx (ad_Store d) (setup_tx d env rq body) db of
        (Inl e, db) \<Rightarrow> (account_error e, db)
      | (Inr (user, token, expires), db) \<Rightarrow> (issueCookie d rq token expires (writeJSON 201 (identityOf user)), db)))"
    by (intro handled_proceed) (auto simp: tx_cases split: sum.splits prod.splits if_splits dest: setup_tx_keeps)
  then show ?thesis using Inr by (simp add: setupHandler_def)
qed (simp add: setupHandler_def)

lemma accept_handled: "handled db (acceptInviteHandler d env rq user token db)"
  unfolding acceptInviteHandler_def
  by (intro handled_proceed) (auto simp: tx_cases split: sum.splits option.splits if_splits dest: accept_tx_keeps)

lemma logout_handled: "handled db (logoutHandler d rq db)"
  by (auto simp: logoutHandler_def Logout_def tx_cases res_simps split: option.splits sum.splits if_splits intro: DeleteUserSession_keeps)

lemma create_world_handled: "handled db (createWorldHandler d env rq user db)"
  unfolding createWorldHandler_def Let_def
  by (intro handled_proceed) (auto simp: tx_cases split: sum.splits if_splits dest: create_world_tx_keeps)

lemma members_handled:
  "handled db (setMemberRoleHandler d rq user wid target db)" "handled db (removeMemberHandler d user wid target db)"
  unfolding setMemberRoleHandler_def removeMemberHandler_def
  by (auto intro!: handled_proceed handled_done(1) dest: member_tx_keeps)

lemma invites_handled:
  "handled db (createInviteHandler d env rq user wid db)" "handled db (revokeInviteHandler d user wid iid db)"
proof -
  show "handled db (createInviteHandler d env rq user wid db)"
    unfolding createInviteHandler_def Let_def
    by (intro handled_proceed) (auto simp: tx_cases new_invite_def split: sum.splits if_splits dest!: invite_tx_keeps(1))
  show "handled db (revokeInviteHandler d user wid iid db)"
    unfolding revokeInviteHandler_def by (auto intro!: handled_proceed handled_done(1) dest: invite_tx_keeps)
qed

lemma scenes_handled:
  "handled db (createSceneHandler d env rq user wid db)" "handled db (createTokenHandler d env rq user wid sid db)"
  "handled db (createWallHandler d env rq user wid sid db)" "handled db (createActorHandler d env rq user wid db)"
  "handled db (setDocumentAccessHandler d rq user wid did db)"
  unfolding createSceneHandler_def createTokenHandler_def createWallHandler_def createActorHandler_def setDocumentAccessHandler_def Let_def
  by (auto intro!: handled_proceed handled_done split: sum.splits prod.splits if_splits dest: document_tx_keeps)

lemmas handlers_handled = setup_handled accept_handled logout_handled create_world_handled members_handled invites_handled scenes_handled

lemma login_handled:
  "case loginHandler d env rq (l, db) of (rp, l', db') \<Rightarrow> handled db (rp, db')"
  by (cases "decodeBody unmarshal_credentials rq")
    (auto simp: loginHandler_def Login_def Let_def tx_cases res_simps split: sum.splits prod.splits option.splits bool.splits if_splits
      intro: PutUserSession_keeps)

lemma upload_handled: "case uploadAssetHandler d assets cd env calls up user wid (db, bs) of (rp, db', bs') \<Rightarrow> handled db (rp, db')"
proof -
  obtain rp db' bs' where u: "uploadAssetHandler d assets cd env calls up user wid (db, bs) = (rp, db', bs')"
    using prod_cases3 by blast
  from u have "handled db (rp, db')"
  proof (cases rule: upload_effect)
    case (stored u raw nm r)
    have "rp_Status rp = 201 \<Longrightarrow> rp_Status rp < 400" by simp
    then show ?thesis using storeAsset_db [OF stored(3)] stored(4)
      by (auto simp: handled_def store_Tx_ok dest: put_asset_tx_keeps)
  qed simp
  with u show ?thesis by simp
qed

lemma Logout_effect:
  "keeps db (snd (Logout a c token db))"
  "snd (Logout a c token db) = db \<or>
     snd (Logout a c token db) = db\<lparr>t_sessions := filter (\<lambda>s. s_TokenHash s \<noteq> HashToken a token) (t_sessions db)\<rparr>"
  by (auto simp: Logout_def store_Tx_def res_simps split: sum.splits if_splits intro: DeleteUserSession_keeps)
    (auto simp: DeleteUserSession_def row_delete_def)

lemma withUser_effect:
  assumes "withUser d now rq db = (user, db')"
  shows "db' = db \<or> (user = None \<and> (\<exists>token. rq_Cookie rq = Some token \<and> db' = snd (Logout (ad_Service d) (ad_Store d) token db)))"
  using assms by (auto simp: withUser_def Authenticate_def split: option.splits if_splits sum.splits)

lemma withUser_keeps: "withUser d now rq db = (user, db') \<Longrightarrow> keeps db db'"
  using Logout_effect(1) by (auto dest!: withUser_effect)

text \<open>Every route is handled.\<close>

lemma on_db_handled: "on_db st p = (rp, st') \<Longrightarrow> handled (sv_db st) p \<Longrightarrow> handled (sv_db st) (rp, sv_db st')"
  by (auto simp: on_db_def split: prod.splits)

lemma handle_handled:
  assumes "handle deps hc user r st = (rp, st')"
  shows "handled (sv_db st) (rp, sv_db st')"
proof (cases r)
  case SignIn
  then show ?thesis using assms
      login_handled [where d = "dp_Auth deps" and env = "hc_Env hc" and rq = "hc_Request hc" and l = "sv_limiter st" and db = "sv_db st"]
    by (auto split: prod.splits)
next
  case (UploadAsset w)
  then show ?thesis using assms
      upload_handled [where d = "dp_Auth deps" and assets = "dp_Assets deps" and cd = "dp_Codecs deps" and env = "hc_Env hc" and calls = "hc_os hc"
        and up = "hc_Upload hc" and user = user and wid = w and db = "sv_db st" and bs = "sv_disk st"]
    by (auto split: prod.splits)
qed (use assms handlers_handled [THEN on_db_handled [rotated]] in \<open>auto split: prod.splits\<close>)

section \<open>A run of requests\<close>

text \<open>Each request may find the store in another condition, so it comes with its own dependencies.\<close>

fun serve_all :: "(Deps \<times> HttpCall) list \<Rightarrow> ServerState \<Rightarrow> Response list \<times> ServerState" where
  "serve_all [] st = ([], st)"
| "serve_all ((deps, hc) # calls) st =
     (case serve deps hc st of (rp, st) \<Rightarrow> (case serve_all calls st of (rps, st) \<Rightarrow> (rp # rps, st)))"

lemma serve_keeps: "serve deps hc st = (rp, st') \<Longrightarrow> keeps (sv_db st) (sv_db st')"
proof -
  assume s: "serve deps hc st = (rp, st')"
  obtain user db where u: "withUser (dp_Auth deps) (hc_now hc) (hc_Request hc) (sv_db st) = (user, db)" by fastforce
  have "handled db (rp, sv_db st')"
    using s u handle_handled [of deps hc user _ "st\<lparr>sv_db := db\<rparr>" rp st']
    by (cases "route_in patterns (hc_Method hc) (hc_Path hc)") (auto simp: serve_def)
  then have "keeps db (sv_db st')" by (auto simp: handled_def)
  with withUser_keeps [OF u] show ?thesis by (rule keeps_trans)
qed

lemma serve_all_keeps: "serve_all calls st = (rps, st') \<Longrightarrow> keeps (sv_db st) (sv_db st')"
proof (induction calls arbitrary: st rps)
  case (Cons call calls)
  obtain deps hc where "call = (deps, hc)" by (cases call)
  with Cons show ?case by (auto split: prod.splits dest!: serve_keeps intro: keeps_trans)
qed simp


text \<open>
  C16: the HTTP interface never stores a role it does not know.  As long as the members and invites
  of the database have known roles, they do after any run of requests, so a member's role can
  then always be resolved.
\<close>

theorem roles_stay_known:
  assumes "serve_all calls st = (rps, st')" and "roles_ok (sv_db st)"
  shows "roles_ok (sv_db st') \<and> (\<forall>c wid uid. RoleOf c (sv_db st') wid uid \<noteq> Inl ErrUnknownRole)"
proof -
  have r: "roles_ok (sv_db st')" using serve_all_keeps [OF assms(1)] assms(2) by (simp add: keeps_def)
  have "RoleOf c (sv_db st') wid uid \<noteq> Inl ErrUnknownRole" for c wid uid
    using r by (auto simp: RoleOf_def GetMember_def stmt_def roles_ok_def list_all_iff res_simps split: option.splits if_splits dest!: row_get_SomeD)
  with r show ?thesis by blast
qed

section \<open>Who changes what\<close>

text \<open>The tables other than the sessions.\<close>

definition durable :: "DB \<Rightarrow> DB" where
  "durable db = db\<lparr>t_sessions := []\<rparr>"

text \<open>The world whose game master a route asks for.\<close>

fun needs_gm :: "route \<Rightarrow> ID option" where
  "needs_gm (SetRoleOf w u) = Some w"
| "needs_gm (RemoveFrom w u) = Some w"
| "needs_gm (CreateInvite w) = Some w"
| "needs_gm (RevokeInviteOf w i) = Some w"
| "needs_gm (CreateScene w) = Some w"
| "needs_gm (CreateToken w s) = Some w"
| "needs_gm (CreateWall w s) = Some w"
| "needs_gm (CreateActor w) = Some w"
| "needs_gm (SetAccess w i) = Some w"
| "needs_gm (UploadAsset w) = Some w"
| "needs_gm _ = None"

lemma refused_unchanged:
  assumes "needs_gm r = Some w" and "requireRole (dp_Auth deps) (sv_db st) user w True = Inl rp0"
  shows "handle deps hc user r st = (rp0, st)"
  using assms
  by (cases r) (simp_all add: on_db_def setMemberRoleHandler_def removeMemberHandler_def createInviteHandler_def revokeInviteHandler_def
      createSceneHandler_def createTokenHandler_def createWallHandler_def createActorHandler_def setDocumentAccessHandler_def uploadAssetHandler_def)

lemma sessions_only:
  "durable (snd (Logout a c token db)) = durable db"
  "durable (snd (logoutHandler d rq db)) = durable db"
  "loginHandler d env rq (l, db) = (rp, l', db') \<Longrightarrow> durable db' = durable db"
proof -
  show l: "durable (snd (Logout a c token db)) = durable db" for a c token
    using Logout_effect(2) [of a c token db] by (auto simp: durable_def)
  show "durable (snd (logoutHandler d rq db)) = durable db"
    by (auto simp: logoutHandler_def l split: option.splits)
  show "loginHandler d env rq (l, db) = (rp, l', db') \<Longrightarrow> durable db' = durable db"
    by (cases "decodeBody unmarshal_credentials rq")
      (auto simp: loginHandler_def Login_def Let_def store_Tx_def PutUserSession_def durable_def res_simps
        split: sum.splits prod.splits option.splits bool.splits if_splits)
qed

lemma handle_authority:
  assumes "handle deps hc user r st = (rp, st')" and "durable (sv_db st') \<noteq> durable (sv_db st)"
  shows "(case needs_gm r of
      Some w \<Rightarrow> (\<exists>u. requireRole (dp_Auth deps) (sv_db st) user w True = Inr u)
    | None \<Rightarrow> (r = CreateWorld \<and> user \<noteq> None) \<or> (r = Setup \<and> t_users (sv_db st) = []) \<or> (\<exists>t. r = AcceptInvite t))"
proof (cases "needs_gm r")
  case (Some w)
  then show ?thesis using assms refused_unchanged [OF Some, of deps st user]
    by (cases "requireRole (dp_Auth deps) (sv_db st) user w True") auto
next
  case None
  have "user \<noteq> None" if "r = CreateWorld"
    using assms that by (auto simp: on_db_def createWorldHandler_def requireUser_def split: option.splits)
  moreover have "t_users (sv_db st) = []" if "r = Setup"
    using assms that by (auto simp: on_db_def setupHandler_def NeedsSetup_Inr split: sum.splits if_splits)
  moreover have "r = CreateWorld \<or> r = Setup \<or> (\<exists>t. r = AcceptInvite t)"
    using assms None sessions_only(2) [of "dp_Auth deps" "hc_Request hc" "sv_db st"]
    by (cases r) (auto simp: on_db_def split: prod.splits dest: sessions_only(3))
  ultimately show ?thesis using None by auto
qed

lemma accept_needs_invite:
  assumes "acceptInviteHandler d env rq user t db = (rp, db')" and "db' \<noteq> db"
  shows "\<exists>i. row_get i_TokenHash (HashToken (ad_Service d) t) (t_invites db) = Some i \<and> Usable i (en_now env)"
proof (cases "decodeBody unmarshal_credentials rq")
  case (Inr body)
  let ?fn = "accept_tx d env rq body user (HashToken (ad_Service d) t)"
  obtain x where "?fn (tx_conn (ad_Store d)) db = Inr (x, db')"
    using assms Inr by (auto simp: acceptInviteHandler_def store_Tx_def split: sum.splits if_splits option.splits)
  then show ?thesis
    by (auto simp: accept_tx_def GetInviteByTokenHash_def stmt_def res_simps split: if_splits option.splits)
qed (use assms in \<open>simp add: acceptInviteHandler_def\<close>)

text \<open>What a request must bring to change a table other than the sessions.\<close>

definition authority :: "Deps \<Rightarrow> HttpCall \<Rightarrow> DB \<Rightarrow> route \<Rightarrow> bool" where
  "authority deps hc db r \<longleftrightarrow>
     (let user = fst (withUser (dp_Auth deps) (hc_now hc) (hc_Request hc) db)
      in case needs_gm r of
           Some w \<Rightarrow> (case user of None \<Rightarrow> False | Some u \<Rightarrow>
             (case row_get member_key (w, u_ID u) (t_members db) of None \<Rightarrow> False | Some m \<Rightarrow> m_Role m = RoleGM))
         | None \<Rightarrow> (case r of
             CreateWorld \<Rightarrow> user \<noteq> None
           | Setup \<Rightarrow> t_users db = []
           | AcceptInvite t \<Rightarrow>
               (case row_get i_TokenHash (HashToken (ad_Service (dp_Auth deps)) t) (t_invites db) of
                  None \<Rightarrow> False | Some i \<Rightarrow> Usable i (en_now (hc_Env hc)))
           | _ \<Rightarrow> False))"

text \<open>
  C6: a request changes accounts, worlds, members, documents, invites or assets only with the
  authority for it: a session of a game master of the very world its route names; or any session, to create a world; or
  no account in existence, for the setup; or the token of a usable invite, to accept it.  Such a
  request is answered with success.
\<close>

theorem http_authority:
  assumes "serve deps hc st = (rp, st')" and "durable (sv_db st') \<noteq> durable (sv_db st)"
  shows "\<exists>r. route_in patterns (hc_Method hc) (hc_Path hc) = Some r \<and> rp_Status rp < 400 \<and> authority deps hc (sv_db st) r"
proof -
  obtain user db where u: "withUser (dp_Auth deps) (hc_now hc) (hc_Request hc) (sv_db st) = (user, db)" by fastforce
  have d: "durable db = durable (sv_db st)" and same: "user \<noteq> None \<Longrightarrow> db = sv_db st"
    using withUser_effect [OF u] sessions_only(1) by auto
  have tables: "t_users db = t_users (sv_db st)" "t_invites db = t_invites (sv_db st)"
    using d by (simp_all add: durable_def) (metis DB.select_convs DB.surjective DB.update_convs)+
  obtain r where r: "route_in patterns (hc_Method hc) (hc_Path hc) = Some r"
    and h: "handle deps hc user r (st\<lparr>sv_db := db\<rparr>) = (rp, st')"
    using assms u d by (cases "route_in patterns (hc_Method hc) (hc_Path hc)") (auto simp: serve_def)
  have changed: "durable (sv_db st') \<noteq> durable db" using assms(2) d by simp
  then have "rp_Status rp < 400" using handle_handled [OF h] by (auto simp: handled_def)
  moreover have "authority deps hc (sv_db st) r"
  proof (cases "needs_gm r")
    case (Some w)
    then obtain x where x: "requireRole (dp_Auth deps) db user w True = Inr x" using handle_authority [OF h] changed by auto
    then show ?thesis using Some u same by (auto simp: authority_def requireRole_Inr)
  next
    case None
    have "\<exists>i. row_get i_TokenHash (HashToken (ad_Service (dp_Auth deps)) t) (t_invites db) = Some i \<and> Usable i (en_now (hc_Env hc))"
      if "r = AcceptInvite t" for t
    proof (rule accept_needs_invite)
      show "acceptInviteHandler (dp_Auth deps) (hc_Env hc) (hc_Request hc) user t db = (rp, sv_db st')"
        using h that by (auto simp: on_db_def split: prod.splits)
      show "sv_db st' \<noteq> db" using changed by auto
    qed
    then show ?thesis using None u tables handle_authority [OF h] changed by (auto simp: authority_def)
  qed
  ultimately show ?thesis using r by blast
qed

text \<open>
  C15: a failed request, one answered with 400 or more, changes nothing that lasts: no table but the
  sessions, of which at most the one the request itself presented is gone; no ticket; no
  attempt counter unless it was a sign-in; and no file unless it was an upload.
\<close>

theorem failed_request_changes_nothing:
  assumes "serve deps hc st = (rp, st')" and "400 \<le> rp_Status rp"
  shows "durable (sv_db st') = durable (sv_db st) \<and> sv_tickets st' = sv_tickets st \<and>
    (\<forall>se \<in> set (t_sessions (sv_db st)). se \<notin> set (t_sessions (sv_db st')) \<longrightarrow>
       (\<exists>token. rq_Cookie (hc_Request hc) = Some token \<and> s_TokenHash se = HashToken (ad_Service (dp_Auth deps)) token)) \<and>
    (route_in patterns (hc_Method hc) (hc_Path hc) \<noteq> Some SignIn \<longrightarrow> sv_limiter st' = sv_limiter st) \<and>
    ((\<forall>w. route_in patterns (hc_Method hc) (hc_Path hc) \<noteq> Some (UploadAsset w)) \<longrightarrow> sv_disk st' = sv_disk st)"
proof -
  obtain user db where u: "withUser (dp_Auth deps) (hc_now hc) (hc_Request hc) (sv_db st) = (user, db)" by fastforce
  let ?r = "route_in patterns (hc_Method hc) (hc_Path hc)"
  have "handled db (rp, sv_db st')"
    using assms(1) u handle_handled [of deps hc user _ "st\<lparr>sv_db := db\<rparr>" rp st'] by (cases ?r) (auto simp: serve_def)
  then have db: "sv_db st' = db" using assms(2) by (auto simp: handled_def)
  have d: "durable db = durable (sv_db st)" using withUser_effect [OF u] sessions_only(1) by auto
  have gone: "\<exists>token. rq_Cookie (hc_Request hc) = Some token \<and> s_TokenHash se = HashToken (ad_Service (dp_Auth deps)) token"
    if "se \<in> set (t_sessions (sv_db st))" "se \<notin> set (t_sessions db)" for se
  proof -
    have "db \<noteq> sv_db st" using that by auto
    then obtain token where t: "rq_Cookie (hc_Request hc) = Some token"
        "db = snd (Logout (ad_Service (dp_Auth deps)) (ad_Store (dp_Auth deps)) token (sv_db st))"
      using withUser_effect [OF u] by auto
    then have "db = (sv_db st)\<lparr>t_sessions := filter (\<lambda>s. s_TokenHash s \<noteq> HashToken (ad_Service (dp_Auth deps)) token) (t_sessions (sv_db st))\<rparr>"
      using Logout_effect(2) \<open>db \<noteq> sv_db st\<close> by blast
    with that have "s_TokenHash se = HashToken (ad_Service (dp_Auth deps)) token" by auto
    with t(1) show ?thesis by blast
  qed
  have tickets: "ticketHandler d env rq user db tickets = (rp, tickets') \<Longrightarrow> tickets' = tickets" for d env rq user db tickets tickets'
    using assms(2) by (auto simp: ticketHandler_def proceed_def Issue_def Let_def split: sum.splits option.splits if_splits prod.splits)
  have "sv_tickets st' = sv_tickets st \<and> (?r \<noteq> Some SignIn \<longrightarrow> sv_limiter st' = sv_limiter st) \<and>
      ((\<forall>w. ?r \<noteq> Some (UploadAsset w)) \<longrightarrow> sv_disk st' = sv_disk st)"
  proof (cases ?r)
    case (Some r)
    then show ?thesis using assms(1) u tickets by (cases r) (auto simp: serve_def on_db_def split: prod.splits)
  qed (use assms(1) u in \<open>auto simp: serve_def\<close>)
  then show ?thesis using db d gone by auto
qed

section \<open>Witnesses\<close>

definition sample_http :: "string \<Rightarrow> string \<Rightarrow> json \<Rightarrow> HttpCall" where
  "sample_http m path v = \<lparr>hc_Method = m, hc_Path = path, hc_Request = sample_request v, hc_Upload = sample_upload [],
     hc_Env = sample_http_env, hc_now = 9, hc_os = sample_calls\<rparr>"

definition sample_server_deps :: Deps where
  "sample_server_deps = \<lparr>dp_Auth = sample_deps, dp_Assets = disk_assets sample_limits 30 [], dp_Codecs = sample_codecs,
     dp_Ready = Inr (), dp_Backend = ''sqlite''\<rparr>"

definition sample_state :: "DB \<Rightarrow> ServerState" where
  "sample_state db = \<lparr>sv_db = db, sv_limiter = NewLimiter DefaultLimits, sv_tickets = NewTicketStore 30, sv_disk = sample_disk\<rparr>"

definition sample_setup_call :: HttpCall where
  "sample_setup_call = sample_http ''POST'' ''/api/setup'' (JObj [(''username'', JStr ''ann''), (''password'', JStr ''0123456789'')])"

definition sample_remove_call :: HttpCall where
  "sample_remove_call = sample_http ''DELETE'' ''/api/worlds/w/members/p'' JNull"

definition sample_run :: "Response list \<times> ServerState" where
  "sample_run = serve_all [(sample_server_deps, sample_remove_call), (sample_server_deps, sample_setup_call)] (sample_state sample_members_db)"

lemma sample_run_result: "map rp_Status (fst sample_run) = [401, 201] \<and> length (t_users (sv_db (snd sample_run))) = 1"
  by code_simp


theorem roles_stay_known_witness:
  "RoleOf sample_conn (sv_db (snd sample_run)) ''w'' ''p'' \<noteq> Inl ErrUnknownRole"
proof -
  have "roles_ok (sv_db (sample_state sample_members_db))" by code_simp
  with roles_stay_known [OF _ this, of "[(sample_server_deps, sample_remove_call), (sample_server_deps, sample_setup_call)]" "fst sample_run" "snd sample_run"]
  show ?thesis by (simp add: sample_run_def)
qed

theorem http_authority_witness:
  "durable (sv_db (snd (serve sample_server_deps sample_setup_call (sample_state sample_members_db)))) \<noteq> durable sample_members_db \<and>
   rp_Status (fst (serve sample_server_deps sample_setup_call (sample_state sample_members_db))) < 400"
proof -
  let ?s = "serve sample_server_deps sample_setup_call (sample_state sample_members_db)"
  have "length (t_users (sv_db (snd ?s))) = 1" by code_simp
  moreover have "t_users sample_members_db = []" by code_simp
  ultimately have c: "durable (sv_db (snd ?s)) \<noteq> durable sample_members_db"
    by (auto simp: durable_def dest!: arg_cong [where f = t_users])
  then show ?thesis
    using http_authority [of sample_server_deps sample_setup_call "sample_state sample_members_db" "fst ?s" "snd ?s"]
    by (auto simp: sample_state_def)
qed

theorem failed_request_changes_nothing_witness:
  "rp_Status (fst (serve sample_server_deps sample_remove_call (sample_state sample_members_db))) = 401 \<and>
   durable (sv_db (snd (serve sample_server_deps sample_remove_call (sample_state sample_members_db)))) = durable sample_members_db"
proof -
  let ?s = "serve sample_server_deps sample_remove_call (sample_state sample_members_db)"
  have "rp_Status (fst ?s) = 401" by code_simp
  with failed_request_changes_nothing [of sample_server_deps sample_remove_call "sample_state sample_members_db" "fst ?s" "snd ?s"]
  show ?thesis by (simp add: sample_state_def)
qed

text \<open>
  The routes are unambiguous, as \<open>http.ServeMux\<close> requires: a request that matches a registered
  pattern reaches the handler of that pattern.
\<close>

theorem routes_exact:
  "(pm, pattern, f) \<in> set patterns \<Longrightarrow> method_matches pm m \<Longrightarrow> match_path pattern path = Some vs \<Longrightarrow>
     route_in patterns m path = Some (f vs)"
  by (rule route_in_unique [OF patterns_apart])

end
