(* ===== verification/System.thy ===== *)
theory System
  imports Gateway Server
begin

text \<open>
  The running server: the HTTP interface and the realtime gateway on one database and one set of
  tickets.  The life of a connection is \<open>Session.Serve\<close> of \<open>internal/transport/ws/session.go\<close>,
  cut at the points where its goroutines, the hubs and the HTTP handlers can interleave: the
  handshake, the welcome, each turn of the read loop, each publication a handler makes, each turn
  of the write loop, each turn of a hub, and the end.  A run is a list of such turns, in any order
  and with any failures; the lemmas show what holds after every run.

  The reply to an intent is queued together with the effects of its handler, before the handler's
  publications are made, where the code queues it after them; a reply carries no event, so nothing
  that is shown depends on its place.  The \<open>written\<close> frames are those of the write loop; the
  welcome and the errors of the handshake are written past the outbox and are not among them.
\<close>

section \<open>Connections\<close>

text \<open>
  Where a connection is: it has joined its hub but not been welcomed; it serves, and the handler
  that runs has still to publish; its reader has stopped and its outbox is closed, but the writer
  may go on; or it has left.
\<close>

datatype phase = Welcoming Hello | Serving "Publication list" | Stopping | Ended

record System =
  sy_server :: ServerState
  sy_hubs :: Registry
  sy_phase :: "(ID \<times> phase) gomap"
  sy_written :: "(string \<times> Frame) list"

definition find_session :: "string \<Rightarrow> System \<Rightarrow> (ID \<times> phase \<times> World_Hub \<times> Session) option" where
  "find_session sid st =
     (case map_of (sy_phase st) sid of
        None \<Rightarrow> None
      | Some (wid, ph) \<Rightarrow>
          (case map_of (sy_hubs st) wid of
             None \<Rightarrow> None
           | Some h \<Rightarrow> map_option (\<lambda>s. (wid, ph, h, s)) (map_of (hb_store h) sid)))"

definition put_hub :: "ID \<Rightarrow> World_Hub \<Rightarrow> System \<Rightarrow> System" where
  "put_hub wid h st = st\<lparr>sy_hubs := map_put wid h (sy_hubs st)\<rparr>"

definition put_phase :: "string \<Rightarrow> ID \<Rightarrow> phase \<Rightarrow> System \<Rightarrow> System" where
  "put_phase sid wid ph st = st\<lparr>sy_phase := map_put sid (wid, ph) (sy_phase st)\<rparr>"

definition put_session :: "string \<Rightarrow> Session \<Rightarrow> World_Hub \<Rightarrow> World_Hub" where
  "put_session sid s h = h\<lparr>hb_store := map_put sid s (hb_store h)\<rparr>"

section \<open>The turns\<close>

definition http_turn :: "Deps \<Rightarrow> HttpCall \<Rightarrow> System \<Rightarrow> System" where
  "http_turn deps hc st = st\<lparr>sy_server := snd (serve deps hc (sy_server st))\<rparr>"

text \<open>The identifiers of sessions are counted, so a new connection has one of its own.\<close>

definition serve_connect :: "Conn \<Rightarrow> time \<Rightarrow> int \<Rightarrow> int \<Rightarrow> Frame res \<Rightarrow> string \<Rightarrow> System \<Rightarrow> System" where
  "serve_connect c now documentCap ephemeralCap frame sid st =
     (if map_of (sy_phase st) sid \<noteq> None then st
      else case authenticate c (sv_db (sy_server st)) now frame (NewSession sid documentCap ephemeralCap, sv_tickets (sy_server st)) of
        (r, s, tickets) \<Rightarrow>
          let st = st\<lparr>sy_server := (sy_server st)\<lparr>sv_tickets := tickets\<rparr>\<rparr>
          in case r of
               Inl _ \<Rightarrow> put_phase sid (ss_worldID s) Ended st
             | Inr hello \<Rightarrow>
                 (case registry_Hub (ss_worldID s) (sy_hubs st) of
                    (h, hubs) \<Rightarrow> put_phase sid (ss_worldID s) (Welcoming hello)
                      (put_hub (ss_worldID s) (hub_Join sid (put_session sid s h)) (st\<lparr>sy_hubs := hubs\<rparr>))))"

definition leave :: "string \<Rightarrow> ID \<Rightarrow> World_Hub \<Rightarrow> Session \<Rightarrow> System \<Rightarrow> System" where
  "leave sid wid h s st = put_phase sid wid Ended
     (put_hub wid (hub_Leave sid (put_session sid (s\<lparr>ss_outbox := outbox_Close (ss_outbox s)\<rparr>) h)) st)"

definition serve_welcome :: "Conn \<Rightarrow> FieldPolicy \<Rightarrow> (Frame \<Rightarrow> unit res) \<Rightarrow> string \<Rightarrow> System \<Rightarrow> System" where
  "serve_welcome c policy writeControlNow sid st =
     (case find_session sid st of
        Some (wid, Welcoming hello, h, s) \<Rightarrow>
          (case session_welcome c (sv_db (sy_server st)) policy writeControlNow hello s of
             (Inl _, s) \<Rightarrow> leave sid wid h s st
           | (Inr _, s) \<Rightarrow> put_phase sid wid (Serving []) (put_hub wid (put_session sid s h) st))
      | _ \<Rightarrow> st)"

definition serve_read :: "Router \<Rightarrow> Frame res \<Rightarrow> string \<Rightarrow> System \<Rightarrow> System" where
  "serve_read router frame sid st =
     (case find_session sid st of
        Some (wid, Serving [], h, s) \<Rightarrow>
          (case read_turn router frame (s, sv_db (sy_server st)) of
             (s, db, pubs) \<Rightarrow> put_phase sid wid (Serving pubs) (put_hub wid (put_session sid s h)
               (st\<lparr>sy_server := (sy_server st)\<lparr>sv_db := db\<rparr>\<rparr>)))
      | _ \<Rightarrow> st)"

text \<open>A publisher waits while the channel of its hub is full.\<close>

definition serve_publish :: "string \<Rightarrow> System \<Rightarrow> System" where
  "serve_publish sid st =
     (case find_session sid st of
        Some (wid, Serving (p # pubs), h, s) \<Rightarrow>
          (case hub_Publish p h of
             None \<Rightarrow> st
           | Some h \<Rightarrow> put_phase sid wid (Serving pubs) (put_hub wid h st))
      | _ \<Rightarrow> st)"

definition serve_write :: "(Frame \<Rightarrow> unit res) \<Rightarrow> bool \<Rightarrow> string \<Rightarrow> System \<Rightarrow> System" where
  "serve_write encode wrote sid st =
     (case find_session sid st of
        Some (wid, ph, h, s) \<Rightarrow>
          if (case ph of Serving _ \<Rightarrow> True | Stopping \<Rightarrow> True | _ \<Rightarrow> False)
          then (case write_turn encode wrote s of
              (r, s) \<Rightarrow> (put_hub wid (put_session sid s h) st)\<lparr>sy_written :=
                (case r of Sent f \<Rightarrow> sy_written st @ [(sid, f)] | _ \<Rightarrow> sy_written st)\<rparr>)
          else st
      | None \<Rightarrow> st)"

definition serve_stop :: "string \<Rightarrow> System \<Rightarrow> System" where
  "serve_stop sid st =
     (case find_session sid st of
        Some (wid, Serving [], h, s) \<Rightarrow>
          put_phase sid wid Stopping (put_hub wid (put_session sid (s\<lparr>ss_outbox := outbox_Close (ss_outbox s)\<rparr>) h) st)
      | _ \<Rightarrow> st)"

definition serve_leave :: "string \<Rightarrow> System \<Rightarrow> System" where
  "serve_leave sid st =
     (case find_session sid st of
        Some (wid, Stopping, h, s) \<Rightarrow> leave sid wid h s st
      | _ \<Rightarrow> st)"

definition hub_turn :: "ID \<Rightarrow> string list \<Rightarrow> System \<Rightarrow> System" where
  "hub_turn wid ids st =
     (case map_of (sy_hubs st) wid of
        None \<Rightarrow> st
      | Some h \<Rightarrow>
          if distinct ids \<and> set ids = set (map fst (hb_joined h))
          then (case hub_dispatch ids h of None \<Rightarrow> st | Some h \<Rightarrow> put_hub wid h st)
          else st)"

datatype 's turn =
    Http Deps HttpCall
  | Connect Conn time int int "Frame res" string
  | Greet Conn FieldPolicy "Frame \<Rightarrow> unit res" string
  | Read "'s Supplies" "Frame res" string
  | Publish string
  | Write "Frame \<Rightarrow> unit res" bool string
  | Stop string
  | Leave string
  | Hub ID "string list"

fun take_turn :: "'s turn \<Rightarrow> System \<Rightarrow> System" where
  "take_turn (Http deps hc) st = http_turn deps hc st"
| "take_turn (Connect c now dc ec frame sid) st = serve_connect c now dc ec frame sid st"
| "take_turn (Greet c policy writeControlNow sid) st = serve_welcome c policy writeControlNow sid st"
| "take_turn (Read sp frame sid) st = serve_read (NewGateway sp) frame sid st"
| "take_turn (Publish sid) st = serve_publish sid st"
| "take_turn (Write encode wrote sid) st = serve_write encode wrote sid st"
| "take_turn (Stop sid) st = serve_stop sid st"
| "take_turn (Leave sid) st = serve_leave sid st"
| "take_turn (Hub wid ids) st = hub_turn wid ids st"

definition run_system :: "'s turn list \<Rightarrow> System \<Rightarrow> System" where
  "run_system turns st = fold take_turn turns st"

definition booted :: "ServerState \<Rightarrow> System" where
  "booted server = \<lparr>sy_server = server, sy_hubs = NewRegistry, sy_phase = [], sy_written = []\<rparr>"

definition written_to :: "string \<Rightarrow> System \<Rightarrow> Frame list" where
  "written_to sid st = map snd (filter (\<lambda>(i, _). i = sid) (sy_written st))"

section \<open>Frames of one world\<close>

text \<open>A frame is of a world when the event it carries, if any, is one of that world.\<close>

definition frame_in :: "ID \<Rightarrow> Frame \<Rightarrow> bool" where
  "frame_in wid f \<longleftrightarrow> (fr_Type f = TypeEvent \<longrightarrow> (case fr_Event f of None \<Rightarrow> True | Some e \<Rightarrow> ev_WorldID e = wid))"

definition outbox_in :: "ID \<Rightarrow> outbox \<Rightarrow> bool" where
  "outbox_in wid ob \<longleftrightarrow> list_all (frame_in wid) (o_control ob) \<and> list_all (frame_in wid) (o_document ob) \<and>
     (\<forall>(key, f) \<in> set (o_ephemeral ob). frame_in wid f)"

definition publication_in :: "ID \<Rightarrow> Publication \<Rightarrow> bool" where
  "publication_in wid p \<longleftrightarrow> frame_in wid (pb_Frame p) \<and>
     (case pb_PerUser p of None \<Rightarrow> True | Some frames \<Rightarrow> \<forall>f \<in> snd ` set frames. frame_in wid f)"

definition session_in :: "ID \<Rightarrow> Session \<Rightarrow> bool" where
  "session_in wid s \<longleftrightarrow> ss_worldID s = wid \<and> outbox_in wid (ss_outbox s)"

lemma frame_in_other: "fr_Type f \<noteq> TypeEvent \<Longrightarrow> frame_in wid f"
  by (simp add: frame_in_def)

lemma frame_in_event [simp]: "frame_in wid (event_frame seq kind wid' sid payload) \<longleftrightarrow> wid' = wid"
  by (simp add: frame_in_def event_frame_def empty_frame_def)

lemmas type_defs = TypeEvent_def TypeError_def TypePong_def TypeAck_def TypeResync_def TypeEphemeral_def

lemma frame_in_replies [simp]:
  "frame_in wid (errorFrame n code key)" "frame_in wid (intent_reply intent s outcome)" "frame_in wid (empty_frame 0 [])"
  by (auto simp: frame_in_def errorFrame_def intent_reply_def empty_frame_def type_defs split: sum.splits go_error.splits)

lemma frame_in_ephemeral [simp]: "frame_in wid ((empty_frame lane TypeEphemeral)\<lparr>fr_Ephemeral := e\<rparr>)"
  by (simp add: frame_in_def empty_frame_def type_defs)

lemma outbox_in_push:
  assumes "outbox_in wid ob" and "frame_in wid f"
  shows "outbox_in wid (snd (PushControl f ob))" "outbox_in wid (snd (PushDocument f ob))" "outbox_in wid (snd (PushEphemeral key f ob))"
proof -
  show "outbox_in wid (snd (PushControl f ob))" "outbox_in wid (snd (PushDocument f ob))"
    using assms by (auto simp: outbox_in_def PushControl_def PushDocument_def wake_def)
  have "outbox_in wid (evict ob)" using assms(1) by (auto simp: outbox_in_def evict_def map_del_def)
  moreover have "outbox_in wid (ob'\<lparr>o_ephemeral := map_put key f (o_ephemeral ob')\<rparr>)" if "outbox_in wid ob'" for ob'
    using that assms(2) set_map_put_subset [of key f "o_ephemeral ob'"] by (fastforce simp: outbox_in_def)
  ultimately show "outbox_in wid (snd (PushEphemeral key f ob))"
    using assms(1) by (auto simp: PushEphemeral_def Let_def outbox_in_def wake_def)
qed

lemma outbox_in_others:
  "outbox_in wid ob \<Longrightarrow> outbox_in wid (outbox_Close ob)"
  "outbox_in wid ob \<Longrightarrow> \<forall>f \<in> set fs. frame_in wid f \<Longrightarrow> outbox_in wid (snd (PrependDocument fs ob))"
  "outbox_in wid (newOutbox d e)"
  by (auto simp: outbox_in_def outbox_Close_def PrependDocument_def newOutbox_def Let_def wake_def list_all_iff)

lemma outbox_in_pop:
  assumes "Pop ob = (r, ob')" and "outbox_in wid ob"
  shows "outbox_in wid ob'" "r = Some f \<Longrightarrow> frame_in wid f"
  using assms by (auto simp: Pop_def outbox_in_def map_del_def split: list.splits option.splits dest!: map_of_SomeD)

lemma session_in_push:
  assumes "session_in wid s" and "frame_in wid f"
  shows "session_in wid (push_control f s)" "session_in wid (push_document f s)" "session_in wid (snd (deliver p f s))"
  using assms by (simp_all add: session_in_def push_control_def push_document_def deliver_def outbox_in_push)

lemma session_in_close: "session_in wid s \<Longrightarrow> session_in wid (CloseWithResync reason n s)"
  by (simp add: session_in_def CloseWithResync_def outbox_in_push outbox_in_others frame_in_def empty_frame_def type_defs)

lemma session_in_fan:
  assumes "publication_in wid p" and "session_in wid s"
  shows "session_in wid (after_fan p sid s)"
proof (cases "frame_for p sid s")
  case (Some f)
  then have "frame_in wid f" using assms(1) by (fastforce simp: frame_for_Some publication_in_def split: option.splits dest: map_of_SomeD)
  then show ?thesis using Some assms(2) by (simp add: after_fan_def Let_def session_in_push session_in_close)
qed (use assms in \<open>simp add: after_fan_def\<close>)

lemma session_in_write:
  assumes "write_turn encode wrote s = (r, s')" and "session_in wid s"
  shows "session_in wid s'" "r = Sent f \<Longrightarrow> frame_in wid f"
proof -
  obtain popped ob where pop: "Pop (ss_outbox s) = (popped, ob)" by fastforce
  note outbox_in_pop [OF pop, of wid]
  then show "session_in wid s'" "r = Sent f \<Longrightarrow> frame_in wid f" using assms pop
    by (auto simp: write_turn_def on_outbox_def session_in_def Let_def split: option.splits if_splits sum.splits)
qed

lemma session_in_welcome:
  assumes "session_welcome c db policy writeControlNow hello s = (r, s')" and "session_in wid s"
  shows "session_in wid s'"
proof -
  have "frame_in (ss_worldID s) f" if replay: "replayFrames c db policy t n = Inr fs" "f \<in> set fs" "ss_worldID t = ss_worldID s" for t n fs f
  proof -
    obtain events where ev: "EventsSince (c\<lparr>c_writable := False\<rparr>) db (ss_worldID s) n catchUpLimit = Inr events"
      "collect_res (replay_event (c\<lparr>c_writable := False\<rparr>) db policy t) events = Inr fs"
      using replay by (auto simp: replayFrames_def store_ReadOnly_def res_simps)
    then obtain e where e: "e \<in> set events" "replay_event (c\<lparr>c_writable := False\<rparr>) db policy t e = Inr (Some f)"
      using collect_res_set [OF ev(2)] replay(2) by blast
    have "e_WorldID e = ss_worldID s" using ev(1) e(1) by (auto simp: EventsSince_def stmt_def Let_def split: if_splits dest!: in_set_takeD)
    with e(2) show ?thesis by (auto simp: replay_event_def res_simps split: if_splits)
  qed
  then have prepend: "session_in wid t" if "replayFrames c db policy (s\<lparr>ss_lastSeq := n\<rparr>) n = Inr fs"
      "on_outbox (PrependDocument fs) (s\<lparr>ss_lastSeq := n\<rparr>) = (q, t)" for n fs q t
    using that assms(2) outbox_in_others(2) [of wid "ss_outbox s" fs]
    by (auto simp: on_outbox_def session_in_def split: prod.splits)
  show ?thesis
  proof (cases "currentWorld c db s")
    case (Inr world)
    define n where "n = (if h_LastSeq hello < 0 \<or> h_LastSeq hello > w_EventSeq world then 0 else h_LastSeq hello)"
    show ?thesis using assms Inr prepend [of n]
      by (auto simp: session_welcome_def Let_def n_def [symmetric] session_in_def split: sum.splits)
  qed (use assms in \<open>auto simp: session_welcome_def\<close>)
qed

section \<open>What the handlers publish\<close>

definition publishes_in_world :: "handler \<Rightarrow> bool" where
  "publishes_in_world h \<longleftrightarrow> (\<forall>s intent db. list_all (publication_in (ss_worldID s)) (snd (snd (h s intent db))))"

lemma world_publication_in [simp]:
  "frame_in (ss_worldID s) f \<Longrightarrow> publication_in (ss_worldID s) ((world_publication s)\<lparr>pb_Frame := f\<rparr>)"
  "frame_in (ss_worldID s) f \<Longrightarrow> publication_in (ss_worldID s) ((world_publication s)\<lparr>pb_Audience := users, pb_Frame := f\<rparr>)"
  "\<forall>(u, f) \<in> set frames. frame_in (ss_worldID s) f \<Longrightarrow> publication_in (ss_worldID s) ((world_publication s)\<lparr>pb_PerUser := Some frames\<rparr>)"
  by (auto simp: publication_in_def world_publication_def zero_publication_def)

lemma collected_frames_in:
  assumes "collect_res f xs = Inr frames" and "\<And>x u g. f x = Inr (Some (u, g)) \<Longrightarrow> frame_in wid g"
  shows "\<forall>(u, g) \<in> set (map_from frames). frame_in wid g"
  using collect_res_set [OF assms(1)] assms(2) set_map_from [of frames] by blast

lemma applyPatch_in: "list_all (publication_in (ss_worldID s)) (snd (snd (applyPatch c policy s did patch kind payload db)))"
proof -
  have "\<forall>(u, g) \<in> set (map_from frames). frame_in (ss_worldID s) g" if "collect_res (user_frame s kind seq) views = Inr frames" for seq views frames
    by (rule collected_frames_in [OF that]) (auto simp: user_frame_def res_simps)
  then show ?thesis by (auto simp: applyPatch_def Let_def split: prod.split sum.split option.split)
qed

lemma publishMessage_in: "list_all (publication_in (ss_worldID s)) (snd (snd (publishMessage c id_random stamp s message db)))"
  by (auto simp: publishMessage_def Let_def split: prod.split sum.split)

lemma finishCombat_in: "list_all (publication_in (ss_worldID s)) (snd (snd (finishCombat s outcome)))"
  by (auto simp: finishCombat_def Let_def split: prod.split sum.split)

lemma visibility_in:
  assumes "visibilityFrames c db policy s sceneID seq = Inr frames"
  shows "\<forall>(u, g) \<in> set frames. frame_in (ss_worldID s) g"
proof -
  obtain tokens members collected where f: "collect_res (visibility_frame c db policy s sceneID seq tokens) members = Inr collected"
      "frames = map_from collected"
    using assms by (auto simp: visibilityFrames_def res_simps)
  show ?thesis unfolding f(2)
    by (rule collected_frames_in [OF f(1)]) (auto simp: visibility_frame_def Let_def res_simps split: if_splits)
qed

lemma door_in: "publishes_in_world (handleDoorToggle parse c policy)"
proof -
  have "\<forall>(u, g) \<in> set frames. frame_in (ss_worldID s) g"
    if "store_Tx c (door_tx parse policy s wallID) db = (Inr (state, frames), db')" for s wallID db state frames db'
    using that by (auto simp: store_Tx_ok elim!: door_tx_Inr dest!: visibility_in)
  then show ?thesis
    by (auto simp: publishes_in_world_def handleDoorToggle_def Let_def split: prod.split sum.split)
qed

lemma handlers_in:
  "publishes_in_world (handleDocumentPatch c policy)" "publishes_in_world (handleTokenMove c policy)"
  "publishes_in_world (handleChatPost c id_random stamp)" "publishes_in_world (handleChatRoll ulower roll source c id_random stamp)"
  "publishes_in_world (handleCombatNext c)" "publishes_in_world (handleCombatEnd c)"
  "publishes_in_world (handleCombatStart ulower roll source c)" "publishes_in_world (handleSceneActivate c)"
  by (auto simp: publishes_in_world_def handleDocumentPatch_def handleTokenMove_def handleChatPost_def handleChatRoll_def
      handleCombatNext_def handleCombatEnd_def handleCombatStart_def handleSceneActivate_def Let_def
      applyPatch_in publishMessage_in finishCombat_in split: option.split sum.split prod.split)

text \<open>What a connection needs of the handlers: they keep the store, and publish only in their world.\<close>

locale world_router = store_keeping_router +
  assumes publish: "map_of router kind = Some h \<Longrightarrow> publishes_in_world h"
begin

lemma handler_in: "map_of router kind = Some h \<Longrightarrow> h s intent db = (r, db', pubs) \<Longrightarrow> list_all (publication_in (ss_worldID s)) pubs"
  using publish unfolding publishes_in_world_def by (metis snd_conv)

lemma read_turn_in:
  assumes "read_turn router frame (s, db) = (s', db', pubs)" and "session_in wid s"
  shows "session_in wid s'" "list_all (publication_in wid) pubs" "ss_lastSeq s' = ss_lastSeq s"
proof -
  have w: "ss_worldID s = wid" using assms(2) by (simp add: session_in_def)
  have pong: "session_in wid (handlePing f s)" for f
    unfolding handlePing_def by (rule session_in_push(1) [OF assms(2)]) (simp add: frame_in_def empty_frame_def type_defs)
  have eph: "session_in wid t \<and> list_all (publication_in wid) ps \<and> ss_lastSeq t = ss_lastSeq s"
    if "handleEphemeral f s = (t, ps)" for f t ps
    using that assms(2) by (auto simp: handleEphemeral_def session_in_push publication_in_def zero_publication_def
        split: option.splits if_splits)
  have ping: "ss_lastSeq (handlePing f s) = ss_lastSeq s" for f by (simp add: handlePing_def)
  have intent: "session_in wid t \<and> list_all (publication_in wid) ps \<and> ss_lastSeq t = ss_lastSeq s"
    if "handleIntent router f (s, db) = (t, db2, ps)" for f t db2 ps
    using that assms(2) w by (auto simp: handleIntent_def session_in_push dest: handler_in split: option.splits prod.splits)
  have "session_in wid s' \<and> list_all (publication_in wid) pubs \<and> ss_lastSeq s' = ss_lastSeq s"
  proof (cases frame)
    case (Inr f)
    consider "fr_Type f = TypePing" | "fr_Type f \<noteq> TypePing" "fr_Type f = TypeIntent"
      | "fr_Type f \<noteq> TypePing" "fr_Type f \<noteq> TypeIntent" "fr_Type f = TypeEphemeral"
      | "fr_Type f \<noteq> TypePing" "fr_Type f \<noteq> TypeIntent" "fr_Type f \<noteq> TypeEphemeral" by blast
    then show ?thesis
    proof cases
      case 1
      then show ?thesis using assms(1) Inr pong ping by (auto simp: read_turn_def)
    next
      case 2
      then show ?thesis using assms(1) Inr intent by (simp add: read_turn_def)
    next
      case 3
      obtain t ps where "handleEphemeral f s = (t, ps)" by fastforce
      then show ?thesis using 3 assms(1) Inr eph by (auto simp: read_turn_def)
    next
      case 4
      then show ?thesis using assms Inr by (auto simp: read_turn_def session_in_push)
    qed
  qed (use assms in \<open>auto simp: read_turn_def session_in_push\<close>)
  then show "session_in wid s'" "list_all (publication_in wid) pubs" "ss_lastSeq s' = ss_lastSeq s" by auto
qed

end

interpretation gateway: world_router "NewGateway sp" for sp :: "('s, 'm) Supplies_scheme"
proof
  fix kind h
  assume "map_of (NewGateway sp) kind = Some h"
  then show "publishes_in_world h"
    by (auto simp: NewGateway_def RegisterCoreIntents_def RegisterChatIntents_def RegisterCombatIntents_def
        RegisterDoorIntents_def handlers_in door_in split: if_splits)
qed

section \<open>The invariant of the system\<close>

definition hub_in :: "System \<Rightarrow> ID \<Rightarrow> World_Hub \<Rightarrow> bool" where
  "hub_in st wid h \<longleftrightarrow> list_all (publication_in wid) (hb_queue h) \<and> \<not> hb_done h \<and>
     (\<forall>sid. joined h sid \<longrightarrow> (\<exists>ph. map_of (sy_phase st) sid = Some (wid, ph) \<and> ph \<noteq> Ended)) \<and>
     (\<forall>sid s. map_of (hb_store h) sid = Some s \<longrightarrow> session_in wid s \<and> (\<exists>ph. map_of (sy_phase st) sid = Some (wid, ph)) \<and>
        (\<forall>n \<in> set (seqs (written_to sid st)). n \<le> ss_lastSeq s))"

definition phase_in :: "System \<Rightarrow> string \<Rightarrow> ID \<Rightarrow> phase \<Rightarrow> bool" where
  "phase_in st sid wid ph \<longleftrightarrow> list_all (frame_in wid) (written_to sid st) \<and>
     (case ph of Welcoming _ \<Rightarrow> written_to sid st = [] | Serving pubs \<Rightarrow> list_all (publication_in wid) pubs | _ \<Rightarrow> True)"

definition system_ok :: "System \<Rightarrow> bool" where
  "system_ok st \<longleftrightarrow> db_ok (sv_db (sy_server st)) \<and>
     (\<forall>wid h. map_of (sy_hubs st) wid = Some h \<longrightarrow> hub_in st wid h) \<and>
     (\<forall>sid wid ph. map_of (sy_phase st) sid = Some (wid, ph) \<longrightarrow> phase_in st sid wid ph) \<and>
     (\<forall>sid. sorted_wrt (<) (seqs (written_to sid st)) \<and> (map_of (sy_phase st) sid = None \<longrightarrow> written_to sid st = []))"

text \<open>The one frame rule of all turns: only the session \<open>sid\<close> of the world \<open>wid\<close> changes.\<close>

lemma system_ok_update:
  assumes ok: "system_ok st" and db: "db_ok (sv_db (sy_server st'))"
    and phase: "map_of (sy_phase st') = (map_of (sy_phase st))(sid \<mapsto> (wid, ph))"
    and hubs: "map_of (sy_hubs st') = (map_of (sy_hubs st))(wid \<mapsto> h')"
    and world: "\<And>w0 p0. map_of (sy_phase st) sid = Some (w0, p0) \<Longrightarrow> w0 = wid"
    and written: "\<And>i. i \<noteq> sid \<Longrightarrow> written_to i st' = written_to i st"
    and queue: "list_all (publication_in wid) (hb_queue h')" and opened: "\<not> hb_done h'"
    and members: "\<And>i. i \<noteq> sid \<Longrightarrow> joined h' i \<Longrightarrow> \<exists>h. map_of (sy_hubs st) wid = Some h \<and> joined h i"
    and left: "joined h' sid \<Longrightarrow> ph \<noteq> Ended"
    and store: "\<And>i s. i \<noteq> sid \<Longrightarrow> map_of (hb_store h') i = Some s \<Longrightarrow>
      \<exists>h. map_of (sy_hubs st) wid = Some h \<and> map_of (hb_store h) i = Some s"
    and own: "\<And>s. map_of (hb_store h') sid = Some s \<Longrightarrow> session_in wid s \<and> (\<forall>n \<in> set (seqs (written_to sid st')). n \<le> ss_lastSeq s)"
    and "phase_in st' sid wid ph" and "sorted_wrt (<) (seqs (written_to sid st'))"
  shows "system_ok st'"
proof -
  have hub: "hub_in st w h" if "map_of (sy_hubs st) w = Some h" for w h using ok that by (simp add: system_ok_def)
  have own_hub: "hub_in st' wid h'" unfolding hub_in_def
  proof (intro conjI allI impI)
    fix i assume "joined h' i" 
    then show "\<exists>ph. map_of (sy_phase st') i = Some (wid, ph) \<and> ph \<noteq> Ended"
      using members [of i] left hub phase by (cases "i = sid") (auto simp: hub_in_def)
  next
    fix i s assume s: "map_of (hb_store h') i = Some s"
    show "session_in wid s" using own store [of i] hub s by (cases "i = sid") (auto simp: hub_in_def)
    show "\<exists>ph. map_of (sy_phase st') i = Some (wid, ph)" using store [of i] hub s phase by (cases "i = sid") (auto simp: hub_in_def)
    show "\<forall>n\<in>set (seqs (written_to i st')). n \<le> ss_lastSeq s"
      using own store [of i] hub s written by (cases "i = sid") (auto simp: hub_in_def)
  qed (rule queue opened)+
  have other_hub: "hub_in st' w h" if w: "w \<noteq> wid" and h: "map_of (sy_hubs st) w = Some h" for w h
  proof -
    have "map_of (sy_phase st) sid \<noteq> Some (w, p)" for p using world w by blast
    then have "\<not> joined h sid" "map_of (hb_store h) sid = None"
      using hub [OF h] unfolding hub_in_def by (blast, metis not_Some_eq)
    then show ?thesis using hub [OF h] phase written unfolding hub_in_def by (metis fun_upd_apply option.distinct(1))
  qed
  have "phase_in st' i w p" if "map_of (sy_phase st') i = Some (w, p)" for i w p
  proof (cases "i = sid")
    case False
    then have "phase_in st i w p" using ok that phase by (auto simp: system_ok_def)
    then show ?thesis using written [OF False] by (cases p) (simp_all add: phase_in_def)
  qed (use that phase assms(13) in auto)
  moreover have "sorted_wrt (<) (seqs (written_to i st')) \<and> (map_of (sy_phase st') i = None \<longrightarrow> written_to i st' = [])" for i
    using ok written [of i] assms(14) phase by (cases "i = sid") (auto simp: system_ok_def)
  ultimately show ?thesis using db own_hub other_hub hubs by (auto simp: system_ok_def)
qed

section \<open>Every turn keeps the invariant\<close>

lemma find_session_Some:
  "find_session sid st = Some (wid, ph, h, s) \<longleftrightarrow>
     map_of (sy_phase st) sid = Some (wid, ph) \<and> map_of (sy_hubs st) wid = Some h \<and> map_of (hb_store h) sid = Some s"
  by (auto simp: find_session_def split: option.splits)

lemma put_simps [simp]:
  "sy_server (put_phase sid wid ph st) = sy_server st" "sy_hubs (put_phase sid wid ph st) = sy_hubs st"
  "sy_server (put_hub wid h st) = sy_server st" "sy_phase (put_hub wid h st) = sy_phase st"
  "map_of (sy_phase (put_phase sid wid ph st)) = (map_of (sy_phase st))(sid \<mapsto> (wid, ph))"
  "map_of (sy_hubs (put_hub wid h st)) = (map_of (sy_hubs st))(wid \<mapsto> h)"
  "hb_queue (put_session sid s h) = hb_queue h" "hb_joined (put_session sid s h) = hb_joined h" "hb_done (put_session sid s h) = hb_done h"
  "map_of (hb_store (put_session sid s h)) = (map_of (hb_store h))(sid \<mapsto> s)"
  by (auto simp: put_phase_def put_hub_def put_session_def)

lemma written_simps [simp]:
  "written_to i (put_phase sid wid ph st) = written_to i st" "written_to i (put_hub wid h st) = written_to i st"
  "written_to i (st\<lparr>sy_server := server\<rparr>) = written_to i st" "written_to i (st\<lparr>sy_hubs := hubs\<rparr>) = written_to i st"
  "written_to i (st\<lparr>sy_written := frames\<rparr>) = map snd (filter (\<lambda>(j, _). j = i) frames)"
  by (simp_all add: written_to_def put_phase_def put_hub_def)

lemma joined_simps [simp]:
  "joined (put_session sid s h) i = joined h i" "joined (hub_Leave sid h) i \<longleftrightarrow> joined h i \<and> (i \<noteq> sid \<or> hb_done h)"
  "joined (hub_Join sid h) i \<longleftrightarrow> joined h i \<or> i = sid \<and> \<not> hb_done h"
  "hb_queue (hub_Leave sid h) = hb_queue h" "hb_queue (hub_Join sid h) = hb_queue h"
  "hb_store (hub_Leave sid h) = hb_store h" "hb_store (hub_Join sid h) = hb_store h"
  "hb_done (hub_Leave sid h) = hb_done h" "hb_done (hub_Join sid h) = hb_done h"
  by (auto simp: joined_def hub_Leave_def hub_Join_def)

lemma system_session:
  assumes "system_ok st" and "find_session sid st = Some (wid, ph, h, s)"
  shows "session_in wid s" "phase_in st sid wid ph" "list_all (publication_in wid) (hb_queue h)"
    and "\<forall>n \<in> set (seqs (written_to sid st)). n \<le> ss_lastSeq s" and "sorted_wrt (<) (seqs (written_to sid st))"
    and "joined h i \<Longrightarrow> \<exists>p. map_of (sy_phase st) i = Some (wid, p) \<and> p \<noteq> Ended" and "\<not> hb_done h"
  using assms by (auto simp: system_ok_def find_session_Some hub_in_def)

lemma session_update:
  assumes ok: "system_ok st" and found: "find_session sid st = Some (wid, ph0, h, s0)" and db: "db_ok (sv_db server)"
    and own: "session_in wid s" "\<forall>n \<in> set (seqs (written_to sid st)). n \<le> ss_lastSeq s"
    and phase: "phase_in st sid wid ph"
    and hub: "map_of (hb_store h') = (map_of (hb_store h))(sid \<mapsto> s)" "list_all (publication_in wid) (hb_queue h')" "hb_done h' = hb_done h"
      "\<And>i. joined h' i \<Longrightarrow> joined h i" "joined h' sid \<Longrightarrow> ph \<noteq> Ended"
  shows "system_ok (put_phase sid wid ph (put_hub wid h' (st\<lparr>sy_server := server\<rparr>)))"
proof (rule system_ok_update [OF ok, where sid = sid and wid = wid and ph = ph and h' = h'])
  show "phase_in (put_phase sid wid ph (put_hub wid h' (st\<lparr>sy_server := server\<rparr>))) sid wid ph"
    using phase by (cases ph) (simp_all add: phase_in_def)
qed (use system_session [OF ok found] found db own hub in \<open>auto simp: find_session_Some\<close>)

lemmas session_update_here = session_update [where server = "sy_server st" and st = st for st, simplified]

lemma leave_ok:
  assumes "system_ok st" and "find_session sid st = Some (wid, ph, h, s0)" and "session_in wid s"
    and "\<forall>n \<in> set (seqs (written_to sid st)). n \<le> ss_lastSeq s"
  shows "system_ok (leave sid wid h s st)"
  unfolding leave_def
  by (rule session_update_here [OF assms(1,2)])
    (use assms system_session [OF assms(1,2)] in
      \<open>auto simp: session_in_def outbox_in_others phase_in_def system_ok_def\<close>)

lemma http_turn_ok: "system_ok st \<Longrightarrow> system_ok (http_turn deps hc st)"
  using serve_keeps [of deps hc "sy_server st" "fst (serve deps hc (sy_server st))" "snd (serve deps hc (sy_server st))"]
  by (auto simp: system_ok_def http_turn_def keeps_def hub_in_def phase_in_def cong: phase.case_cong)

lemma serve_read_ok:
  assumes "system_ok st"
  shows "system_ok (serve_read (NewGateway sp) frame sid st)"
proof (cases "find_session sid st")
  case (Some found)
  obtain wid ph h s where f: "found = (wid, ph, h, s)" by (cases found)
  show ?thesis
  proof (cases "ph = Serving []")
    case True
    obtain s' db pubs where r: "read_turn (NewGateway sp) frame (s, sv_db (sy_server st)) = (s', db, pubs)" by (metis prod_cases3)
    have found: "find_session sid st = Some (wid, Serving [], h, s)" using Some f True by simp
    note here = system_session [OF assms found]
    note turn = gateway.read_turn_in [OF r here(1)]
    have "db_ok db" using gateway.read_turn_keeps [OF _ r] assms by (simp add: system_ok_def)
    then have "system_ok (put_phase sid wid (Serving pubs) (put_hub wid (put_session sid s' h)
        (st\<lparr>sy_server := (sy_server st)\<lparr>sv_db := db\<rparr>\<rparr>)))"
      by (intro session_update [OF assms found]) (use turn here in \<open>auto simp: phase_in_def\<close>)
    then show ?thesis by (simp add: serve_read_def found r)
  next
    case False
    then have "serve_read (NewGateway sp) frame sid st = st" using Some f
      by (auto simp: serve_read_def split: phase.splits list.splits)
    then show ?thesis using assms by simp
  qed
qed (use assms in \<open>simp add: serve_read_def\<close>)

lemma serve_welcome_ok:
  assumes "system_ok st"
  shows "system_ok (serve_welcome c policy writeControlNow sid st)"
proof (cases "\<exists>wid hello h s. find_session sid st = Some (wid, Welcoming hello, h, s)")
  case True
  then obtain wid hello h s where found: "find_session sid st = Some (wid, Welcoming hello, h, s)" by blast
  obtain r s' where w: "session_welcome c (sv_db (sy_server st)) policy writeControlNow hello s = (r, s')" by fastforce
  note here = system_session [OF assms found]
  have s': "session_in wid s'" by (rule session_in_welcome [OF w here(1)])
  have silent: "written_to sid st = []" using here(2) by (simp add: phase_in_def)
  show ?thesis
  proof (cases r)
    case (Inl e)
    then show ?thesis using leave_ok [OF assms found s'] silent by (simp add: serve_welcome_def found w)
  next
    case (Inr u)
    have "system_ok (put_phase sid wid (Serving []) (put_hub wid (put_session sid s' h) st))"
      by (intro session_update_here [OF assms found]) (use s' silent here assms in \<open>auto simp: phase_in_def system_ok_def\<close>)
    then show ?thesis using Inr by (simp add: serve_welcome_def found w)
  qed
next
  case False
  then have "serve_welcome c policy writeControlNow sid st = st"
    by (auto simp: serve_welcome_def split: option.splits phase.splits)
  then show ?thesis using assms by simp
qed

lemma serve_publish_ok:
  assumes "system_ok st"
  shows "system_ok (serve_publish sid st)"
proof (cases "\<exists>wid p pubs h s. find_session sid st = Some (wid, Serving (p # pubs), h, s)")
  case True
  then obtain wid p pubs h s where found: "find_session sid st = Some (wid, Serving (p # pubs), h, s)" by blast
  note here = system_session [OF assms found]
  have p: "publication_in wid p" "list_all (publication_in wid) pubs" using here(2) by (auto simp: phase_in_def)
  have "system_ok (put_phase sid wid (Serving pubs) (put_hub wid h' st))" if "hub_Publish p h = Some h'" for h'
  proof (intro session_update_here [OF assms found])
    have h': "h' = h\<lparr>hb_queue := hb_queue h @ [p]\<rparr>" using that here(7) by (auto simp: hub_Publish_def split: if_splits)
    show "map_of (hb_store h') = (map_of (hb_store h))(sid \<mapsto> s)" using h' found by (auto simp: find_session_Some)
    show "list_all (publication_in wid) (hb_queue h')" "hb_done h' = hb_done h" using h' p(1) here(3) by auto
    show "joined h i" if "joined h' i" for i using that h' by (simp add: joined_def)
    show "phase_in st sid wid (Serving pubs)" using here(2) p(2) by (simp add: phase_in_def)
  qed (use here assms in \<open>auto simp: system_ok_def\<close>)
  then show ?thesis using assms by (auto simp: serve_publish_def found split: option.split)
next
  case False
  then have "serve_publish sid st = st" by (auto simp: serve_publish_def split: option.splits phase.splits list.splits)
  then show ?thesis using assms by simp
qed

lemma serve_stop_ok:
  assumes "system_ok st"
  shows "system_ok (serve_stop sid st)"
proof (cases "\<exists>wid h s. find_session sid st = Some (wid, Serving [], h, s)")
  case True
  then obtain wid h s where found: "find_session sid st = Some (wid, Serving [], h, s)" by blast
  note here = system_session [OF assms found]
  have "system_ok (put_phase sid wid Stopping (put_hub wid (put_session sid (s\<lparr>ss_outbox := outbox_Close (ss_outbox s)\<rparr>) h) st))"
    by (intro session_update_here [OF assms found])
      (use here assms in \<open>auto simp: session_in_def outbox_in_others phase_in_def system_ok_def\<close>)
  then show ?thesis by (simp add: serve_stop_def found)
next
  case False
  then have "serve_stop sid st = st" by (auto simp: serve_stop_def split: option.splits phase.splits list.splits)
  then show ?thesis using assms by simp
qed

lemma serve_leave_ok:
  assumes "system_ok st"
  shows "system_ok (serve_leave sid st)"
proof (cases "\<exists>wid h s. find_session sid st = Some (wid, Stopping, h, s)")
  case True
  then obtain wid h s where found: "find_session sid st = Some (wid, Stopping, h, s)" by blast
  then show ?thesis using leave_ok [OF assms found] system_session [OF assms found] by (simp add: serve_leave_def)
next
  case False
  then have "serve_leave sid st = st" by (auto simp: serve_leave_def split: option.splits phase.splits)
  then show ?thesis using assms by simp
qed

lemma serve_write_ok:
  assumes "system_ok st"
  shows "system_ok (serve_write encode wrote sid st)"
proof (cases "find_session sid st")
  case (Some found)
  obtain wid ph h s where f: "found = (wid, ph, h, s)" by (cases found)
  with Some have found: "find_session sid st = Some (wid, ph, h, s)" by simp
  note here = system_session [OF assms found]
  show ?thesis
  proof (cases "case ph of Serving _ \<Rightarrow> True | Stopping \<Rightarrow> True | _ \<Rightarrow> False")
    case True
    obtain r s' where w: "write_turn encode wrote s = (r, s')" by fastforce
    note seq = write_turn_seq [OF w] and inw = session_in_write [OF w here(1)]
    define st' where "st' = (put_hub wid (put_session sid s' h) st)\<lparr>sy_written :=
      (case r of Sent f \<Rightarrow> sy_written st @ [(sid, f)] | _ \<Rightarrow> sy_written st)\<rparr>"
    have own: "written_to sid st' = written_to sid st @ (case r of Sent f \<Rightarrow> [f] | _ \<Rightarrow> [])"
      by (cases r) (simp_all add: st'_def written_to_def)
    have "sorted_wrt (<) (seqs (written_to sid st')) \<and> (\<forall>n \<in> set (seqs (written_to sid st')). n \<le> ss_lastSeq s')"
      using seq here(4,5) unfolding own by (cases r) (force simp: sorted_wrt_append split: option.splits)+
    moreover have "phase_in st' sid wid ph"
      using here(2) inw(2) True own by (cases r; cases ph) (simp_all add: phase_in_def)
    moreover have "written_to i st' = written_to i st" if "i \<noteq> sid" for i
      using that by (cases r) (simp_all add: st'_def written_to_def)
    ultimately have "system_ok st'"
      by (intro system_ok_update [OF assms, where sid = sid and wid = wid and ph = ph and h' = "put_session sid s' h"])
        (use found here inw(1) assms True in \<open>auto simp: st'_def find_session_Some system_ok_def\<close>)
    then show ?thesis using True by (simp add: serve_write_def found w st'_def)
  qed (use assms found in \<open>simp add: serve_write_def\<close>)
qed (use assms in \<open>simp add: serve_write_def\<close>)

lemma hub_turn_ok:
  assumes "system_ok st"
  shows "system_ok (hub_turn wid ids st)"
proof -
  have "system_ok (put_hub wid h' st)"
    if turn: "map_of (sy_hubs st) wid = Some h" "distinct ids" "hub_dispatch ids h = Some h'" for h h'
  proof -
    have h: "hub_in st wid h" using assms turn(1) by (simp add: system_ok_def)
    obtain p rest where q: "hb_queue h = p # rest" "h' = fanOut ids p (h\<lparr>hb_queue := rest\<rparr>)"
      using turn(3) by (auto simp: hub_dispatch_def split: if_splits list.splits)
    have p: "publication_in wid p" "list_all (publication_in wid) rest" using h q(1) by (auto simp: hub_in_def)
    have "hub_in (put_hub wid h' st) wid h'" unfolding hub_in_def
    proof (intro conjI allI impI)
      show "list_all (publication_in wid) (hb_queue h')" "\<not> hb_done h'" using p(2) q(2) h by (auto simp: fanOut_same hub_in_def)
      fix sid assume "joined h' sid"
      then have "joined h sid" using q(2) fanOut_joined [OF turn(2)] by (auto simp: joined_def)
      then show "\<exists>ph. map_of (sy_phase (put_hub wid h' st)) sid = Some (wid, ph) \<and> ph \<noteq> Ended" using h by (simp add: hub_in_def)
    next
      fix sid s' assume "map_of (hb_store h') sid = Some s'"
      then obtain s where s: "map_of (hb_store h) sid = Some s" "s' = s \<or> s' = after_fan p sid s"
        using q(2) fanOut_store [OF turn(2)] by (auto split: if_splits)
      then have "session_in wid s" "\<exists>ph. map_of (sy_phase st) sid = Some (wid, ph)"
        "\<forall>n \<in> set (seqs (written_to sid st)). n \<le> ss_lastSeq s" using h by (auto simp: hub_in_def)
      then show "session_in wid s'" "\<exists>ph. map_of (sy_phase (put_hub wid h' st)) sid = Some (wid, ph)"
        "\<forall>n \<in> set (seqs (written_to sid (put_hub wid h' st))). n \<le> ss_lastSeq s'"
        using s(2) session_in_fan [OF p(1)] by auto
    qed
    then show ?thesis using assms
      by (auto simp: system_ok_def hub_in_def phase_in_def split: if_splits cong: phase.case_cong)
  qed
  then show ?thesis using assms by (auto simp: hub_turn_def split: option.split)
qed

lemma authenticate_session:
  assumes "authenticate c db now frame (NewSession sid d e, tickets) = (Inr hello, s, tickets')"
  shows "session_in (ss_worldID s) s"
  using assms by (auto simp: authenticate_def Let_def session_in_def Subscribe_def NewSession_def outbox_in_others
      split: sum.splits if_splits option.splits prod.splits)

lemma serve_connect_ok:
  assumes "system_ok st"
  shows "system_ok (serve_connect c now documentCap ephemeralCap frame sid st)"
proof (cases "map_of (sy_phase st) sid = None")
  case True
  obtain r s tickets where a: "authenticate c (sv_db (sy_server st)) now frame (NewSession sid documentCap ephemeralCap, sv_tickets (sy_server st)) = (r, s, tickets)"
    by (metis prod_cases3)
  define st1 where "st1 = st\<lparr>sy_server := (sy_server st)\<lparr>sv_tickets := tickets\<rparr>\<rparr>"
  have st1: "system_ok st1" "map_of (sy_phase st1) sid = None" "written_to sid st1 = []"
    using assms True by (auto simp: system_ok_def st1_def hub_in_def phase_in_def cong: phase.case_cong)
  have fresh: "\<not> joined h sid" "map_of (hb_store h) sid = None" if "map_of (sy_hubs st1) w = Some h" for w h
  proof -
    have "hub_in st1 w h" using st1(1) that by (simp add: system_ok_def)
    then show "\<not> joined h sid" "map_of (hb_store h) sid = None"
      using st1(2) unfolding hub_in_def by (metis option.distinct(1), metis not_Some_eq)
  qed
  show ?thesis
  proof (cases r)
    case (Inl e)
    have "system_ok (put_phase sid (ss_worldID s) Ended st1)"
      using st1 fresh unfolding system_ok_def hub_in_def phase_in_def by (auto cong: phase.case_cong)
    then show ?thesis using True Inl by (simp add: serve_connect_def a st1_def)
  next
    case (Inr hello)
    obtain h hubs where g: "registry_Hub (ss_worldID s) (sy_hubs st1) = (h, hubs)" by fastforce
    have own: "session_in (ss_worldID s) s" using authenticate_session a Inr by simp
    have h: "(map_of (sy_hubs st1) (ss_worldID s) = Some h \<or> h = NewHub (ss_worldID s)) \<and>
        map_of hubs = (map_of (sy_hubs st1))(ss_worldID s \<mapsto> h)"
      using g by (auto simp: registry_Hub_def split: option.splits)
    have joined_new: "\<not> joined (NewHub w) i" for w i by (simp add: joined_def NewHub_def)
    define h' where "h' = hub_Join sid (put_session sid s h)"
    have "system_ok (put_phase sid (ss_worldID s) (Welcoming hello) (put_hub (ss_worldID s) h' (st1\<lparr>sy_hubs := hubs\<rparr>)))"
    proof (rule system_ok_update [OF st1(1), where sid = sid and wid = "ss_worldID s" and ph = "Welcoming hello" and h' = h'])
      show "list_all (publication_in (ss_worldID s)) (hb_queue h')" "\<not> hb_done h'"
        using h st1(1) by (auto simp: h'_def system_ok_def hub_in_def NewHub_def)
      show "\<exists>h. map_of (sy_hubs st1) (ss_worldID s) = Some h \<and> joined h i" if "i \<noteq> sid" "joined h' i" for i
        using that h joined_new by (auto simp: h'_def)
      show "\<exists>h. map_of (sy_hubs st1) (ss_worldID s) = Some h \<and> map_of (hb_store h) i = Some t"
        if "i \<noteq> sid" "map_of (hb_store h') i = Some t" for i t
        using that h by (auto simp: h'_def NewHub_def)
      show "map_of (sy_hubs (put_phase sid (ss_worldID s) (Welcoming hello) (put_hub (ss_worldID s) h' (st1\<lparr>sy_hubs := hubs\<rparr>)))) =
          (map_of (sy_hubs st1))(ss_worldID s \<mapsto> h')" using h by simp
    qed (use st1 own in \<open>auto simp: h'_def phase_in_def system_ok_def\<close>)
    then show ?thesis using True Inr g by (simp add: serve_connect_def a st1_def h'_def)
  qed
qed (use assms in \<open>simp add: serve_connect_def\<close>)

lemmas turns_ok = http_turn_ok serve_connect_ok serve_welcome_ok serve_read_ok serve_publish_ok serve_write_ok
  serve_stop_ok serve_leave_ok hub_turn_ok

lemma run_system_ok: "system_ok st \<Longrightarrow> system_ok (run_system turns st)"
proof (induction turns arbitrary: st)
  case (Cons turn turns)
  have "system_ok (take_turn turn st)" using Cons.prems by (cases turn) (simp_all add: turns_ok)
  then show ?case using Cons.IH by (simp add: run_system_def)
qed (simp add: run_system_def)

lemma booted_ok: "db_ok (sv_db server) \<Longrightarrow> system_ok (booted server)"
  by (simp add: system_ok_def booted_def NewRegistry_def written_to_def)

end
