(* ===== verification/Dialects.thy ===== *)
theory Dialects
  imports SqlStore
begin

text \<open>
  The text of the SQL statements that are put together at run time
  (\<open>internal/storage/sqlstore/documents.go\<close>, \<open>sqlite/sqlite.go\<close>, \<open>postgres/postgres.go\<close>).  The effect of
  the statements is that of the operations of \<open>SqlStore\<close>; here it is their text and arguments:
  as many arguments as placeholders, and a path never leaves the literal it is put in.
\<close>

section \<open>Dialects\<close>

definition quote :: char where "quote = CHR 0x27"

definition lit :: "string \<Rightarrow> string" where
  "lit s = [quote] @ s @ [quote]"

record Dialect =
  dl_Rebind :: "string \<Rightarrow> string"
  dl_JSONArg :: string
  dl_JSONColumn :: "string \<Rightarrow> string"
  dl_JSONSet :: "string \<Rightarrow> string list \<Rightarrow> string"
  dl_JSONRemove :: "string \<Rightarrow> string list list \<Rightarrow> string"
  dl_JSONText :: "string \<Rightarrow> string list \<Rightarrow> string"
  dl_JSONNumber :: "string \<Rightarrow> string list \<Rightarrow> string"
  dl_JSONType :: "string \<Rightarrow> string list \<Rightarrow> string"
  dl_JSONBool :: "string \<Rightarrow> string list \<Rightarrow> string"
  dl_JSONArrayContains :: "string \<Rightarrow> string list \<Rightarrow> string"

definition sqlitePath :: "string list \<Rightarrow> string" where
  "sqlitePath path = ''$.'' @ join_with ''.'' path"

definition sqlite_JSONSet :: "string \<Rightarrow> string list \<Rightarrow> string" where
  "sqlite_JSONSet expr path = ''jsonb_set('' @ expr @ '', '' @ lit (sqlitePath path) @ '', json(?))''"

definition sqlite_JSONRemove :: "string \<Rightarrow> string list list \<Rightarrow> string" where
  "sqlite_JSONRemove expr paths =
     ''jsonb_remove('' @ expr @ '', '' @ join_with '', '' (map (\<lambda>path. lit (sqlitePath path)) paths) @ '')''"

definition sqlite_JSONText :: "string \<Rightarrow> string list \<Rightarrow> string" where
  "sqlite_JSONText column path = ''CAST(json_extract('' @ column @ '', '' @ lit (sqlitePath path) @ '') AS TEXT)''"

definition sqlite_JSONNumber :: "string \<Rightarrow> string list \<Rightarrow> string" where
  "sqlite_JSONNumber column path =
     ''CASE WHEN json_type('' @ column @ '', '' @ lit (sqlitePath path) @ '') IN ('' @ lit ''integer'' @ '', '' @ lit ''real'' @
     '') THEN CAST(json_extract('' @ column @ '', '' @ lit (sqlitePath path) @ '') AS REAL) ELSE NULL END''"

definition sqlite_JSONType :: "string \<Rightarrow> string list \<Rightarrow> string" where
  "sqlite_JSONType column path = ''json_type('' @ column @ '', '' @ lit (sqlitePath path) @ '')''"

definition sqlite_JSONBool :: "string \<Rightarrow> string list \<Rightarrow> string" where
  "sqlite_JSONBool column path =
     ''CASE WHEN json_type('' @ column @ '', '' @ lit (sqlitePath path) @ '') IN ('' @ lit ''true'' @ '', '' @ lit ''false'' @
     '') THEN json_type('' @ column @ '', '' @ lit (sqlitePath path) @ '') ELSE NULL END''"

definition sqlite_JSONArrayContains :: "string \<Rightarrow> string list \<Rightarrow> string" where
  "sqlite_JSONArrayContains column path =
     ''EXISTS (SELECT 1 FROM json_each('' @ column @ '', '' @ lit (sqlitePath path) @ '') WHERE CAST(json_each.value AS TEXT) = ?)''"

definition sqlite :: Dialect where
  "sqlite = \<lparr>dl_Rebind = (\<lambda>query. query), dl_JSONArg = ''jsonb(?)'', dl_JSONColumn = (\<lambda>column. ''json('' @ column @ '')''),
     dl_JSONSet = sqlite_JSONSet, dl_JSONRemove = sqlite_JSONRemove, dl_JSONText = sqlite_JSONText,
     dl_JSONNumber = sqlite_JSONNumber, dl_JSONType = sqlite_JSONType, dl_JSONBool = sqlite_JSONBool,
     dl_JSONArrayContains = sqlite_JSONArrayContains\<rparr>"

definition pgPath :: "string list \<Rightarrow> string" where
  "pgPath path = ''{'' @ join_with '','' path @ ''}''"

definition pg_JSONSet :: "string \<Rightarrow> string list \<Rightarrow> string" where
  "pg_JSONSet expr path = ''jsonb_set('' @ expr @ '', '' @ lit (pgPath path) @ '', ?::jsonb, true)''"

definition pg_JSONRemove :: "string \<Rightarrow> string list list \<Rightarrow> string" where
  "pg_JSONRemove expr paths = fold (\<lambda>path result. ''('' @ result @ '' #- '' @ lit (pgPath path) @ '')'') paths expr"

definition pg_JSONText :: "string \<Rightarrow> string list \<Rightarrow> string" where
  "pg_JSONText column path = ''('' @ column @ '' #>> '' @ lit (pgPath path) @ '')''"

definition pg_JSONNumber :: "string \<Rightarrow> string list \<Rightarrow> string" where
  "pg_JSONNumber column path =
     ''CASE WHEN jsonb_typeof('' @ column @ '' #> '' @ lit (pgPath path) @ '') = '' @ lit ''number'' @
     '' THEN ('' @ column @ '' #>> '' @ lit (pgPath path) @ '')::numeric ELSE NULL END''"

definition pg_JSONType :: "string \<Rightarrow> string list \<Rightarrow> string" where
  "pg_JSONType column path = ''jsonb_typeof('' @ column @ '' #> '' @ lit (pgPath path) @ '')''"

definition pg_JSONBool :: "string \<Rightarrow> string list \<Rightarrow> string" where
  "pg_JSONBool column path =
     ''CASE WHEN jsonb_typeof('' @ column @ '' #> '' @ lit (pgPath path) @ '') = '' @ lit ''boolean'' @
     '' THEN '' @ column @ '' #>> '' @ lit (pgPath path) @ '' ELSE NULL END''"

definition pg_JSONArrayContains :: "string \<Rightarrow> string list \<Rightarrow> string" where
  "pg_JSONArrayContains column path =
     ''EXISTS (SELECT 1 FROM jsonb_array_elements_text(CASE WHEN jsonb_typeof('' @ column @ '' #> '' @ lit (pgPath path) @
     '') = '' @ lit ''array'' @ '' THEN '' @ column @ '' #> '' @ lit (pgPath path) @ '' ELSE '' @ lit ''[]'' @
     ''::jsonb END) AS element(value) WHERE element.value = ?)''"

definition postgres :: Dialect where
  "postgres = \<lparr>dl_Rebind = RebindDollar, dl_JSONArg = ''?::jsonb'', dl_JSONColumn = (\<lambda>column. column @ ''::text''),
     dl_JSONSet = pg_JSONSet, dl_JSONRemove = pg_JSONRemove, dl_JSONText = pg_JSONText,
     dl_JSONNumber = pg_JSONNumber, dl_JSONType = pg_JSONType, dl_JSONBool = pg_JSONBool,
     dl_JSONArrayContains = pg_JSONArrayContains\<rparr>"

section \<open>Statements\<close>

datatype sql_arg = SqlText string | SqlInt int | SqlReal rat | SqlJson raw | SqlTime time | SqlNull

type_synonym statement = "string \<times> sql_arg list"

definition documentColumns :: "Dialect \<Rightarrow> string" where
  "documentColumns dl = join_with '', '' [''world_id'', ''id'', ''kind'', ''subtype'', ''parent_id'', ''folder_id'', ''name'',
     ''sort'', ''img'', dl_JSONColumn dl ''data'', dl_JSONColumn dl ''flags'', dl_JSONColumn dl ''ownership'',
     ''source_pack'', ''schema_version'', ''created_at'', ''updated_at'', ''updated_seq'', ''deleted_at'']"

definition select_documents :: "Dialect \<Rightarrow> string list \<Rightarrow> string" where
  "select_documents dl conditions = ''SELECT '' @ documentColumns dl @ '' FROM documents WHERE '' @ join_with '' AND '' conditions @
     '' ORDER BY sort, id LIMIT ?''"

text \<open>A fragment with its arguments, when there is one.\<close>

definition part_if :: "bool \<Rightarrow> string \<Rightarrow> sql_arg list \<Rightarrow> (string \<times> sql_arg list) list" where
  "part_if b fragment args = (if b then [(fragment, args)] else [])"

definition list_statement :: "Dialect \<Rightarrow> ID \<Rightarrow> DocumentFilter \<Rightarrow> statement" where
  "list_statement dl worldID f =
     (let parts = [(''world_id = ?'', [SqlText worldID])] @
            part_if (f_Kind f \<noteq> []) ''kind = ?'' [SqlText (f_Kind f)] @
            part_if (f_Subtype f \<noteq> []) ''subtype = ?'' [SqlText (f_Subtype f)] @
            (case f_ParentID f of None \<Rightarrow> [] | Some p \<Rightarrow> [(''parent_id = ?'', [SqlText p])]) @
            (case f_FolderID f of None \<Rightarrow> [] | Some p \<Rightarrow> [(''folder_id = ?'', [SqlText p])]) @
            part_if (\<not> f_IncludeDeleted f) ''deleted_at IS NULL'' [] @
            part_if (f_UpdatedSince f > 0) ''updated_seq > ?'' [SqlInt (f_UpdatedSince f)];
          limit = (if f_Limit f \<le> 0 then defaultLimit else f_Limit f)
      in (select_documents dl (map fst parts), concat (map snd parts) @ [SqlInt limit]))"

datatype JSONOp = OpEqual | OpNotEqual | OpLess | OpLessEqual | OpGreater | OpGreaterEqual | OpContains | OpExists | OpOther string

record JSONCondition =
  jc_Path :: string
  jc_Op :: JSONOp
  jc_Value :: json

record JSONQuery =
  jq_Kind :: string
  jq_Subtype :: string
  jq_Conditions :: "JSONCondition list"
  jq_Limit :: int

fun comparisonOperator :: "JSONOp \<Rightarrow> string res" where
  "comparisonOperator OpEqual = Inr ''=''"
| "comparisonOperator OpNotEqual = Inr ''<>''"
| "comparisonOperator OpLess = Inr ''<''"
| "comparisonOperator OpLessEqual = Inr ''<=''"
| "comparisonOperator OpGreater = Inr ''>''"
| "comparisonOperator OpGreaterEqual = Inr ''>=''"
| "comparisonOperator _ = Inl (ErrDriver ''operator'')"

text \<open>\<open>fmt.Sprint\<close> of a value that is neither a string nor nil is the argument \<open>sprint\<close>.\<close>

definition scalarText :: "(json \<Rightarrow> string) \<Rightarrow> json \<Rightarrow> string" where
  "scalarText sprint v = (case v of JStr s \<Rightarrow> s | JNull \<Rightarrow> [] | _ \<Rightarrow> sprint v)"

definition conditionSQL :: "Dialect \<Rightarrow> (json \<Rightarrow> string) \<Rightarrow> JSONCondition \<Rightarrow> statement res" where
  "conditionSQL dl sprint condition =
     bind_res (splitPath (jc_Path condition)) (\<lambda>path.
     if jc_Op condition = OpExists then Inr (dl_JSONType dl ''data'' path @ '' IS NOT NULL'', [])
     else if jc_Op condition = OpContains
     then Inr (dl_JSONArrayContains dl ''data'' path, [SqlText (scalarText sprint (jc_Value condition))])
     else bind_res (comparisonOperator (jc_Op condition)) (\<lambda>operator.
       Inr (case jc_Value condition of
           JBool b \<Rightarrow> (dl_JSONBool dl ''data'' path @ '' '' @ operator @ '' ?'', [SqlText (if b then ''true'' else ''false'')])
         | JInt n \<Rightarrow> (dl_JSONNumber dl ''data'' path @ '' '' @ operator @ '' ?'', [SqlInt n])
         | JReal r \<Rightarrow> (dl_JSONNumber dl ''data'' path @ '' '' @ operator @ '' ?'', [SqlReal r])
         | v \<Rightarrow> (dl_JSONText dl ''data'' path @ '' '' @ operator @ '' ?'', [SqlText (scalarText sprint v)]))))"

fun conditions_SQL :: "Dialect \<Rightarrow> (json \<Rightarrow> string) \<Rightarrow> JSONCondition list \<Rightarrow> (string \<times> sql_arg list) list res" where
  "conditions_SQL dl sprint [] = Inr []"
| "conditions_SQL dl sprint (c # cs) =
     bind_res (conditionSQL dl sprint c) (\<lambda>part. bind_res (conditions_SQL dl sprint cs) (\<lambda>parts. Inr (part # parts)))"

definition query_statement :: "Dialect \<Rightarrow> (json \<Rightarrow> string) \<Rightarrow> ID \<Rightarrow> JSONQuery \<Rightarrow> statement res" where
  "query_statement dl sprint worldID spec =
     bind_res (conditions_SQL dl sprint (jq_Conditions spec)) (\<lambda>conditions.
     let parts = [(''world_id = ?'', [SqlText worldID]), (''deleted_at IS NULL'', [])] @
           part_if (jq_Kind spec \<noteq> []) ''kind = ?'' [SqlText (jq_Kind spec)] @
           part_if (jq_Subtype spec \<noteq> []) ''subtype = ?'' [SqlText (jq_Subtype spec)] @ conditions;
         limit = (if jq_Limit spec \<le> 0 then defaultLimit else jq_Limit spec)
     in Inr (select_documents dl (map fst parts), concat (map snd parts) @ [SqlInt limit]))"

fun set_expression :: "Dialect \<Rightarrow> json gomap \<Rightarrow> string list \<Rightarrow> statement \<Rightarrow> statement res" where
  "set_expression dl values [] part = Inr part"
| "set_expression dl values (key # keys) (expression, args) =
     bind_res (splitPath key) (\<lambda>path.
     set_expression dl values keys (dl_JSONSet dl expression path, args @ [SqlJson (RawJson (the (map_of values key)))]))"

definition data_assignment :: "Dialect \<Rightarrow> Patch \<Rightarrow> (string \<times> sql_arg list) list res" where
  "data_assignment dl patch =
     (if p_Set patch = [] \<and> p_Unset patch = [] then Inr []
      else
        bind_res (if p_Unset patch = [] then Inr ''data''
          else bind_res (splitPaths (p_Unset patch)) (\<lambda>paths. Inr (dl_JSONRemove dl ''data'' paths))) (\<lambda>expression.
        bind_res (set_expression dl (p_Set patch) (sortedKeys (p_Set patch)) (expression, [])) (\<lambda>(expression, args).
        Inr [(''data = '' @ expression, args)])))"

definition patch_fields :: "Dialect \<Rightarrow> time \<Rightarrow> Patch \<Rightarrow> (string \<times> sql_arg list) list" where
  "patch_fields dl now patch =
     [(''updated_at = ?'', [SqlTime now]), (''updated_seq = ?'', [SqlInt (p_Seq patch)])] @
     (case p_Name patch of None \<Rightarrow> [] | Some v \<Rightarrow> [(''name = ?'', [SqlText v])]) @
     (case p_Sort patch of None \<Rightarrow> [] | Some v \<Rightarrow> [(''sort = ?'', [SqlInt v])]) @
     (case p_Img patch of None \<Rightarrow> [] | Some v \<Rightarrow> [(''img = ?'', [SqlText v])]) @
     (case p_FolderID patch of None \<Rightarrow> [] | Some v \<Rightarrow> [(''folder_id = ?'', [if v = [] then SqlNull else SqlText v])]) @
     (case p_Ownership patch of None \<Rightarrow> []
      | Some v \<Rightarrow> [(''ownership = '' @ dl_JSONArg dl, [SqlJson (if v = RawNil then raw_empty_object else v)])])"

definition patch_statement :: "Dialect \<Rightarrow> time \<Rightarrow> ID \<Rightarrow> ID \<Rightarrow> Patch \<Rightarrow> statement res" where
  "patch_statement dl now worldID did patch =
     bind_res (data_assignment dl patch) (\<lambda>data.
     let parts = patch_fields dl now patch @ data
     in Inr (''UPDATE documents SET '' @ join_with '', '' (map fst parts) @ '' WHERE world_id = ? AND id = ? RETURNING '' @
          documentColumns dl, concat (map snd parts) @ [SqlText worldID, SqlText did]))"

section \<open>Literals and placeholders\<close>

text \<open>A text without what stands between its quotes, and whether it ends between quotes.\<close>

fun outside :: "bool \<Rightarrow> string \<Rightarrow> string" where
  "outside q [] = []"
| "outside q (c # s) = (if c = quote then outside (\<not> q) s else if q then outside q s else c # outside q s)"

fun open_quote :: "bool \<Rightarrow> string \<Rightarrow> bool" where
  "open_quote q [] = q"
| "open_quote q (c # s) = open_quote (if c = quote then \<not> q else q) s"

definition balanced :: "string \<Rightarrow> bool" where
  "balanced s \<longleftrightarrow> \<not> open_quote False s"

definition skeleton :: "string \<Rightarrow> string" where
  "skeleton s = outside False s"

definition marks :: "string \<Rightarrow> nat" where
  "marks s = length (filter (\<lambda>c. c = CHR ''?'') s)"

lemma outside_append: "outside q (s @ t) = outside q s @ outside (open_quote q s) t"
  by (induction s arbitrary: q) auto

lemma open_quote_append: "open_quote q (s @ t) = open_quote (open_quote q s) t"
  by (induction s arbitrary: q) auto

lemma quote_free: "quote \<notin> set s \<Longrightarrow> open_quote q s = q \<and> outside q s = (if q then [] else s)"
  by (induction s arbitrary: q) auto

lemma skeleton_append [simp]: "balanced s \<Longrightarrow> skeleton (s @ t) = skeleton s @ skeleton t" "balanced s \<Longrightarrow> balanced (s @ t) = balanced t"
  by (simp_all add: skeleton_def balanced_def outside_append open_quote_append)

lemma marks_append [simp]: "marks (s @ t) = marks s + marks t"
  by (simp add: marks_def)

lemma plain_text: "quote \<notin> set s \<Longrightarrow> balanced s" "quote \<notin> set s \<Longrightarrow> skeleton s = s"
  using quote_free [of s False] by (simp_all add: balanced_def skeleton_def)

lemma lit_balanced: "quote \<notin> set s \<Longrightarrow> balanced (lit s)" "quote \<notin> set s \<Longrightarrow> skeleton (lit s) = []"
  using quote_free [of s True] by (simp_all add: lit_def balanced_def skeleton_def outside_append open_quote_append)

lemma skeleton_join:
  "list_all balanced fs \<Longrightarrow> balanced sep \<Longrightarrow> balanced (join_with sep fs) \<and> skeleton (join_with sep fs) = join_with (skeleton sep) (map skeleton fs)"
proof (induction sep fs rule: join_with.induct)
  case (1 sep)
  then show ?case by (simp add: plain_text)
qed auto

text \<open>A segment of a path has no quote.\<close>

lemma segment_quote: "segmentPattern w \<Longrightarrow> quote \<notin> set w"
proof
  assume "segmentPattern w" "quote \<in> set w"
  then have "segment_char quote" by (auto simp: segmentPattern_def list_all_iff)
  moreover have "\<not> segment_char quote" by code_simp
  ultimately show False by simp
qed

lemma join_quote: "(\<And>w. w \<in> set ws \<Longrightarrow> quote \<notin> set w) \<Longrightarrow> quote \<notin> set sep \<Longrightarrow> quote \<notin> set (join_with sep ws)"
  by (induction sep ws rule: join_with.induct) auto

lemma path_quote: "list_all segmentPattern path \<Longrightarrow> quote \<notin> set (sqlitePath path)" "list_all segmentPattern path \<Longrightarrow> quote \<notin> set (pgPath path)"
  using join_quote [of path] segment_quote by (auto simp: sqlitePath_def pgPath_def list_all_iff quote_def)

lemma splitPath_valid: "splitPath p = Inr path \<Longrightarrow> list_all segmentPattern path"
  by (auto simp: splitPath_def Let_def split: if_splits)

lemma splitPaths_valid: "splitPaths ps = Inr paths \<Longrightarrow> list_all (list_all segmentPattern) paths \<and> length paths = length ps"
  by (induction ps arbitrary: paths) (auto simp: res_simps dest: splitPath_valid)

lemma skeleton_Cons [simp]:
  "c \<noteq> quote \<Longrightarrow> skeleton (c # s) = c # skeleton s" "c \<noteq> quote \<Longrightarrow> balanced (c # s) = balanced s" "skeleton [] = []" "balanced []"
  by (simp_all add: skeleton_def balanced_def)

lemma lit_append [simp]: "quote \<notin> set s \<Longrightarrow> skeleton (lit s @ t) = skeleton t" "quote \<notin> set s \<Longrightarrow> balanced (lit s @ t) = balanced t"
  by (simp_all add: lit_balanced)

lemma marks_Cons [simp]: "marks [] = 0" "marks (c # s) = (if c = CHR ''?'' then Suc (marks s) else marks s)"
  by (simp_all add: marks_def)

lemma marks_join: "marks sep = 0 \<Longrightarrow> marks (join_with sep ws) = sum_list (map marks ws)"
  by (induction sep ws rule: join_with.induct) auto

lemma literals_skeleton:
  assumes "list_all (list_all segmentPattern) paths"
  shows "list_all balanced (map (\<lambda>path. lit (sqlitePath path)) paths)"
    and "map skeleton (map (\<lambda>path. lit (sqlitePath path)) paths) = replicate (length paths) []"
  using assms by (induction paths) (auto simp: lit_balanced path_quote(1))

text \<open>What a patch and a condition fix of the skeleton.\<close>

definition patch_shape :: "Patch \<Rightarrow> bool list \<times> nat \<times> nat" where
  "patch_shape p = ([p_Name p = None, p_Sort p = None, p_Img p = None, p_FolderID p = None, p_Ownership p = None],
     length (p_Unset p), length (p_Set p))"

fun value_kind :: "json \<Rightarrow> nat" where
  "value_kind (JBool _) = 1"
| "value_kind (JInt _) = 2"
| "value_kind (JReal _) = 2"
| "value_kind _ = 3"

definition query_shape :: "JSONQuery \<Rightarrow> bool \<times> bool \<times> (JSONOp \<times> nat) list" where
  "query_shape spec = (jq_Kind spec = [], jq_Subtype spec = [], map (\<lambda>c. (jc_Op c, value_kind (jc_Value c))) (jq_Conditions spec))"

section \<open>The contract of a dialect\<close>

text \<open>
  What the statements rely on: the skeleton of a fragment does not depend on the path in it, and
  has one placeholder for each argument.
\<close>

locale safe_dialect =
  fixes dl :: Dialect and set_skel :: "string \<Rightarrow> string" and remove_skel :: "nat \<Rightarrow> string"
    and type_skel contains_skel bool_skel number_skel text_skel :: string
  assumes arg: "balanced (dl_JSONArg dl)" "marks (skeleton (dl_JSONArg dl)) = 1"
    and columns: "balanced (documentColumns dl)" "marks (skeleton (documentColumns dl)) = 0"
    and sets: "list_all segmentPattern path \<Longrightarrow> balanced e \<Longrightarrow> balanced (dl_JSONSet dl e path)"
      "list_all segmentPattern path \<Longrightarrow> balanced e \<Longrightarrow> skeleton (dl_JSONSet dl e path) = set_skel (skeleton e)"
      "marks (set_skel e) = Suc (marks e)"
    and removes: "paths \<noteq> [] \<Longrightarrow> list_all (list_all segmentPattern) paths \<Longrightarrow> balanced (dl_JSONRemove dl ''data'' paths)"
      "paths \<noteq> [] \<Longrightarrow> list_all (list_all segmentPattern) paths \<Longrightarrow> skeleton (dl_JSONRemove dl ''data'' paths) = remove_skel (length paths)"
      "marks (remove_skel n) = 0"
    and types: "list_all segmentPattern path \<Longrightarrow> balanced (dl_JSONType dl ''data'' path)"
      "list_all segmentPattern path \<Longrightarrow> skeleton (dl_JSONType dl ''data'' path) = type_skel" "marks type_skel = 0"
    and contains: "list_all segmentPattern path \<Longrightarrow> balanced (dl_JSONArrayContains dl ''data'' path)"
      "list_all segmentPattern path \<Longrightarrow> skeleton (dl_JSONArrayContains dl ''data'' path) = contains_skel" "marks contains_skel = 1"
    and bools: "list_all segmentPattern path \<Longrightarrow> balanced (dl_JSONBool dl ''data'' path)"
      "list_all segmentPattern path \<Longrightarrow> skeleton (dl_JSONBool dl ''data'' path) = bool_skel" "marks bool_skel = 0"
    and numbers: "list_all segmentPattern path \<Longrightarrow> balanced (dl_JSONNumber dl ''data'' path)"
      "list_all segmentPattern path \<Longrightarrow> skeleton (dl_JSONNumber dl ''data'' path) = number_skel" "marks number_skel = 0"
    and texts: "list_all segmentPattern path \<Longrightarrow> balanced (dl_JSONText dl ''data'' path)"
      "list_all segmentPattern path \<Longrightarrow> skeleton (dl_JSONText dl ''data'' path) = text_skel" "marks text_skel = 0"
begin

text \<open>A fragment is good when it is balanced and has a placeholder for each of its arguments.\<close>

definition good_part :: "string \<times> sql_arg list \<Rightarrow> bool" where
  "good_part = (\<lambda>(fragment, args). balanced fragment \<and> marks (skeleton fragment) = length args)"

lemma good_parts_join:
  assumes "list_all good_part parts" and "balanced sep" "marks (skeleton sep) = 0"
  shows "balanced (join_with sep (map fst parts))" "skeleton (join_with sep (map fst parts)) = join_with (skeleton sep) (map (skeleton \<circ> fst) parts)"
    "marks (skeleton (join_with sep (map fst parts))) = length (concat (map snd parts))"
proof -
  have "list_all balanced (map fst parts)" using assms(1) by (auto simp: good_part_def list_all_iff)
  then show b: "balanced (join_with sep (map fst parts))" "skeleton (join_with sep (map fst parts)) = join_with (skeleton sep) (map (skeleton \<circ> fst) parts)"
    using skeleton_join [of "map fst parts" sep] assms(2) by simp_all
  have "sum_list (map (marks \<circ> (skeleton \<circ> fst)) parts) = length (concat (map snd parts))"
    using assms(1) by (induction parts) (auto simp: good_part_def)
  then show "marks (skeleton (join_with sep (map fst parts))) = length (concat (map snd parts))"
    using assms(3) by (simp add: b(2) marks_join)
qed

lemma set_expression_good:
  assumes "set_expression dl values keys (e, args) = Inr (e', args')" and "balanced e"
  shows "balanced e' \<and> skeleton e' = (set_skel ^^ length keys) (skeleton e) \<and> length args' = length args + length keys"
  using assms
proof (induction keys arbitrary: e args)
  case (Cons key keys)
  obtain path where p: "splitPath key = Inr path"
      "set_expression dl values keys (dl_JSONSet dl e path, args @ [SqlJson (RawJson (the (map_of values key)))]) = Inr (e', args')"
    using Cons.prems(1) by (auto simp: res_simps)
  note v = splitPath_valid [OF p(1)]
  show ?case using Cons.IH [OF p(2)] sets(1,2) [OF v Cons.prems(2)] by (simp add: funpow_swap1)
qed simp

lemma set_skel_marks: "marks ((set_skel ^^ n) e) = marks e + n"
  by (induction n) (simp_all add: sets(3))

text \<open>The skeleton of a data assignment depends only on how many paths are removed and set.\<close>

definition data_skel :: "nat \<Rightarrow> nat \<Rightarrow> string" where
  "data_skel removed n = ''data = '' @ (set_skel ^^ n) (if removed = 0 then ''data'' else remove_skel removed)"

lemma data_assignment_good:
  assumes "data_assignment dl patch = Inr parts"
  shows "list_all good_part parts"
    and "map (skeleton \<circ> fst) parts = (if p_Set patch = [] \<and> p_Unset patch = [] then []
      else [data_skel (length (p_Unset patch)) (length (p_Set patch))])"
proof -
  have "list_all good_part parts \<and> map (skeleton \<circ> fst) parts = (if p_Set patch = [] \<and> p_Unset patch = [] then []
      else [data_skel (length (p_Unset patch)) (length (p_Set patch))])"
  proof (cases "p_Set patch = [] \<and> p_Unset patch = []")
    case False
    then obtain e e' args where e: "(if p_Unset patch = [] then Inr ''data''
          else bind_res (splitPaths (p_Unset patch)) (\<lambda>paths. Inr (dl_JSONRemove dl ''data'' paths))) = Inr e"
        and se: "set_expression dl (p_Set patch) (sortedKeys (p_Set patch)) (e, []) = Inr (e', args)"
        and parts: "parts = [(''data = '' @ e', args)]"
      using assms unfolding data_assignment_def by (auto simp: res_simps split: if_splits)
    have b: "balanced e \<and> skeleton e = (if length (p_Unset patch) = 0 then ''data'' else remove_skel (length (p_Unset patch)))"
    proof (cases "p_Unset patch = []")
      case True
      then show ?thesis using e by (auto simp: quote_def)
    next
      case False
      then obtain paths where "splitPaths (p_Unset patch) = Inr paths" "e = dl_JSONRemove dl ''data'' paths" using e by (auto simp: res_simps)
      moreover have "paths \<noteq> []" using calculation(1) False splitPaths_valid [of "p_Unset patch" paths] by auto
      ultimately show ?thesis using False splitPaths_valid [of "p_Unset patch" paths] removes(1,2) [of paths] by auto
    qed
    have n: "length (sortedKeys (p_Set patch)) = length (p_Set patch)" by (simp add: sortedKeys_def insertion_sort_sort)
    note g = set_expression_good [OF se conjunct1 [OF b]]
    have "marks (if length (p_Unset patch) = 0 then ''data'' else remove_skel (length (p_Unset patch))) = 0" by (simp add: removes(3))
    then have "good_part (''data = '' @ e', args)" "skeleton (''data = '' @ e') = data_skel (length (p_Unset patch)) (length (p_Set patch))"
      using g b n by (simp_all add: good_part_def data_skel_def set_skel_marks quote_def)
    then show ?thesis using parts False by simp
  qed (use assms in \<open>simp add: data_assignment_def\<close>)
  then show "list_all good_part parts" "map (skeleton \<circ> fst) parts = (if p_Set patch = [] \<and> p_Unset patch = [] then []
      else [data_skel (length (p_Unset patch)) (length (p_Set patch))])" by simp_all
qed

lemma patch_fields_good: "list_all good_part (patch_fields dl now patch)"
  using arg by (auto simp: patch_fields_def good_part_def quote_def split: option.split)

lemma optional_skeleton:
  "map (skeleton \<circ> fst) (case a of None \<Rightarrow> [] | Some v \<Rightarrow> [(t, g v)]) = (if a = None then [] else [skeleton t])"
  by (cases a) auto

lemma patch_fields_skeleton:
  assumes "patch_shape p = patch_shape p'"
  shows "map (skeleton \<circ> fst) (patch_fields dl now p) = map (skeleton \<circ> fst) (patch_fields dl now' p')"
  using assms unfolding patch_fields_def map_append optional_skeleton by (simp add: patch_shape_def)

lemma patch_good:
  assumes "patch_statement dl now wid did patch = Inr (q, args)"
  obtains data where "data_assignment dl patch = Inr data" "balanced q" "marks (skeleton q) = length args"
    "skeleton q = ''UPDATE documents SET '' @ join_with '', '' (map (skeleton \<circ> fst) (patch_fields dl now patch @ data)) @
       '' WHERE world_id = ? AND id = ? RETURNING '' @ skeleton (documentColumns dl)"
proof -
  obtain data where d: "data_assignment dl patch = Inr data"
    and q: "q = ''UPDATE documents SET '' @ join_with '', '' (map fst (patch_fields dl now patch @ data)) @ '' WHERE world_id = ? AND id = ? RETURNING '' @ documentColumns dl"
      "args = concat (map snd (patch_fields dl now patch @ data)) @ [SqlText wid, SqlText did]"
    using assms by (auto simp: patch_statement_def Let_def res_simps)
  have sep: "balanced '', ''" "skeleton '', '' = '', ''" "marks '', '' = 0" by (simp_all add: quote_def)
  have g: "list_all good_part (patch_fields dl now patch @ data)" using patch_fields_good data_assignment_good(1) [OF d] by simp
  note j = good_parts_join [OF g sep(1), unfolded sep(2), OF sep(3)]
  have "balanced q" using j(1) columns(1) by (simp add: q quote_def)
  moreover have sk: "skeleton q = ''UPDATE documents SET '' @ join_with '', '' (map (skeleton \<circ> fst) (patch_fields dl now patch @ data)) @
       '' WHERE world_id = ? AND id = ? RETURNING '' @ skeleton (documentColumns dl)"
    using j(1,2) by (simp add: q quote_def)
  moreover have "marks (skeleton q) = length args"
    unfolding sk j(2) [symmetric] using j(3) columns(2) by (simp add: q(2) del: map_append concat_append)
  ultimately show ?thesis using that d by blast
qed

lemma patch_safe:
  "patch_statement dl now wid did patch = Inr (q, args) \<Longrightarrow> balanced q"
  "patch_statement dl now wid did patch = Inr (q, args) \<Longrightarrow> marks (skeleton q) = length args"
  by (erule patch_good, assumption)+

lemma patch_skeleton:
  assumes "patch_statement dl now wid did p = Inr (q, args)" "patch_statement dl now' wid' did' p' = Inr (q', args')"
    and "patch_shape p = patch_shape p'"
  shows "skeleton q = skeleton q'"
proof -
  obtain data data' where "data_assignment dl p = Inr data" "data_assignment dl p' = Inr data'"
    and sk: "skeleton q = ''UPDATE documents SET '' @ join_with '', '' (map (skeleton \<circ> fst) (patch_fields dl now p @ data)) @
       '' WHERE world_id = ? AND id = ? RETURNING '' @ skeleton (documentColumns dl)"
      "skeleton q' = ''UPDATE documents SET '' @ join_with '', '' (map (skeleton \<circ> fst) (patch_fields dl now' p' @ data')) @
       '' WHERE world_id = ? AND id = ? RETURNING '' @ skeleton (documentColumns dl)"
    using patch_good [OF assms(1)] patch_good [OF assms(2)] by metis
  then have "map (skeleton \<circ> fst) data = map (skeleton \<circ> fst) data'"
    using data_assignment_good(2) assms(3) by (auto simp: patch_shape_def)
  then show ?thesis using patch_fields_skeleton [OF assms(3), of now now'] by (simp add: sk)
qed

definition condition_skel :: "JSONOp \<Rightarrow> nat \<Rightarrow> string" where
  "condition_skel op kind =
     (if op = OpExists then type_skel @ '' IS NOT NULL''
      else if op = OpContains then contains_skel
      else (if kind = 1 then bool_skel else if kind = 2 then number_skel else text_skel) @ '' '' @
        (case comparisonOperator op of Inl _ \<Rightarrow> [] | Inr operator \<Rightarrow> operator) @ '' ?'')"

lemma operator_plain: "comparisonOperator x = Inr operator \<Longrightarrow> balanced operator \<and> skeleton operator = operator \<and> marks operator = 0"
  by (cases x) (auto simp: quote_def)

lemma condition_good:
  assumes "conditionSQL dl sprint c = Inr part"
  shows "good_part part \<and> skeleton (fst part) = condition_skel (jc_Op c) (value_kind (jc_Value c))"
proof -
  obtain path where p: "splitPath (jc_Path c) = Inr path" using assms by (auto simp: conditionSQL_def res_simps)
  note v = splitPath_valid [OF p]
  note [simp] = types(1,2) [OF v] contains(1,2) [OF v] bools(1,2) [OF v] numbers(1,2) [OF v] texts(1,2) [OF v]
    types(3) contains(3) bools(3) numbers(3) texts(3)
  consider "jc_Op c = OpExists" | "jc_Op c = OpContains" | op where "jc_Op c \<noteq> OpExists" "jc_Op c \<noteq> OpContains" "comparisonOperator (jc_Op c) = Inr op"
    using assms p by (auto simp: conditionSQL_def res_simps split: if_splits)
  then show ?thesis
  proof cases
    case (3 op)
    then show ?thesis using assms p operator_plain [OF 3(3)]
      by (cases "jc_Value c") (auto simp: conditionSQL_def good_part_def condition_skel_def quote_def)
  qed (use assms p in \<open>auto simp: conditionSQL_def good_part_def condition_skel_def quote_def\<close>)
qed

lemma conditions_good:
  "conditions_SQL dl sprint cs = Inr parts \<Longrightarrow>
     list_all good_part parts \<and> map (skeleton \<circ> fst) parts = map (\<lambda>c. condition_skel (jc_Op c) (value_kind (jc_Value c))) cs"
  by (induction cs arbitrary: parts) (auto simp: res_simps dest: condition_good)

lemma part_if_good: "balanced f \<Longrightarrow> marks (skeleton f) = length args \<Longrightarrow> list_all good_part (part_if b f args)"
  "map (skeleton \<circ> fst) (part_if b f args) = (if b then [skeleton f] else [])"
  by (simp_all add: part_if_def good_part_def)

lemma query_good:
  assumes "query_statement dl sprint wid spec = Inr (q, args)"
  shows "balanced q" and "marks (skeleton q) = length args"
    and "skeleton q = ''SELECT '' @ skeleton (documentColumns dl) @ '' FROM documents WHERE '' @ join_with '' AND ''
      ([''world_id = ?'', ''deleted_at IS NULL''] @ (if jq_Kind spec \<noteq> [] then [''kind = ?''] else []) @
       (if jq_Subtype spec \<noteq> [] then [''subtype = ?''] else []) @
       map (\<lambda>c. condition_skel (jc_Op c) (value_kind (jc_Value c))) (jq_Conditions spec)) @ '' ORDER BY sort, id LIMIT ?''"
proof -
  obtain conditions where c: "conditions_SQL dl sprint (jq_Conditions spec) = Inr conditions"
    using assms by (auto simp: query_statement_def res_simps)
  define parts where "parts = [(''world_id = ?'', [SqlText wid]), (''deleted_at IS NULL'', [])] @
      part_if (jq_Kind spec \<noteq> []) ''kind = ?'' [SqlText (jq_Kind spec)] @
      part_if (jq_Subtype spec \<noteq> []) ''subtype = ?'' [SqlText (jq_Subtype spec)] @ conditions"
  define limit where "limit = (if jq_Limit spec \<le> 0 then defaultLimit else jq_Limit spec)"
  have "query_statement dl sprint wid spec = Inr (select_documents dl (map fst parts), concat (map snd parts) @ [SqlInt limit])"
    unfolding query_statement_def c bind_res_simps Let_def parts_def limit_def ..
  then have q: "q = select_documents dl (map fst parts)" "args = concat (map snd parts) @ [SqlInt limit]" using assms by simp_all
  have g: "list_all good_part parts"
    using conditions_good [OF c] part_if_good(1) by (simp add: parts_def quote_def) (simp add: good_part_def quote_def)
  have sk: "map (skeleton \<circ> fst) parts = [''world_id = ?'', ''deleted_at IS NULL''] @ (if jq_Kind spec \<noteq> [] then [''kind = ?''] else []) @
       (if jq_Subtype spec \<noteq> [] then [''subtype = ?''] else []) @ map (\<lambda>c. condition_skel (jc_Op c) (value_kind (jc_Value c))) (jq_Conditions spec)"
    using conditions_good [OF c] unfolding parts_def map_append part_if_good(2) by (simp add: quote_def)
  have sep: "balanced '' AND ''" "skeleton '' AND '' = '' AND ''" "marks '' AND '' = 0" by (simp_all add: quote_def)
  note j = good_parts_join [OF g sep(1), unfolded sep(2), OF sep(3)]
  show "balanced q" using j(1) columns(1) by (simp add: q select_documents_def quote_def)
  have qs: "skeleton q = ''SELECT '' @ skeleton (documentColumns dl) @ '' FROM documents WHERE '' @ join_with '' AND '' (map (skeleton \<circ> fst) parts) @
      '' ORDER BY sort, id LIMIT ?''"
    using j(1,2) columns(1) by (simp add: q select_documents_def quote_def)
  then show "skeleton q = ''SELECT '' @ skeleton (documentColumns dl) @ '' FROM documents WHERE '' @ join_with '' AND ''
      ([''world_id = ?'', ''deleted_at IS NULL''] @ (if jq_Kind spec \<noteq> [] then [''kind = ?''] else []) @
       (if jq_Subtype spec \<noteq> [] then [''subtype = ?''] else []) @
       map (\<lambda>c. condition_skel (jc_Op c) (value_kind (jc_Value c))) (jq_Conditions spec)) @ '' ORDER BY sort, id LIMIT ?''"
    unfolding sk .
  show "marks (skeleton q) = length args"
    unfolding qs j(2) [symmetric] using j(3) columns(2) by (simp add: q(2))
qed

lemma query_skeleton:
  assumes "query_statement dl sprint wid spec = Inr (q, args)" "query_statement dl sprint' wid' spec' = Inr (q', args')"
    and "query_shape spec = query_shape spec'"
  shows "skeleton q = skeleton q'"
proof -
  have split: "map (\<lambda>c. condition_skel (jc_Op c) (value_kind (jc_Value c))) cs = map (\<lambda>(op, k). condition_skel op k) (map (\<lambda>c. (jc_Op c, value_kind (jc_Value c))) cs)" for cs
    by simp
  have shape: "map (\<lambda>c. (jc_Op c, value_kind (jc_Value c))) (jq_Conditions spec) = map (\<lambda>c. (jc_Op c, value_kind (jc_Value c))) (jq_Conditions spec')"
    using assms(3) by (simp add: query_shape_def)
  have "map (\<lambda>c. condition_skel (jc_Op c) (value_kind (jc_Value c))) (jq_Conditions spec) =
      map (\<lambda>c. condition_skel (jc_Op c) (value_kind (jc_Value c))) (jq_Conditions spec')"
    unfolding split shape ..
  moreover have "(jq_Kind spec = []) = (jq_Kind spec' = [])" "(jq_Subtype spec = []) = (jq_Subtype spec' = [])"
    using assms(3) by (auto simp: query_shape_def)
  ultimately show ?thesis unfolding query_good(3) [OF assms(1)] query_good(3) [OF assms(2)] by simp
qed

end

fun sqlite_remove_skel :: "nat \<Rightarrow> string" where
  "sqlite_remove_skel n = ''jsonb_remove(data, '' @ join_with '', '' (replicate n []) @ '')''"

interpretation sqlite: safe_dialect sqlite "\<lambda>e. ''jsonb_set('' @ e @ '', , json(?))''" sqlite_remove_skel
  "''json_type(data, )''" "''EXISTS (SELECT 1 FROM json_each(data, ) WHERE CAST(json_each.value AS TEXT) = ?)''"
  "''CASE WHEN json_type(data, ) IN (, ) THEN json_type(data, ) ELSE NULL END''"
  "''CASE WHEN json_type(data, ) IN (, ) THEN CAST(json_extract(data, ) AS REAL) ELSE NULL END''"
  "''CAST(json_extract(data, ) AS TEXT)''"
proof
  fix path :: "string list" and paths :: "string list list" and e :: string and n :: nat
  have q: "quote \<notin> set ''integer''" "quote \<notin> set ''real''" "quote \<notin> set ''true''" "quote \<notin> set ''false''" by (simp_all add: quote_def)
  show "balanced (dl_JSONArg sqlite)" "marks (skeleton (dl_JSONArg sqlite)) = 1" by code_simp+
  show "balanced (documentColumns sqlite)" "marks (skeleton (documentColumns sqlite)) = 0" by code_simp+
  show "marks (''jsonb_set('' @ e @ '', , json(?))'') = Suc (marks e)" by simp
  show "marks ''json_type(data, )'' = 0" "marks ''EXISTS (SELECT 1 FROM json_each(data, ) WHERE CAST(json_each.value AS TEXT) = ?)'' = 1"
    "marks ''CASE WHEN json_type(data, ) IN (, ) THEN json_type(data, ) ELSE NULL END'' = 0"
    "marks ''CASE WHEN json_type(data, ) IN (, ) THEN CAST(json_extract(data, ) AS REAL) ELSE NULL END'' = 0"
    "marks ''CAST(json_extract(data, ) AS TEXT)'' = 0" by simp_all
  show "marks (sqlite_remove_skel n) = 0" by (simp add: marks_join sum_list_replicate)
  {
    assume v: "list_all segmentPattern path"
    note l = path_quote(1) [OF v]
    show "balanced e \<Longrightarrow> balanced (dl_JSONSet sqlite e path)" "balanced e \<Longrightarrow> skeleton (dl_JSONSet sqlite e path) = ''jsonb_set('' @ skeleton e @ '', , json(?))''"
      using l by (simp_all add: sqlite_def sqlite_JSONSet_def quote_def)
    show "balanced (dl_JSONType sqlite ''data'' path)" "skeleton (dl_JSONType sqlite ''data'' path) = ''json_type(data, )''"
      using l by (simp_all add: sqlite_def sqlite_JSONType_def quote_def)
    show "balanced (dl_JSONArrayContains sqlite ''data'' path)"
      "skeleton (dl_JSONArrayContains sqlite ''data'' path) = ''EXISTS (SELECT 1 FROM json_each(data, ) WHERE CAST(json_each.value AS TEXT) = ?)''"
      using l by (simp_all add: sqlite_def sqlite_JSONArrayContains_def quote_def)
    show "balanced (dl_JSONBool sqlite ''data'' path)"
      "skeleton (dl_JSONBool sqlite ''data'' path) = ''CASE WHEN json_type(data, ) IN (, ) THEN json_type(data, ) ELSE NULL END''"
      using l q by (simp_all add: sqlite_def sqlite_JSONBool_def quote_def)
    show "balanced (dl_JSONNumber sqlite ''data'' path)"
      "skeleton (dl_JSONNumber sqlite ''data'' path) = ''CASE WHEN json_type(data, ) IN (, ) THEN CAST(json_extract(data, ) AS REAL) ELSE NULL END''"
      using l q by (simp_all add: sqlite_def sqlite_JSONNumber_def quote_def)
    show "balanced (dl_JSONText sqlite ''data'' path)" "skeleton (dl_JSONText sqlite ''data'' path) = ''CAST(json_extract(data, ) AS TEXT)''"
      using l by (simp_all add: sqlite_def sqlite_JSONText_def quote_def)
  }
  {
    assume "paths \<noteq> []" and v: "list_all (list_all segmentPattern) paths"
    note c = literals_skeleton [OF v]
    have "balanced '', ''" "skeleton '', '' = '', ''" by (simp_all add: quote_def)
    with c(1) have "balanced (join_with '', '' (map (\<lambda>path. lit (sqlitePath path)) paths))"
      "skeleton (join_with '', '' (map (\<lambda>path. lit (sqlitePath path)) paths)) = join_with '', '' (replicate (length paths) [])"
      using skeleton_join [of "map (\<lambda>path. lit (sqlitePath path)) paths" "'', ''"] by (simp_all add: c(2) del: map_map)
    then show "balanced (dl_JSONRemove sqlite ''data'' paths)" "skeleton (dl_JSONRemove sqlite ''data'' paths) = sqlite_remove_skel (length paths)"
      by (simp_all add: sqlite_def sqlite_JSONRemove_def quote_def)
  }
qed

definition pg_wrap :: "string \<Rightarrow> string" where
  "pg_wrap e = ''('' @ e @ '' #- )''"

definition pg_remove_skel :: "nat \<Rightarrow> string" where
  "pg_remove_skel n = (pg_wrap ^^ n) ''data''"

lemma pg_remove_marks: "marks (pg_remove_skel n) = 0"
  unfolding pg_remove_skel_def by (induction n) (simp_all add: pg_wrap_def)

lemma pg_remove_skeleton:
  assumes "list_all (list_all segmentPattern) paths" and "balanced e"
  shows "balanced (pg_JSONRemove e paths) \<and> skeleton (pg_JSONRemove e paths) = (pg_wrap ^^ length paths) (skeleton e)"
  using assms
proof (induction paths arbitrary: e)
  case (Cons path paths)
  have l: "quote \<notin> set (pgPath path)" using Cons.prems(1) path_quote(2) by simp
  have "balanced (''('' @ e @ '' #- '' @ lit (pgPath path) @ '')'')" "skeleton (''('' @ e @ '' #- '' @ lit (pgPath path) @ '')'') = pg_wrap (skeleton e)"
    using l Cons.prems(2) by (simp_all add: quote_def pg_wrap_def)
  then show ?case using Cons by (simp add: pg_JSONRemove_def funpow_swap1)
qed (simp add: pg_JSONRemove_def)

interpretation postgres: safe_dialect postgres "\<lambda>e. ''jsonb_set('' @ e @ '', , ?::jsonb, true)''" pg_remove_skel
  "''jsonb_typeof(data #> )''"
  "''EXISTS (SELECT 1 FROM jsonb_array_elements_text(CASE WHEN jsonb_typeof(data #> ) =  THEN data #>  ELSE ::jsonb END) AS element(value) WHERE element.value = ?)''"
  "''CASE WHEN jsonb_typeof(data #> ) =  THEN data #>>  ELSE NULL END''"
  "''CASE WHEN jsonb_typeof(data #> ) =  THEN (data #>> )::numeric ELSE NULL END''"
  "''(data #>> )''"
proof
  fix path :: "string list" and paths :: "string list list" and e :: string and n :: nat
  have q: "quote \<notin> set ''number''" "quote \<notin> set ''boolean''" "quote \<notin> set ''array''" "quote \<notin> set ''[]''" by (simp_all add: quote_def)
  show "balanced (dl_JSONArg postgres)" "marks (skeleton (dl_JSONArg postgres)) = 1" by code_simp+
  show "balanced (documentColumns postgres)" "marks (skeleton (documentColumns postgres)) = 0" by code_simp+
  show "marks (''jsonb_set('' @ e @ '', , ?::jsonb, true)'') = Suc (marks e)" by simp
  show "marks ''jsonb_typeof(data #> )'' = 0"
    "marks ''EXISTS (SELECT 1 FROM jsonb_array_elements_text(CASE WHEN jsonb_typeof(data #> ) =  THEN data #>  ELSE ::jsonb END) AS element(value) WHERE element.value = ?)'' = 1"
    "marks ''CASE WHEN jsonb_typeof(data #> ) =  THEN data #>>  ELSE NULL END'' = 0"
    "marks ''CASE WHEN jsonb_typeof(data #> ) =  THEN (data #>> )::numeric ELSE NULL END'' = 0" "marks ''(data #>> )'' = 0" by simp_all
  show "marks (pg_remove_skel n) = 0" by (rule pg_remove_marks)
  {
    assume v: "list_all segmentPattern path"
    note l = path_quote(2) [OF v]
    show "balanced e \<Longrightarrow> balanced (dl_JSONSet postgres e path)" "balanced e \<Longrightarrow> skeleton (dl_JSONSet postgres e path) = ''jsonb_set('' @ skeleton e @ '', , ?::jsonb, true)''"
      using l by (simp_all add: postgres_def pg_JSONSet_def quote_def)
    show "balanced (dl_JSONType postgres ''data'' path)" "skeleton (dl_JSONType postgres ''data'' path) = ''jsonb_typeof(data #> )''"
      using l by (simp_all add: postgres_def pg_JSONType_def quote_def)
    show "balanced (dl_JSONArrayContains postgres ''data'' path)"
      "skeleton (dl_JSONArrayContains postgres ''data'' path) = ''EXISTS (SELECT 1 FROM jsonb_array_elements_text(CASE WHEN jsonb_typeof(data #> ) =  THEN data #>  ELSE ::jsonb END) AS element(value) WHERE element.value = ?)''"
      using l q by (simp_all add: postgres_def pg_JSONArrayContains_def quote_def)
    show "balanced (dl_JSONBool postgres ''data'' path)"
      "skeleton (dl_JSONBool postgres ''data'' path) = ''CASE WHEN jsonb_typeof(data #> ) =  THEN data #>>  ELSE NULL END''"
      using l q by (simp_all add: postgres_def pg_JSONBool_def quote_def)
    show "balanced (dl_JSONNumber postgres ''data'' path)"
      "skeleton (dl_JSONNumber postgres ''data'' path) = ''CASE WHEN jsonb_typeof(data #> ) =  THEN (data #>> )::numeric ELSE NULL END''"
      using l q by (simp_all add: postgres_def pg_JSONNumber_def quote_def)
    show "balanced (dl_JSONText postgres ''data'' path)" "skeleton (dl_JSONText postgres ''data'' path) = ''(data #>> )''"
      using l by (simp_all add: postgres_def pg_JSONText_def quote_def)
  }
  show "paths \<noteq> [] \<Longrightarrow> list_all (list_all segmentPattern) paths \<Longrightarrow> balanced (dl_JSONRemove postgres ''data'' paths)"
    "paths \<noteq> [] \<Longrightarrow> list_all (list_all segmentPattern) paths \<Longrightarrow> skeleton (dl_JSONRemove postgres ''data'' paths) = pg_remove_skel (length paths)"
    using pg_remove_skeleton [of paths "''data''"] by (simp_all add: postgres_def pg_remove_skel_def quote_def)
qed

section \<open>The property of the statements\<close>

text \<open>
  C28: the statements that are put together from a patch or from a query over system data are safe,
  for both backends.  Their quotes are balanced, they have as many placeholders as arguments, and
  their text outside literals depends only on which fields and how many paths there are and on the
  operators: no path and no value can reach it.
\<close>

theorem statements_safe:
  assumes "dl = sqlite \<or> dl = postgres"
  shows "(\<forall>now wid did patch q args. patch_statement dl now wid did patch = Inr (q, args) \<longrightarrow>
      balanced q \<and> marks (skeleton q) = length args \<and>
      (\<forall>now' wid' did' patch' q' args'. patch_statement dl now' wid' did' patch' = Inr (q', args') \<and> patch_shape patch = patch_shape patch' \<longrightarrow>
         skeleton q = skeleton q')) \<and>
    (\<forall>sprint wid spec q args. query_statement dl sprint wid spec = Inr (q, args) \<longrightarrow>
      balanced q \<and> marks (skeleton q) = length args \<and>
      (\<forall>sprint' wid' spec' q' args'. query_statement dl sprint' wid' spec' = Inr (q', args') \<and> query_shape spec = query_shape spec' \<longrightarrow>
         skeleton q = skeleton q'))"
  using assms
proof
  assume dl: "dl = sqlite"
  show ?thesis unfolding dl
    by (intro conjI allI impI)
      (erule sqlite.patch_safe | (elim conjE, erule (2) sqlite.patch_skeleton) | erule sqlite.query_good(1,2) | (elim conjE, erule (2) sqlite.query_skeleton))+
next
  assume dl: "dl = postgres"
  show ?thesis unfolding dl
    by (intro conjI allI impI)
      (erule postgres.patch_safe | (elim conjE, erule (2) postgres.patch_skeleton) | erule postgres.query_good(1,2) | (elim conjE, erule (2) postgres.query_skeleton))+
qed

definition sample_mixed_patch :: Patch where
  "sample_mixed_patch = zero_patch\<lparr>p_Name := Some ''x'', p_Set := [(''hp.value'', JInt 3)], p_Unset := [''note'']\<rparr>"

theorem statements_safe_witness:
  "\<exists>q args. patch_statement postgres 5 ''w'' ''d'' sample_mixed_patch = Inr (q, args) \<and> balanced q \<and> marks (skeleton q) = length args \<and> length args = 6 \<and>
     patch_statement postgres 5 ''w'' ''d'' (sample_mixed_patch\<lparr>p_Unset := [[CHR 0x27] @ ''); DROP TABLE users'']\<rparr>) = Inl ErrInvalidPath"
proof -
  have "case patch_statement postgres 5 ''w'' ''d'' sample_mixed_patch of Inl _ \<Rightarrow> False | Inr (q, args) \<Rightarrow> length args = 6" by code_simp
  then obtain q args where q: "patch_statement postgres 5 ''w'' ''d'' sample_mixed_patch = Inr (q, args)" "length args = 6"
    by (auto split: sum.splits)
  have bad: "patch_statement postgres 5 ''w'' ''d'' (sample_mixed_patch\<lparr>p_Unset := [[CHR 0x27] @ ''); DROP TABLE users'']\<rparr>) = Inl ErrInvalidPath"
    by code_simp
  have "balanced q \<and> marks (skeleton q) = length args"
    using conjunct1 [OF statements_safe [OF disjI2 [OF refl]], THEN spec, THEN spec, THEN spec, THEN spec, THEN spec, THEN spec, THEN mp, OF q(1)] by simp
  with q bad show ?thesis by blast
qed

end
