(* ===== verification/App.thy ===== *)
theory App
  imports System Dialects
begin

text \<open>
  Configuration and start-up (\<open>internal/app/app.go\<close>).  Opening a database and migrating it are
  calls of the drivers, so what they give is an argument; the listener is not modelled.
\<close>

record Config =
  cf_Bind :: string
  cf_BlobRoot :: string
  cf_AssetBaseURL :: string
  cf_WorldQuota :: int
  cf_StorageDriver :: string
  cf_StorageDSN :: string
  cf_JSONProtocol :: bool
  cf_SecureCookies :: bool
  cf_ShutdownTimeout :: duration

definition default_config :: Config where
  "default_config = \<lparr>cf_Bind = ''0.0.0.0:30000'', cf_BlobRoot = ''data/blobs'', cf_AssetBaseURL = [],
     cf_WorldQuota = 4 * 2 ^ 30, cf_StorageDriver = ''sqlite'', cf_StorageDSN = ''data/tavora.db'',
     cf_JSONProtocol = False, cf_SecureCookies = False, cf_ShutdownTimeout = 15 * second\<rparr>"

definition env_or :: "(string \<Rightarrow> string) \<Rightarrow> string \<Rightarrow> string \<Rightarrow> string" where
  "env_or getenv name fallback = (if getenv name \<noteq> [] then getenv name else fallback)"

definition ConfigFromEnv :: "(string \<Rightarrow> string) \<Rightarrow> Config" where
  "ConfigFromEnv getenv =
     (let config = default_config
      in config\<lparr>cf_Bind := env_or getenv ''TAVORA_SERVER_BIND'' (cf_Bind config),
         cf_StorageDriver := env_or getenv ''TAVORA_STORAGE_DRIVER'' (cf_StorageDriver config),
         cf_StorageDSN := env_or getenv ''TAVORA_STORAGE_DSN'' (cf_StorageDSN config),
         cf_BlobRoot := env_or getenv ''TAVORA_BLOB_ROOT'' (cf_BlobRoot config),
         cf_AssetBaseURL := env_or getenv ''TAVORA_ASSET_BASE_URL'' (cf_AssetBaseURL config),
         cf_WorldQuota := (case if getenv ''TAVORA_WORLD_QUOTA_BYTES'' \<noteq> [] then atoi (getenv ''TAVORA_WORLD_QUOTA_BYTES'') else None of
             Some parsed \<Rightarrow> parsed | None \<Rightarrow> cf_WorldQuota config),
         cf_JSONProtocol := (getenv ''TAVORA_PROTOCOL_JSON'' = ''1''),
         cf_SecureCookies := (getenv ''TAVORA_SECURE_COOKIES'' = ''1'')\<rparr>)"

text \<open>\<open>opened\<close> is what \<open>sqlite.Open\<close> and \<open>postgres.Open\<close> give for a data source.\<close>

definition openStore :: "(string \<Rightarrow> bool) \<Rightarrow> (string \<Rightarrow> string \<Rightarrow> Conn res) \<Rightarrow> Config \<Rightarrow> Conn res" where
  "openStore mkdir_fails opened config =
     (if cf_StorageDriver config = ''sqlite'' then
        (let directory = file_dir (cf_StorageDSN config)
         in if directory \<noteq> ''.'' \<and> directory \<noteq> [] \<and> mkdir_fails directory then Inl (ErrDriver ''mkdir'')
            else opened ''sqlite'' (cf_StorageDSN config))
      else if cf_StorageDriver config = ''postgres'' then opened ''postgres'' (cf_StorageDSN config)
      else Inl (ErrDriver ''driver''))"

text \<open>
  What \<open>New\<close> wires together: the dependencies of the HTTP server, whether its gateway allows the
  readable protocol, the system before its first turn and whether setup is needed.  When one of its
  steps fails there is no server.
\<close>

record App =
  ap_deps :: Deps
  ap_allowJSON :: bool
  ap_system :: System
  ap_needsSetup :: bool

definition app_New ::
  "(string \<Rightarrow> bool) \<Rightarrow> (string \<Rightarrow> string \<Rightarrow> Conn res) \<Rightarrow> (Conn \<Rightarrow> DB res) \<Rightarrow> os_env \<Rightarrow> Auth \<Rightarrow> Codecs \<Rightarrow> Config \<Rightarrow> App res" where
  "app_New mkdir_fails opened migrate os auth cd config =
     bind_res (openStore mkdir_fails opened config) (\<lambda>store.
     bind_res (migrate store) (\<lambda>db.
     bind_res (NewDisk os (cf_BlobRoot config)) (\<lambda>blobs.
     bind_res (NeedsSetup store db) (\<lambda>needsSetup.
     Inr \<lparr>ap_deps = \<lparr>dp_Auth = \<lparr>ad_Service = auth, ad_Store = store, ad_Policy = OpenPolicy, ad_SecureCookies = cf_SecureCookies config\<rparr>,
            dp_Assets = disk_assets \<lparr>lm_MaxBytes = 0, lm_MaxPixels = 0, lm_Thumbnail = 0\<rparr> (cf_WorldQuota config) (cf_AssetBaseURL config),
            dp_Codecs = cd, dp_Ready = Inr (), dp_Backend = cf_StorageDriver config\<rparr>,
          ap_allowJSON = cf_JSONProtocol config,
          ap_system = booted \<lparr>sv_db = db, sv_limiter = NewLimiter DefaultLimits, sv_tickets = NewTicketStore DefaultTicketTTL, sv_disk = blobs\<rparr>,
          ap_needsSetup = needsSetup\<rparr>))))"

section \<open>Lemmas\<close>

lemma ConfigFromEnv_quota:
  "cf_WorldQuota (ConfigFromEnv getenv) = (case atoi (getenv ''TAVORA_WORLD_QUOTA_BYTES'') of Some n \<Rightarrow> n | None \<Rightarrow> 4 * 2 ^ 30)"
proof -
  have "atoi [] = None" by code_simp
  then show ?thesis by (auto simp: ConfigFromEnv_def default_config_def Let_def split: option.split)
qed

lemma openStore_driver:
  "openStore mkdir_fails opened config = Inr store \<Longrightarrow> cf_StorageDriver config \<in> {''sqlite'', ''postgres''} \<and>
     opened (cf_StorageDriver config) (cf_StorageDSN config) = Inr store"
  by (auto simp: openStore_def Let_def split: if_splits)

text \<open>The server starts in a good state when the migrated database is good.\<close>

lemma app_New_good:
  assumes "app_New mkdir_fails opened migrate os auth cd config = Inr app"
    and "\<And>store db. migrate store = Inr db \<Longrightarrow> db_ok db \<and> roles_ok db"
  shows "db_ok (sv_db (sy_server (ap_system app)))" "roles_ok (sv_db (sy_server (ap_system app)))"
    "tickets_ok (sv_tickets (sy_server (ap_system app)))" "ap_needsSetup app = (t_users (sv_db (sy_server (ap_system app))) = [])"
    "ap_system app = booted (sy_server (ap_system app))"
  using assms(1) assms(2)
  by (auto simp: app_New_def res_simps NeedsSetup_Inr NewTicketStore_def tickets_ok_def is_gomap_def booted_def)

text \<open>
  From a start on a good database, whatever happens to the server leaves a good one, and the
  readable protocol is spoken only when the environment asks for it.
\<close>

theorem running_server_good:
  assumes "app_New mkdir_fails opened migrate os auth cd (ConfigFromEnv getenv) = Inr app"
    and "\<And>store db. migrate store = Inr db \<Longrightarrow> db_ok db \<and> roles_ok db"
  shows "db_ok (sv_db (sy_server (run_system turns (ap_system app)))) \<and>
    (codecFor (ap_allowJSON app) format = JSONCodec \<longrightarrow> getenv ''TAVORA_PROTOCOL_JSON'' = ''1'')"
proof
  have "system_ok (ap_system app)" using booted_ok [OF app_New_good(1) [OF assms]] app_New_good(5) [OF assms] by simp
  then show "db_ok (sv_db (sy_server (run_system turns (ap_system app))))"
    using run_system_ok [of "ap_system app" turns] by (simp add: system_ok_def)
  show "codecFor (ap_allowJSON app) format = JSONCodec \<longrightarrow> getenv ''TAVORA_PROTOCOL_JSON'' = ''1''"
    using assms(1) by (auto simp: app_New_def res_simps readable_only_when_allowed ConfigFromEnv_def Let_def)
qed

end
