(* ===== verification/Spec2Isabelle.thy ===== *)
theory Spec2Isabelle
  imports Schema App
begin

text \<open>
  \<^bold>\<open>A verification development of the Tavora game server\<close>

  Tavora is a server for role-playing games.  Clients use an HTTP interface for accounts, worlds,
  invites, scenes and images, and a websocket for everything that happens at the table: moving
  tokens, editing sheets, chat, dice, combat, doors.  Every change of a world is a row of its event
  log; it is published to the sessions of the world, each of which gets only what its user may read
  and see.  All state is in an SQL database (SQLite or PostgreSQL) and, for images, on disk.

  \<^bold>\<open>The parts and their theories\<close> (paths below \<open>src/internal\<close>)

  \<^item> \<open>Prelude\<close>: results with errors, maps of Go as association lists, tables, 64-bit wrap-around,
    strings.  \<open>Float64\<close>: rounded binary64 arithmetic.  \<open>GoJson\<close>, \<open>Marshal\<close>: what
    \<open>encoding/json\<close> reads and writes.  \<open>Encoding\<close>: decimals, hex, base64.
  \<^item> \<open>StoragePort\<close> (\<open>storage/storage.go\<close>): rows, patches, filters and errors.  \<open>SqlStore\<close>
    (\<open>storage/sqlstore\<close>): every operation of the store as its effect on tables with the
    constraints of the schema.  \<open>Dialects\<close> (\<open>storage/sqlite\<close>, \<open>storage/postgres\<close>, the
    SQL text of \<open>documents.go\<close>): the statements as they are put together.  \<open>Schema\<close>: the
    migrations of both backends and \<open>Store.Migrate\<close>.
  \<^item> \<open>Perm\<close> (\<open>core/perm\<close>): roles, levels, ownership, redaction.  \<open>Access\<close>
    (\<open>core/access\<close>): grants from the stored layers.  \<open>Vision\<close>, \<open>Sight\<close>
    (\<open>core/vision\<close>, \<open>core/sight\<close>): line of sight and what it hides.  \<open>Dice\<close> (\<open>core/dice\<close>).
  \<^item> \<open>Password\<close>, \<open>Ratelimit\<close>, \<open>AuthService\<close> (\<open>core/auth\<close>): password hashes, the limiter of
    sign-ins, accounts and sessions.
  \<^item> \<open>Blob\<close> (\<open>core/blob\<close>): files named by the hash of their content.  \<open>Image\<close>
    (\<open>core/asset\<close>): uploads decoded and encoded again, thumbnails.
  \<^item> \<open>Frames\<close>, \<open>Outbox\<close>, \<open>Tickets\<close>, \<open>Hub\<close>, \<open>Session\<close>, \<open>Gateway\<close> (\<open>transport/ws\<close>):
    the protocol, the queue of a connection, tickets, the hub of a world, the life of a session, the
    router.  \<open>Intents\<close>, \<open>Chat\<close>, \<open>Combat\<close>, \<open>Doors\<close>: the handlers.
  \<^item> \<open>HttpApi\<close>, \<open>Worlds\<close>, \<open>Scenes\<close>, \<open>HttpAssets\<close>, \<open>Server\<close> (\<open>transport/httpapi\<close>):
    accounts, worlds and invites, scenes and documents, images, the router and the state of the server.
  \<^item> \<open>App\<close> (\<open>app/app.go\<close>): configuration and start-up.  \<open>System\<close>: the HTTP server, the hubs
    and the connections as one transition system.

  \<^bold>\<open>How the code is represented\<close>

  A struct is a record whose fields carry a prefix; an operation is a function of the same name on
  the state it changes.  An error is a value of \<open>go_error\<close>, the left side of \<open>'a res\<close>.  A
  transaction is a function on the database that \<open>store_Tx\<close> commits or rolls back; \<open>Conn\<close> says
  which statements fail, so every lemma holds under every failure of the database.  An HTTP handler is
  a function from the request, the user and the database to the response and the database.  Go's
  iteration over a map, where its order can matter, is a list of keys in any order.  Numbers
  are integers, wrapped to 64 bits where the code can overflow; coordinates are binary64.

  What the code takes from elsewhere is a parameter: argon2, SHA-256, random bytes and clock,
  Unicode case folding, the image codecs, the parsed multipart form, the file system's failures, the
  environment.  What a theorem needs of one is a premise of it, with an instance in its witness.

  \<^bold>\<open>Interfaces\<close>

  The contracts between components are locales, each interpreted on the definitions that provide
  it: \<open>frame_queue\<close> (the outbox as the write loop uses it), \<open>blob_store\<close> and \<open>asset_blobs\<close> (blobs
  as the asset handlers use them; the disk), \<open>store_keeping_router\<close> and \<open>world_router\<close> (handlers as
  the read loop uses them; the gateway), \<open>safe_dialect\<close> (fragments as the statements use them;
  both backends), \<open>migration_plan\<close> (migrations as the runner uses them; both backends).

  \<^bold>\<open>What is shown\<close>

  \<^item> The store: keys, references and event logs stay consistent under all operations, hence under
    the gateway, the HTTP interface and the two together; patches are exact.  Both schemas enforce
    the constraints that the tables of \<open>SqlStore\<close> have; migrations resume; statements are safe
    against injection.
  \<^item> Permissions: the effective level, exact redaction and its noninterference; who may write; no
    frame of a patch carries what its receiver may not read or see; chat for game masters stays with them.
  \<^item> Delivery: fan-out is exact, events are written in order, a reconnecting client catches up,
    an event never leaves its world.
  \<^item> Accounts: a login is a checked password and its token works until it expires; guesses are
    bounded; tickets open connections; setup works once.
  \<^item> HTTP: who can change what, failed requests change nothing, roles stay known, memberships and
    invites are governed, uploads are backed by their files and served as stored.
  \<^item> Numbers: line of sight is exact on the grid, thumbnails fit, rolls are bounded.

  \<^bold>\<open>Bounds and fuel\<close>

  \<open>drain\<close> and \<open>write_pending\<close> take the number of turns; the theorems about them say that the
  number of waiting frames is enough.  Catch-up covers 500 events and a list of documents 1000 rows,
  as in the code, and the theorems name these limits.  \<open>visible_grid_exact\<close> holds for coordinates
  below \<open>2^24\<close> and \<open>thumbnail_fits\<close> for sizes below \<open>2^50\<close>, where rounding cannot matter.  All
  other recursions are structural or have a termination proof (\<open>free_from\<close>, the search for a slug).

  \<^bold>\<open>Not modelled\<close>

  The execution of SQL by the drivers, their scanners and time formats; opening the databases.  The
  websocket library and the byte encodings of frames.  The multipart parser, range requests and
  preconditions of \<open>http.ServeContent\<close>, the image codecs.  Contexts and timeouts, logging, the listener,
  signals and shutdown (\<open>App.Run\<close>, \<open>main\<close>), and closing the gateway while connections are open.
  Within \<open>System\<close>, the handshake, the welcome and a handler up to its publications are each one
  step.  The conformance tests of the stores (\<open>storage/storetest\<close>) are test code.
\<close>

section \<open>The running server\<close>

text \<open>
  C2: whatever clients and users do, with requests, connections, hubs and loops interleaved in any way
  and with any failures, the database keeps its invariant; every connection is written its events in
  strictly increasing order; each event it is written belongs to the world that its ticket admitted it
  to; and a hub holds only connections of its own world that have not left.
\<close>

theorem system_safe:
  assumes "db_ok (sv_db server)" and "st = run_system turns (booted server)"
  shows "db_ok (sv_db (sy_server st)) \<and>
    (\<forall>sid. sorted_wrt (<) (seqs (written_to sid st))) \<and>
    (\<forall>sid f e. f \<in> set (written_to sid st) \<and> fr_Type f = TypeEvent \<and> fr_Event f = Some e \<longrightarrow>
       (\<exists>ph. map_of (sy_phase st) sid = Some (ev_WorldID e, ph))) \<and>
    (\<forall>wid h sid. map_of (sy_hubs st) wid = Some h \<and> joined h sid \<longrightarrow>
       (\<exists>ph. map_of (sy_phase st) sid = Some (wid, ph) \<and> ph \<noteq> Ended))"
proof -
  have ok: "system_ok st" using run_system_ok [OF booted_ok [OF assms(1)]] assms(2) by blast
  have "\<exists>ph. map_of (sy_phase st) sid = Some (ev_WorldID e, ph)"
    if frame: "f \<in> set (written_to sid st)" "fr_Type f = TypeEvent" "fr_Event f = Some e" for sid f e
  proof -
    obtain wid ph where ph: "map_of (sy_phase st) sid = Some (wid, ph)"
      using ok frame(1) by (cases "map_of (sy_phase st) sid") (auto simp: system_ok_def)
    then have "frame_in wid f" using ok frame(1) by (auto simp: system_ok_def phase_in_def list_all_iff)
    then show ?thesis using ph frame by (simp add: frame_in_def)
  qed
  then show ?thesis using ok unfolding system_ok_def hub_in_def by blast
qed

text \<open>A game master connects, posts a message, and is written its event.\<close>

definition sample_ticketed :: ServerState where
  "sample_ticketed = (sample_state sample_members_db)\<lparr>sv_tickets :=
     \<lparr>ts_tickets = [(''t'', \<lparr>tk_UserID = ''g'', tk_WorldID = ''w'', tk_Role = ''gm'', tk_ExpiresAt = 9\<rparr>)], ts_ttl = 30\<rparr>\<rparr>"

definition sample_hello :: Frame where
  "sample_hello = (empty_frame LaneControl TypeHello)\<lparr>fr_Hello := Some \<lparr>h_Ticket = ''t'', h_WorldID = ''w'',
     h_ProtocolVersion = 1, h_LastSeq = 2, h_Locale = [], h_Capabilities = []\<rparr>\<rparr>"

definition sample_post :: Frame where
  "sample_post = (empty_frame LaneDocument TypeIntent)\<lparr>fr_Intent := Some \<lparr>it_RequestID = 1, it_Kind = ''chat.post'',
     it_WorldID = ''w'', it_Payload = RawJson (JObj [(''text'', JStr ''hi'')])\<rparr>\<rparr>"

definition sample_table :: System where
  "sample_table = run_system
     [Connect sample_conn 5 0 0 (Inr sample_hello) ''s1'', Greet sample_conn OpenPolicy (\<lambda>_. Inr ()) ''s1'',
      Read sample_supplies (Inr sample_post) ''s1'', Publish ''s1'', Hub ''w'' [''s1''],
      Write (\<lambda>_. Inr ()) True ''s1'', Write (\<lambda>_. Inr ()) True ''s1''] (booted sample_ticketed)"

lemma sample_table_written: "map (\<lambda>f. (fr_Type f, event_seq f)) (written_to ''s1'' sample_table) = [(TypeAck, None), (TypeEvent, Some 3)]"
  by code_simp

theorem system_safe_witness:
  "db_ok (sv_db (sy_server sample_table)) \<and> length (written_to ''s1'' sample_table) = 2 \<and>
   sorted_wrt (<) (seqs (written_to ''s1'' sample_table))"
proof -
  have "length (map (\<lambda>f. (fr_Type f, event_seq f)) (written_to ''s1'' sample_table)) = 2" unfolding sample_table_written by simp
  then have "length (written_to ''s1'' sample_table) = 2" by simp
  moreover have "db_ok (sv_db sample_ticketed)" using sample_members_db_ok by (simp add: sample_ticketed_def sample_state_def)
  ultimately show ?thesis using system_safe [OF _ sample_table_def] by blast
qed

end
